(* ===== verification/Prelude.thy ===== *)
theory Prelude
  imports "HOL-Library.Word"
begin

text \<open>
  Shared vocabulary of the development: how a Go computation ends (a value or a panic), the
  Go integer types at their width, channels and atomic operations as far as the sources use
  them, first-match search in slices, and the proof collections the components extend.
\<close>

section \<open>Proof collections\<close>

named_theorems go_simps \<open>unfolding rules for the primitives of the language model\<close>
named_theorems step_defs \<open>definitions of the operations of a component\<close>
named_theorems inv_intros \<open>preservation lemmas of component invariants\<close>

section \<open>Computations that may panic\<close>

text \<open>
  A run-time panic unwinds the stack until a deferred \<open>recover\<close> catches it. The panics
  listed here are those the sources can raise.
\<close>

datatype panic =
    IndexOutOfRange
  | NilDereference
  | CloseOfClosedChannel
  | MakechanSizeOutOfRange
  | MakesliceLenOutOfRange
  | NegativeWaitGroupCounter
  | FailedTypeAssertion

datatype 'a go = Ret 'a | Panic panic

definition go_bind :: "'a go \<Rightarrow> ('a \<Rightarrow> 'b go) \<Rightarrow> 'b go" where
  "go_bind m f = (case m of Ret a \<Rightarrow> f a | Panic p \<Rightarrow> Panic p)"

lemma go_bind_simps [simp, go_simps]:
  "go_bind (Ret a) f = f a"
  "go_bind (Panic p) f = Panic p"
  by (simp_all add: go_bind_def)

lemma go_bind_eq_Ret [simp]:
  "go_bind m f = Ret b \<longleftrightarrow> (\<exists>a. m = Ret a \<and> f a = Ret b)"
  by (cases m) auto

lemma go_bind_eq_Panic:
  "go_bind m f = Panic p \<longleftrightarrow> m = Panic p \<or> (\<exists>a. m = Ret a \<and> f a = Panic p)"
  by (cases m) auto

section \<open>Integers, channels and atomics\<close>

text \<open>
  \<open>int32\<close> wraps around; a Go \<open>int\<close> (64 bits on the platforms the program runs on) is an
  \<open>int\<close> where the sources only count small quantities.
\<close>

type_synonym int32 = "32 word"
type_synonym int64 = "64 word"

text \<open>\<open>close(c)\<close>: a channel that only signals is the flag "is closed".\<close>

definition close_chan :: "bool \<Rightarrow> bool go" where
  "close_chan closed = (if closed then Panic CloseOfClosedChannel else Ret True)"

lemma close_chan_simps [simp, go_simps]:
  "close_chan False = Ret True"
  "close_chan True = Panic CloseOfClosedChannel"
  by (simp_all add: close_chan_def)

text \<open>\<open>atomic.CompareAndSwapInt32(&x, old, new)\<close>: did it swap, and the value afterwards.\<close>

definition CompareAndSwapInt32 :: "int32 \<Rightarrow> int32 \<Rightarrow> int32 \<Rightarrow> bool \<times> int32" where
  "CompareAndSwapInt32 x old new = (if x = old then (True, new) else (False, x))"

lemma CompareAndSwapInt32_simps [simp, go_simps]:
  "x = old \<Longrightarrow> CompareAndSwapInt32 x old new = (True, new)"
  "x \<noteq> old \<Longrightarrow> CompareAndSwapInt32 x old new = (False, x)"
  by (simp_all add: CompareAndSwapInt32_def)

section \<open>First match in a slice\<close>

text \<open>
  The loops \<open>for i, x := range xs { if P(x) { return x } }\<close> as the index of the element
  they return.
\<close>

fun find_index :: "('a \<Rightarrow> bool) \<Rightarrow> 'a list \<Rightarrow> nat option" where
  "find_index P [] = None"
| "find_index P (x # xs) = (if P x then Some 0 else map_option Suc (find_index P xs))"

lemma find_index_None: "find_index P xs = None \<longleftrightarrow> (\<forall>x \<in> set xs. \<not> P x)"
  by (induction xs) auto

lemma find_index_SomeD:
  "find_index P xs = Some i \<Longrightarrow> i < length xs \<and> P (xs ! i) \<and> (\<forall>j < i. \<not> P (xs ! j))"
proof (induction xs arbitrary: i)
  case Nil
  then show ?case by simp
next
  case (Cons x xs)
  show ?case
  proof (cases "P x")
    case True
    with Cons.prems show ?thesis by simp
  next
    case False
    with Cons.prems obtain k where k: "find_index P xs = Some k" "i = Suc k" by auto
    have "k < length xs \<and> P (xs ! k) \<and> (\<forall>j < k. \<not> P (xs ! j))"
      by (rule Cons.IH [OF k(1)])
    with k(2) False show ?thesis by (auto simp: less_Suc_eq_0_disj)
  qed
qed

lemma find_index_SomeI:
  assumes "i < length xs" "P (xs ! i)" "\<And>j. j < i \<Longrightarrow> \<not> P (xs ! j)"
  shows "find_index P xs = Some i"
proof (cases "find_index P xs")
  case None
  with assms show ?thesis by (auto simp: find_index_None)
next
  case (Some k)
  from find_index_SomeD [OF Some] assms have "k = i"
    by (metis linorder_neqE_nat)
  with Some show ?thesis by simp
qed

lemma find_index_Some_iff:
  "find_index P xs = Some i \<longleftrightarrow>
     i < length xs \<and> P (xs ! i) \<and> (\<forall>j < i. \<not> P (xs ! j))"
  by (metis find_index_SomeD find_index_SomeI)

lemma find_index_append:
  "find_index P (xs @ ys) =
     (case find_index P xs of Some i \<Rightarrow> Some i
      | None \<Rightarrow> map_option (\<lambda>i. length xs + i) (find_index P ys))"
  by (induction xs; cases "find_index P ys") (auto split: option.splits)

lemma find_index_cong:
  "length xs = length ys \<Longrightarrow> (\<And>i. i < length xs \<Longrightarrow> P (xs ! i) = Q (ys ! i)) \<Longrightarrow>
     find_index P xs = find_index Q ys"
proof (induction xs ys rule: list_induct2)
  case Nil
  then show ?case by simp
next
  case (Cons x xs y ys)
  have "P x = Q y" using Cons.prems [of 0] by simp
  moreover have "find_index P xs = find_index Q ys"
    by (rule Cons.IH) (use Cons.prems [of "Suc _"] in auto)
  ultimately show ?case by simp
qed

text \<open>The last index below a bound: what a map holds that every index overwrites in turn.\<close>

fun last_below :: "(nat \<Rightarrow> bool) \<Rightarrow> nat \<Rightarrow> nat option" where
  "last_below P 0 = None"
| "last_below P (Suc n) = (if P n then Some n else last_below P n)"

lemma last_below_Some_iff:
  "last_below P n = Some j \<longleftrightarrow> j < n \<and> P j \<and> (\<forall>k. j < k \<and> k < n \<longrightarrow> \<not> P k)"
  by (induction n) (auto simp: less_Suc_eq)

lemma last_below_None_iff: "last_below P n = None \<longleftrightarrow> (\<forall>k < n. \<not> P k)"
  by (induction n) (auto simp: less_Suc_eq)

lemma last_below_less: "last_below P n = Some j \<Longrightarrow> j < n"
  by (simp add: last_below_Some_iff)

lemma last_below_holds: "last_below P n = Some j \<Longrightarrow> P j"
  by (simp add: last_below_Some_iff)

section \<open>Strings\<close>

text \<open>\<open>strings.HasPrefix(s, p)\<close>.\<close>

fun HasPrefix :: "string \<Rightarrow> string \<Rightarrow> bool" where
  "HasPrefix s [] = True"
| "HasPrefix [] (p # ps) = False"
| "HasPrefix (c # cs) (p # ps) = (c = p \<and> HasPrefix cs ps)"

lemma HasPrefix_iff: "HasPrefix s p \<longleftrightarrow> (\<exists>r. s = p @ r)"
  by (induction s p rule: HasPrefix.induct) auto

text \<open>
  \<open>strings.Split(s, sep)\<close> for a separator of one character: the pieces between the
  separators, one more than there are separators.
\<close>

fun Split :: "string \<Rightarrow> char \<Rightarrow> string list" where
  "Split [] sep = [[]]"
| "Split (c # cs) sep =
     (if c = sep then [] # Split cs sep
      else (case Split cs sep of [] \<Rightarrow> [[c]] | p # ps \<Rightarrow> (c # p) # ps))"

lemma Split_not_Nil [simp]: "Split s sep \<noteq> []"
  by (induction s) (auto split: list.splits)

lemma Split_length: "length (Split s sep) = Suc (count_list s sep)"
proof (induction s)
  case Nil
  then show ?case by simp
next
  case (Cons c s)
  then show ?case by (cases "Split s sep") auto
qed

lemma Split_no_sep: "sep \<notin> set s \<Longrightarrow> Split s sep = [s]"
  by (induction s) auto

lemma Split_append: "sep \<notin> set p \<Longrightarrow> Split (p @ sep # s) sep = p # Split s sep"
  by (induction p) auto

text \<open>\<open>strconv.Itoa(i)\<close>, and \<open>%d\<close> of \<open>fmt.Sprintf\<close>.\<close>

fun decimal :: "nat \<Rightarrow> string" where
  "decimal n = (if n < 10 then [char_of (48 + n)]
     else decimal (n div 10) @ [char_of (48 + n mod 10)])"

declare decimal.simps [simp del]

definition Itoa :: "int \<Rightarrow> string" where
  "Itoa i = (if i < 0 then CHR ''-'' # decimal (nat (- i)) else decimal (nat i))"

lemma decimal_not_Nil [simp]: "decimal n \<noteq> []"
  by (subst decimal.simps) simp

lemma Nil_not_decimal [simp]: "[] \<noteq> decimal n"
  using decimal_not_Nil [of n] by metis

lemma digit_inject:
  assumes "a < 10" "b < 10"
  shows "(char_of (48 + a :: nat) = char_of (48 + b)) = (a = b)"
proof
  assume "char_of (48 + a) = (char_of (48 + b) :: char)"
  then have "of_char (char_of (48 + a)) = (of_char (char_of (48 + b)) :: nat)" by simp
  then have "(48 + a) mod 256 = (48 + b) mod 256" by (simp only: of_char_of)
  then show "a = b" using assms by simp
qed simp

lemma decimal_inject: "decimal m = decimal n \<Longrightarrow> m = n"
proof (induction m arbitrary: n rule: decimal.induct)
  case (1 m)
  show ?case
  proof (cases "m < 10 \<or> n < 10")
    case True
    then have "m < 10" "n < 10"
      using "1.prems" by (auto simp: decimal.simps [of m] decimal.simps [of n] split: if_splits)
    then show ?thesis
      using "1.prems" by (simp add: decimal.simps [of m] decimal.simps [of n] digit_inject)
  next
    case False
    then have "decimal (m div 10) = decimal (n div 10)" "m mod 10 = n mod 10"
      using "1.prems" by (auto simp: decimal.simps [of m] decimal.simps [of n] digit_inject)
    then have "m div 10 = n div 10" using "1.IH" False by blast
    with \<open>m mod 10 = n mod 10\<close> show ?thesis by (metis div_mult_mod_eq)
  qed
qed

lemma Itoa_inject: "0 \<le> i \<Longrightarrow> 0 \<le> j \<Longrightarrow> Itoa i = Itoa j \<Longrightarrow> i = j"
  using decimal_inject [of "nat i" "nat j"] by (simp add: Itoa_def)

section \<open>Functional options\<close>

text \<open>An option is a function on the settings; the options of a call are applied in order.\<close>

definition apply_options :: "('o \<Rightarrow> 'o) list \<Rightarrow> 'o \<Rightarrow> 'o" where
  "apply_options opts o0 = fold (\<lambda>opt o1. opt o1) opts o0"

lemma apply_options_simps [simp]:
  "apply_options [] o0 = o0"
  "apply_options (opt # opts) o0 = apply_options opts (opt o0)"
  by (simp_all add: apply_options_def)

lemma apply_options_append:
  "apply_options (opts @ opts') o0 = apply_options opts' (apply_options opts o0)"
  by (simp add: apply_options_def)

end
