(* ===== verification/WaitGroup.thy ===== *)
theory WaitGroup
  imports Prelude
begin

text \<open>
  \<^verbatim>\<open>syncx/waitgroup.go\<close>: the group a fetch uses to wait for the frames of a page. First the
  methods as the code has them, run to the end by one goroutine; then the same methods
  broken into their atomic actions, so that any interleaving of goroutines is a run of
  one step relation.
\<close>

section \<open>State and methods\<close>

text \<open>The sentinel errors of package syncx (\<^verbatim>\<open>syncx/completiontimer.go\<close>).\<close>

datatype syncx_error = IdleTimeout | ExceededMaxTime | Cancelled

text \<open>
  The channels \<open>done\<close> and \<open>cancel\<close> are only ever closed; \<open>state\<close> is 0 before a call of
  \<open>Wait\<close>, 1 after it and 2 once the group has been completed.
\<close>

record wait_group =
  wg_counter :: int32
  wg_done :: bool
  wg_cancel :: bool
  wg_state :: int32

definition NewWaitGroup :: wait_group where
  "NewWaitGroup = \<lparr>wg_counter = 0, wg_done = False, wg_cancel = False, wg_state = 0\<rparr>"

text \<open>\<open>close(wg.done)\<close> and \<open>close(wg.cancel)\<close>, with the state a panic leaves behind.\<close>

definition close_done :: "wait_group \<Rightarrow> unit go \<times> wait_group" where
  "close_done wg = (case close_chan (wg_done wg) of
       Ret b \<Rightarrow> (Ret (), wg\<lparr>wg_done := b\<rparr>) | Panic p \<Rightarrow> (Panic p, wg))"

definition WaitGroup_Add :: "int \<Rightarrow> wait_group \<Rightarrow> unit go \<times> wait_group" where
  "WaitGroup_Add delta wg =
     (let n = wg_counter wg + word_of_int delta; wg1 = wg\<lparr>wg_counter := n\<rparr>
      in if n = 0
         then (let (swapped, s) = CompareAndSwapInt32 (wg_state wg1) 1 2;
                   wg2 = wg1\<lparr>wg_state := s\<rparr>
               in if swapped then close_done wg2 else (Ret (), wg2))
         else (Ret (), wg1))"

definition WaitGroup_Done :: "wait_group \<Rightarrow> unit go \<times> wait_group" where
  "WaitGroup_Done wg = WaitGroup_Add (- 1) wg"

text \<open>
  \<open>Wait\<close> up to its \<open>select\<close>: either it has returned nil or it goes on to the select.
\<close>

datatype wait_result = Returned "syncx_error option" | Selecting

definition WaitGroup_Wait_enter :: "wait_group \<Rightarrow> wait_result \<times> wait_group" where
  "WaitGroup_Wait_enter wg =
     (let wg1 = wg\<lparr>wg_state := snd (CompareAndSwapInt32 (wg_state wg) 0 1)\<rparr>
      in if wg_counter wg1 = 0 then (Returned None, wg1) else (Selecting, wg1))"

text \<open>
  The results the select of \<open>Wait\<close> can give: one per ready case, none while it blocks.
  Go picks any of the ready cases. \<open>ctxDone\<close> is whether the context given to
  \<open>NewWaitGroup\<close> is done.
\<close>

definition WaitGroup_Wait_select :: "bool \<Rightarrow> wait_group \<Rightarrow> syncx_error option list" where
  "WaitGroup_Wait_select ctxDone wg =
     (if ctxDone then [Some ExceededMaxTime] else [])
     @ (if wg_done wg then [None] else [])
     @ (if wg_cancel wg then [Some Cancelled] else [])"

definition WaitGroup_Cancel :: "wait_group \<Rightarrow> unit go \<times> wait_group" where
  "WaitGroup_Cancel wg = (case close_chan (wg_cancel wg) of
       Ret b \<Rightarrow> (Ret (), wg\<lparr>wg_cancel := b\<rparr>) | Panic p \<Rightarrow> (Panic p, wg))"

lemmas wait_group_defs [step_defs] =
  close_done_def WaitGroup_Add_def WaitGroup_Done_def WaitGroup_Wait_enter_def
  WaitGroup_Cancel_def

section \<open>The methods run by one goroutine\<close>

text \<open>
  What holds between calls: the \<open>done\<close> channel is closed exactly when the state has
  reached 2, so no method closes it a second time.
\<close>

definition wg_inv :: "wait_group \<Rightarrow> bool" where
  "wg_inv wg \<longleftrightarrow> wg_state wg \<in> {0, 1, 2} \<and> (wg_done wg \<longleftrightarrow> wg_state wg = 2)"

lemma wg_inv_New [inv_intros]: "wg_inv NewWaitGroup"
  by (simp add: wg_inv_def NewWaitGroup_def)

lemma wg_inv_Add [inv_intros]: "wg_inv wg \<Longrightarrow> wg_inv (snd (WaitGroup_Add d wg))"
  by (auto simp: wg_inv_def WaitGroup_Add_def close_done_def Let_def close_chan_def
      CompareAndSwapInt32_def)

lemma wg_inv_Wait [inv_intros]: "wg_inv wg \<Longrightarrow> wg_inv (snd (WaitGroup_Wait_enter wg))"
  by (auto simp: wg_inv_def WaitGroup_Wait_enter_def Let_def CompareAndSwapInt32_def)

lemma wg_inv_Cancel [inv_intros]: "wg_inv wg \<Longrightarrow> wg_inv (snd (WaitGroup_Cancel wg))"
  by (auto simp: wg_inv_def WaitGroup_Cancel_def close_chan_def)

lemma WaitGroup_Add_counter [simp]:
  "wg_counter (snd (WaitGroup_Add d wg)) = wg_counter wg + word_of_int d"
  by (auto simp: WaitGroup_Add_def close_done_def Let_def close_chan_def
      CompareAndSwapInt32_def)

lemma WaitGroup_Add_cancel [simp]:
  "wg_cancel (snd (WaitGroup_Add d wg)) = wg_cancel wg"
  by (auto simp: WaitGroup_Add_def close_done_def Let_def close_chan_def
      CompareAndSwapInt32_def)

lemma WaitGroup_Add_no_panic: "wg_inv wg \<Longrightarrow> fst (WaitGroup_Add d wg) = Ret ()"
  by (auto simp: wg_inv_def WaitGroup_Add_def close_done_def Let_def close_chan_def
      CompareAndSwapInt32_def)

section \<open>The methods interleaved\<close>

text \<open>
  Where a goroutine is inside a method: each constructor is the point before one atomic
  action. \<open>Crashed\<close> is a goroutine a panic has unwound.
\<close>

datatype wg_pc =
    Idle
  | AddFetch int
  | AddCas
  | AddClose
  | WaitCas
  | WaitLoad
  | WaitSelect
  | WaitDone "syncx_error option"
  | CancelClose
  | Crashed panic

record wg_sys =
  grp :: wait_group
  ctx_done :: bool
  pcs :: "nat \<Rightarrow> wg_pc"

definition wg_sys_init :: wg_sys where
  "wg_sys_init = \<lparr>grp = NewWaitGroup, ctx_done = False, pcs = (\<lambda>_. Idle)\<rparr>"

definition goto :: "nat \<Rightarrow> wg_pc \<Rightarrow> wg_sys \<Rightarrow> wg_sys" where
  "goto t p s = s\<lparr>pcs := (pcs s)(t := p)\<rparr>"

text \<open>Where a goroutine goes after an action that may panic.\<close>

fun after :: "wg_pc \<Rightarrow> unit go \<Rightarrow> wg_pc" where
  "after p (Ret u) = p"
| "after p (Panic e) = Crashed e"

text \<open>One rule per atomic action, for any goroutine \<open>t\<close>, and one for the context.\<close>

inductive wg_step :: "wg_sys \<Rightarrow> wg_sys \<Rightarrow> bool" where
  call_Add: "pcs s t = Idle \<Longrightarrow> wg_step s (goto t (AddFetch d) s)"
| call_Wait: "pcs s t = Idle \<Longrightarrow> wg_step s (goto t WaitCas s)"
| call_Cancel: "pcs s t = Idle \<Longrightarrow> wg_step s (goto t CancelClose s)"
| add_fetch: "pcs s t = AddFetch d \<Longrightarrow> n = wg_counter (grp s) + word_of_int d \<Longrightarrow>
    wg_step s (goto t (if n = 0 then AddCas else Idle)
                 (s\<lparr>grp := (grp s)\<lparr>wg_counter := n\<rparr>\<rparr>))"
| add_cas: "pcs s t = AddCas \<Longrightarrow>
    CompareAndSwapInt32 (wg_state (grp s)) 1 2 = (swapped, v) \<Longrightarrow>
    wg_step s (goto t (if swapped then AddClose else Idle)
                 (s\<lparr>grp := (grp s)\<lparr>wg_state := v\<rparr>\<rparr>))"
| add_close: "pcs s t = AddClose \<Longrightarrow> close_done (grp s) = (r, wg) \<Longrightarrow>
    wg_step s (goto t (after Idle r) (s\<lparr>grp := wg\<rparr>))"
| wait_cas: "pcs s t = WaitCas \<Longrightarrow>
    wg_step s (goto t WaitLoad
      (s\<lparr>grp := (grp s)\<lparr>wg_state := snd (CompareAndSwapInt32 (wg_state (grp s)) 0 1)\<rparr>\<rparr>))"
| wait_load: "pcs s t = WaitLoad \<Longrightarrow>
    wg_step s (goto t (if wg_counter (grp s) = 0 then WaitDone None else WaitSelect) s)"
| wait_select: "pcs s t = WaitSelect \<Longrightarrow>
    r \<in> set (WaitGroup_Wait_select (ctx_done s) (grp s)) \<Longrightarrow>
    wg_step s (goto t (WaitDone r) s)"
| wait_return: "pcs s t = WaitDone r \<Longrightarrow> wg_step s (goto t Idle s)"
| cancel_close: "pcs s t = CancelClose \<Longrightarrow> WaitGroup_Cancel (grp s) = (r, wg) \<Longrightarrow>
    wg_step s (goto t (after Idle r) (s\<lparr>grp := wg\<rparr>))"
| ctx_expires: "wg_step s (s\<lparr>ctx_done := True\<rparr>)"

inductive_cases wg_stepE: "wg_step s s'"

inductive wg_reachable :: "wg_sys \<Rightarrow> bool" where
  reach_init: "wg_reachable wg_sys_init"
| reach_step: "wg_reachable s \<Longrightarrow> wg_step s s' \<Longrightarrow> wg_reachable s'"

lemma goto_simps [simp]:
  "grp (goto t p s) = grp s"
  "ctx_done (goto t p s) = ctx_done s"
  "pcs (goto t p s) = (pcs s)(t := p)"
  by (simp_all add: goto_def)

text \<open>
  How the flags, the state word and the goroutines agree: who still has to close \<open>done\<close>
  (\<open>closer_inv\<close>), why a goroutine blocked in the select is not forgotten (\<open>wakeup_inv\<close>),
  and what a result of \<open>Wait\<close> says (\<open>result_inv\<close>).
\<close>

definition closers :: "wg_sys \<Rightarrow> nat set" where
  "closers s = {t. pcs s t = AddClose}"

definition casers :: "wg_sys \<Rightarrow> nat set" where
  "casers s = {t. pcs s t = AddCas}"

definition closer_inv :: "wg_sys \<Rightarrow> bool" where
  "closer_inv s \<longleftrightarrow>
     wg_state (grp s) \<in> {0, 1, 2} \<and> (wg_done (grp s) \<longrightarrow> wg_state (grp s) = 2) \<and>
     (if wg_state (grp s) = 2 \<and> \<not> wg_done (grp s) then \<exists>t. closers s = {t}
      else closers s = {})"

definition wakeup_inv :: "wg_sys \<Rightarrow> bool" where
  "wakeup_inv s \<longleftrightarrow>
     (\<forall>t. pcs s t = WaitLoad \<or> pcs s t = WaitSelect \<longrightarrow> wg_state (grp s) \<noteq> 0)
     \<and> (\<forall>t. pcs s t = WaitSelect \<and> wg_counter (grp s) = 0 \<longrightarrow>
          wg_state (grp s) = 2 \<or> casers s \<noteq> {})"

definition result_inv :: "wg_sys \<Rightarrow> bool" where
  "result_inv s \<longleftrightarrow>
     (\<forall>t. pcs s t = WaitDone (Some ExceededMaxTime) \<longrightarrow> ctx_done s)
     \<and> (\<forall>t. pcs s t = WaitDone (Some Cancelled) \<longrightarrow> wg_cancel (grp s))
     \<and> (\<forall>t. pcs s t \<noteq> WaitDone (Some IdleTimeout))"

lemma closers_update [simp]:
  "closers (s\<lparr>grp := g\<rparr>) = closers s"
  "closers (s\<lparr>ctx_done := b\<rparr>) = closers s"
  "p \<noteq> AddClose \<Longrightarrow> closers (goto t p s) = closers s - {t}"
  "closers (goto t AddClose s) = insert t (closers s)"
  by (auto simp: closers_def goto_def)

lemma casers_update [simp]:
  "casers (s\<lparr>grp := g\<rparr>) = casers s"
  "casers (s\<lparr>ctx_done := b\<rparr>) = casers s"
  "p \<noteq> AddCas \<Longrightarrow> casers (goto t p s) = casers s - {t}"
  "casers (goto t AddCas s) = insert t (casers s)"
  "pcs s t \<noteq> AddCas \<Longrightarrow> casers s - {t} = casers s"
  by (auto simp: casers_def goto_def)

lemma closers_frame [simp]:
  "pcs s t \<noteq> AddClose \<Longrightarrow> closers s - {t} = closers s"
  by (auto simp: closers_def)

lemma closer_inv_closes:
  assumes "closer_inv s" and "pcs s t = AddClose"
  shows "wg_state (grp s) = 2 \<and> \<not> wg_done (grp s) \<and> closers s = {t}"
proof -
  from assms(2) have "t \<in> closers s" by (simp add: closers_def)
  with assms(1) show ?thesis by (auto simp: closer_inv_def split: if_splits)
qed

lemma closer_step_result:
  assumes "closer_inv s" and "pcs s t = AddClose" and "close_done (grp s) = (r, wg)"
  shows "r = Ret () \<and> wg = (grp s)\<lparr>wg_done := True\<rparr> \<and> wg_state (grp s) = 2"
  using closer_inv_closes [OF assms(1,2)] assms(3) by (simp add: close_done_def)

lemma closer_inv_init [inv_intros]: "closer_inv wg_sys_init"
  by (simp add: closer_inv_def closers_def wg_sys_init_def NewWaitGroup_def)

lemma closer_inv_step [inv_intros]:
  assumes "wg_step s s'" and "closer_inv s" shows "closer_inv s'"
  using assms
proof (induction rule: wg_step.induct)
  case (add_cas s t swapped v)
  then show ?case
    by (cases "wg_state (grp s) = 1") (auto simp: closer_inv_def split: if_splits)
next
  case (add_close s t r wg)
  then show ?case
    using closer_inv_closes [OF add_close.prems add_close.hyps(1)]
    by (auto simp: closer_inv_def close_done_def)
next
  case (wait_cas s t)
  then show ?case
    by (cases "wg_state (grp s) = 0") (auto simp: closer_inv_def split: if_splits)
next
  case (cancel_close s t r wg)
  then show ?case
    by (cases "wg_cancel (grp s)") (auto simp: closer_inv_def WaitGroup_Cancel_def)
qed (simp_all add: closer_inv_def)

lemma wakeup_inv_init [inv_intros]: "wakeup_inv wg_sys_init"
  by (simp add: wakeup_inv_def wg_sys_init_def)

lemma wakeup_inv_step [inv_intros]:
  assumes "wg_step s s'" and "closer_inv s" and "wakeup_inv s" shows "wakeup_inv s'"
  using assms
proof (induction rule: wg_step.induct)
  case (add_cas s t swapped v)
  then have "wg_state (grp s) \<in> {0, 1, 2}" by (simp add: closer_inv_def)
  with add_cas show ?case
    by (cases "wg_state (grp s) = 1") (auto simp: wakeup_inv_def)
next
  case (add_close s t r wg)
  have "r = Ret ()" "wg = (grp s)\<lparr>wg_done := True\<rparr>" "wg_state (grp s) = 2"
    using closer_step_result [OF add_close.prems(1) add_close.hyps] by simp_all
  with add_close.prems(2) show ?case by (auto simp: wakeup_inv_def)
next
  case (wait_cas s t)
  then show ?case
    by (cases "wg_state (grp s) = 0") (auto simp: wakeup_inv_def)
next
  case (cancel_close s t r wg)
  then show ?case
    by (cases "wg_cancel (grp s)") (auto simp: wakeup_inv_def WaitGroup_Cancel_def)
qed (auto simp: wakeup_inv_def)

lemma result_inv_init [inv_intros]: "result_inv wg_sys_init"
  by (simp add: result_inv_def wg_sys_init_def)

lemma result_inv_step [inv_intros]:
  assumes "wg_step s s'" and "closer_inv s" and "result_inv s" shows "result_inv s'"
  using assms
proof (induction rule: wg_step.induct)
  case (add_close s t r wg)
  have "r = Ret ()" "wg = (grp s)\<lparr>wg_done := True\<rparr>" "wg_state (grp s) = 2"
    using closer_step_result [OF add_close.prems(1) add_close.hyps] by simp_all
  with add_close.prems(2) show ?case by (auto simp: result_inv_def)
next
  case (wait_select s t r)
  then show ?case
    by (auto simp: result_inv_def WaitGroup_Wait_select_def split: if_splits)
next
  case (cancel_close s t r wg)
  then show ?case
    by (cases "wg_cancel (grp s)") (auto simp: result_inv_def WaitGroup_Cancel_def)
qed (auto simp: result_inv_def)

lemma wg_reachable_inv:
  "wg_reachable s \<Longrightarrow> closer_inv s \<and> wakeup_inv s \<and> result_inv s"
  by (induction rule: wg_reachable.induct) (auto intro: inv_intros)

section \<open>One goroutine's steps are its method\<close>

text \<open>
  A method run without interruption takes the atomic actions of the step relation: the
  methods above and the interleaved ones are the same code.
\<close>

lemma wg_steps_Add:
  assumes "pcs s t = Idle" and "WaitGroup_Add d (grp s) = (r, wg)"
  shows "wg_step\<^sup>*\<^sup>* s (goto t (after Idle r) (s\<lparr>grp := wg\<rparr>))"
proof -
  let ?n = "wg_counter (grp s) + word_of_int d"
  let ?g1 = "(grp s)\<lparr>wg_counter := ?n\<rparr>"
  let ?s1 = "goto t (AddFetch d) s"
  let ?s2 = "goto t (if ?n = 0 then AddCas else Idle) (s\<lparr>grp := ?g1\<rparr>)"
  have absorb: "goto t p (goto t q s) = goto t p s" "(goto t p s)\<lparr>grp := g\<rparr> = goto t p (s\<lparr>grp := g\<rparr>)"
    "s\<lparr>grp := g, grp := h\<rparr> = s\<lparr>grp := h\<rparr>" for p q s g h
    by (simp_all add: goto_def)
  have s1: "wg_step s ?s1" using assms(1) by (rule call_Add)
  have s2: "wg_step ?s1 ?s2"
    using add_fetch [of ?s1 t d, OF _ refl] by (simp add: absorb)
  from s2 have "wg_step\<^sup>*\<^sup>* ?s1 ?s2" by (rule r_into_rtranclp)
  with s1 have steps2: "wg_step\<^sup>*\<^sup>* s ?s2" by (rule converse_rtranclp_into_rtranclp)
  show ?thesis
  proof (cases "?n = 0")
    case False
    with assms(2) have "r = Ret ()" "wg = ?g1" by (auto simp: WaitGroup_Add_def Let_def)
    with steps2 False show ?thesis by simp
  next
    case True
    let ?c = "CompareAndSwapInt32 (wg_state (grp s)) 1 2"
    let ?g2 = "?g1\<lparr>wg_state := snd ?c\<rparr>"
    let ?s3 = "goto t (if fst ?c then AddClose else Idle) (s\<lparr>grp := ?g2\<rparr>)"
    have s3: "wg_step ?s2 ?s3"
      using True add_cas [of ?s2 t "fst ?c" "snd ?c"] by (simp add: absorb)
    from steps2 s3 have steps3: "wg_step\<^sup>*\<^sup>* s ?s3"
      by (rule rtranclp.rtrancl_into_rtrancl)
    show ?thesis
    proof (cases "fst ?c")
      case False
      with True assms(2) have "r = Ret ()" "wg = ?g2"
        by (auto simp: WaitGroup_Add_def Let_def split_def)
      with steps3 False show ?thesis by simp
    next
      case swapped: True
      with True assms(2) have "close_done ?g2 = (r, wg)"
        by (auto simp: WaitGroup_Add_def Let_def split_def)
      then have "wg_step ?s3 (goto t (after Idle r) (s\<lparr>grp := wg\<rparr>))"
        using swapped add_close [of ?s3 t r wg] by (simp add: absorb)
      with steps3 show ?thesis by (rule rtranclp.rtrancl_into_rtrancl)
    qed
  qed
qed

lemma wg_reachable_steps: "wg_step\<^sup>*\<^sup>* s s' \<Longrightarrow> wg_reachable s \<Longrightarrow> wg_reachable s'"
  by (induction rule: rtranclp_induct) (auto intro: reach_step)

section \<open>A run that blocks, completes and wakes up\<close>

text \<open>
  Goroutine 0 adds a frame, goroutine 2 waits and blocks, goroutine 0 reports the frame
  done; later goroutine 3 cancels twice.
\<close>

definition wg_woken :: wg_sys where
  "wg_woken = \<lparr>grp = \<lparr>wg_counter = 0, wg_done = True, wg_cancel = False, wg_state = 2\<rparr>,
     ctx_done = False, pcs = (\<lambda>_. Idle)(2 := WaitSelect)\<rparr>"

definition wg_cancelled :: wg_sys where
  "wg_cancelled = \<lparr>grp = \<lparr>wg_counter = 0, wg_done = True, wg_cancel = True, wg_state = 2\<rparr>,
     ctx_done = False, pcs = (\<lambda>_. Idle)(2 := WaitSelect, 3 := CancelClose)\<rparr>"

lemma wg_woken_reachable: "wg_reachable wg_woken"
proof -
  let ?g = "\<lambda>c d st. \<lparr>wg_counter = c, wg_done = d, wg_cancel = False, wg_state = st\<rparr>"
  let ?s = "\<lambda>g p. \<lparr>grp = g, ctx_done = False, pcs = (\<lambda>_. Idle)(2 := p)\<rparr>"
  have upd: "goto 0 Idle (?s g p) = ?s g p" "goto 2 q (?s g p) = ?s g q" for g p q
    by (auto simp: goto_def fun_eq_iff)
  have "?s (?g 0 False 0) Idle = wg_sys_init"
    by (auto simp: wg_sys_init_def NewWaitGroup_def fun_eq_iff)
  then have "wg_reachable (?s (?g 0 False 0) Idle)" using reach_init by simp
  from wg_reachable_steps [OF wg_steps_Add [of _ 0 1] this]
  have "wg_reachable (?s (?g 1 False 0) Idle)"
    by (simp add: WaitGroup_Add_def Let_def upd)
  from reach_step [OF this call_Wait [of _ 2]]
  have "wg_reachable (?s (?g 1 False 0) WaitCas)" by (simp add: upd)
  from reach_step [OF this wait_cas [of _ 2]]
  have "wg_reachable (?s (?g 1 False 1) WaitLoad)" by (simp add: upd)
  from reach_step [OF this wait_load [of _ 2]]
  have "wg_reachable (?s (?g 1 False 1) WaitSelect)" by (simp add: upd)
  from wg_reachable_steps [OF wg_steps_Add [of _ 0 "- 1"] this]
  have "wg_reachable (?s (?g 0 True 2) WaitSelect)"
    by (simp add: WaitGroup_Add_def Let_def upd close_done_def)
  then show ?thesis by (simp add: wg_woken_def)
qed

lemma wg_cancelled_reachable: "wg_reachable wg_cancelled"
proof -
  let ?s = "\<lambda>c p. \<lparr>grp = \<lparr>wg_counter = 0, wg_done = True, wg_cancel = c, wg_state = 2\<rparr>,
     ctx_done = False, pcs = (\<lambda>_. Idle)(2 := WaitSelect, 3 := p)\<rparr>"
  have upd: "goto 3 q (?s c p) = ?s c q" for c p q by (auto simp: goto_def fun_eq_iff)
  have "?s False Idle = wg_woken" by (auto simp: wg_woken_def fun_eq_iff)
  then have "wg_reachable (?s False Idle)" using wg_woken_reachable by simp
  from reach_step [OF this call_Cancel [of _ 3]]
  have "wg_reachable (?s False CancelClose)" by (simp add: upd)
  from reach_step [OF this cancel_close [of _ 3, OF _ surjective_pairing]]
  have "wg_reachable (?s True Idle)" by (simp add: upd WaitGroup_Cancel_def)
  from reach_step [OF this call_Cancel [of _ 3]]
  have "wg_reachable (?s True CancelClose)" by (simp add: upd)
  then show ?thesis by (simp add: wg_cancelled_def)
qed

section \<open>Properties\<close>

text \<open>
  C35 (safety). In every reachable interleaving of \<open>Add\<close>, \<open>Done\<close>, \<open>Wait\<close> and \<open>Cancel\<close> by any
  number of goroutines, the only action that panics is a \<open>Cancel\<close> of a group that was
  cancelled before: \<open>Add\<close> and \<open>Done\<close> never close the \<open>done\<close> channel a second time.
\<close>

theorem wg_only_second_Cancel_panics:
  assumes "wg_reachable s" and "wg_step s s'" and "pcs s' t = Crashed p"
  shows "pcs s t = Crashed p
    \<or> (pcs s t = CancelClose \<and> wg_cancel (grp s) \<and> p = CloseOfClosedChannel)"
proof -
  have inv: "closer_inv s" using wg_reachable_inv [OF assms(1)] by blast
  from assms(2) show ?thesis
  proof cases
    case (add_close u r wg)
    have "r = Ret ()"
      using closer_step_result [OF inv add_close(2,3)] by simp
    with add_close assms(3) show ?thesis by (auto split: if_splits)
  next
    case (cancel_close u r wg)
    with assms(3) show ?thesis
      by (cases "wg_cancel (grp s)") (auto simp: WaitGroup_Cancel_def split: if_splits)
  qed (use assms(3) in \<open>auto split: if_splits\<close>)
qed

theorem wg_only_second_Cancel_panics_witness:
  "pcs wg_cancelled 3 = CancelClose \<and> wg_cancel (grp wg_cancelled)"
proof -
  have step: "wg_step wg_cancelled (goto 3 (Crashed CloseOfClosedChannel) wg_cancelled)"
    using cancel_close [of wg_cancelled 3 "Panic CloseOfClosedChannel" "grp wg_cancelled"]
    by (simp add: wg_cancelled_def WaitGroup_Cancel_def)
  show ?thesis
    using wg_only_second_Cancel_panics [OF wg_cancelled_reachable step, of 3]
    by (simp add: wg_cancelled_def)
qed

text \<open>
  C7 (liveness). No wake-up is lost: when a goroutine blocks in the select of \<open>Wait\<close>, the
  counter is zero and no \<open>Add\<close> is half way through, the select has nil among its ready
  cases, whatever interleaving led there.
\<close>

theorem wg_no_lost_wakeup:
  assumes "wg_reachable s" and "pcs s t = WaitSelect" and "wg_counter (grp s) = 0"
    and "\<And>u. pcs s u \<noteq> AddCas \<and> pcs s u \<noteq> AddClose"
  shows "None \<in> set (WaitGroup_Wait_select (ctx_done s) (grp s))"
proof -
  have "closers s = {}" "casers s = {}"
    using assms(4) by (auto simp: closers_def casers_def)
  then have "wg_done (grp s)"
    using wg_reachable_inv [OF assms(1)] assms(2,3)
    by (auto simp: closer_inv_def wakeup_inv_def split: if_splits)
  then show ?thesis by (simp add: WaitGroup_Wait_select_def)
qed

theorem wg_no_lost_wakeup_witness:
  "None \<in> set (WaitGroup_Wait_select (ctx_done wg_woken) (grp wg_woken))"
  by (rule wg_no_lost_wakeup [OF wg_woken_reachable, of 2]) (simp_all add: wg_woken_def)

text \<open>
  A result of \<open>Wait\<close> is justified: \<open>ExceededMaxTime\<close> only when the context
  is done, \<open>Cancelled\<close> only when \<open>Cancel\<close> has closed the channel, and never \<open>IdleTimeout\<close>.
\<close>

lemma wg_Wait_result:
  assumes "wg_reachable s" and "pcs s t = WaitDone r"
  shows "case r of None \<Rightarrow> True | Some ExceededMaxTime \<Rightarrow> ctx_done s
    | Some Cancelled \<Rightarrow> wg_cancel (grp s) | Some IdleTimeout \<Rightarrow> False"
  using wg_reachable_inv [OF assms(1)] assms(2)
  by (auto simp: result_inv_def split: option.splits syncx_error.splits)

lemma wg_Wait_result_instance:
  "wg_cancel (grp wg_cancelled)"
proof -
  have "wg_step wg_cancelled (goto 2 (WaitDone (Some Cancelled)) wg_cancelled)"
    by (rule wait_select) (simp_all add: wg_cancelled_def WaitGroup_Wait_select_def)
  from wg_Wait_result [OF reach_step [OF wg_cancelled_reachable this], of 2] show ?thesis
    by simp
qed

text \<open>
  A call of \<open>Add\<close> that runs without interruption is a run of the step
  relation: the atomic actions of the goroutine lead from the idle goroutine to the state
  and the outcome (return or panic) that the method as a whole computes.
\<close>

lemma wg_Add_refines:
  assumes "pcs s t = Idle"
  shows "wg_step\<^sup>*\<^sup>* s (goto t (after Idle (fst (WaitGroup_Add d (grp s))))
           (s\<lparr>grp := snd (WaitGroup_Add d (grp s))\<rparr>))"
  by (rule wg_steps_Add [OF assms surjective_pairing])

lemma wg_Add_refines_instance:
  "wg_step\<^sup>*\<^sup>* wg_sys_init (goto 0 Idle
     (wg_sys_init\<lparr>grp := NewWaitGroup\<lparr>wg_counter := 1\<rparr>\<rparr>))"
  using wg_Add_refines [of wg_sys_init 0 1]
  by (simp add: wg_sys_init_def WaitGroup_Add_def Let_def NewWaitGroup_def)

end
