(* ===== verification/CompletionTimer.thy ===== *)
theory CompletionTimer
  imports WaitGroup
begin

text \<open>
  \<^verbatim>\<open>syncx/completiontimer.go\<close>: a wait that ends when a check succeeds, when nothing has
  been notified for \<open>maxIdleTime\<close>, or after \<open>maxTotalTime\<close>. The methods take the time of
  their calls of \<open>time.Now\<close> and the answer of their call of \<open>check\<close> as arguments; a step
  relation with a clock runs them against each other.
\<close>

section \<open>State and methods\<close>

text \<open>
  Times and durations are in nanoseconds. A \<open>time.Timer\<close> is the time at which its channel
  receives a value, \<open>None\<close> before it is created and after that value was received. The
  field \<open>ct_closed\<close> is whether \<open>doneChan\<close> is closed.
\<close>

record completion_timer =
  maxIdleTime :: int
  maxTotalTime :: int
  lastCheckResult :: bool
  waitTimer :: "int option"
  idleTimer :: "int option"
  idleTimeout :: int
  ct_closed :: bool
  started :: bool
  ct_done :: int32
  notifyCount :: int32

definition NewCompletionTimer :: "int \<Rightarrow> int \<Rightarrow> completion_timer" where
  "NewCompletionTimer maxIdle maxTotal =
     \<lparr>maxIdleTime = maxIdle, maxTotalTime = maxTotal, lastCheckResult = False,
      waitTimer = None, idleTimer = None, idleTimeout = 0, ct_closed = False,
      started = False, ct_done = 0, notifyCount = 0\<rparr>"

text \<open>\<open>time.NewTimer(d)\<close> at time \<open>now\<close>: a duration that is not positive fires at once.\<close>

definition NewTimer :: "int \<Rightarrow> int \<Rightarrow> int option" where
  "NewTimer now d = Some (now + max 0 d)"

definition close_doneChan :: "completion_timer \<Rightarrow> unit go \<times> completion_timer" where
  "close_doneChan t = (case close_chan (ct_closed t) of
       Ret b \<Rightarrow> (Ret (), t\<lparr>ct_closed := b\<rparr>) | Panic p \<Rightarrow> (Panic p, t))"

definition CompletionTimer_Notify ::
  "int \<Rightarrow> bool \<Rightarrow> completion_timer \<Rightarrow> unit go \<times> completion_timer" where
  "CompletionTimer_Notify now check t =
     (let t1 = t\<lparr>notifyCount := notifyCount t + 1, idleTimeout := now + maxIdleTime t\<rparr>
      in if \<not> started t1 then (Ret (), t1)
         else (let t2 = t1\<lparr>lastCheckResult := check\<rparr>
               in if check
                  then (let (swapped, d) = CompareAndSwapInt32 (ct_done t2) 0 1;
                            t3 = t2\<lparr>ct_done := d\<rparr>
                        in if swapped then close_doneChan t3 else (Ret (), t3))
                  else (Ret (), t2)))"

text \<open>
  \<open>WaitForCompletion\<close> up to its loop, and one round of the loop for each case of the
  \<open>select\<close>. \<open>Inl\<close> goes on with the loop, \<open>Inr\<close> returns the error or nil.
\<close>

definition WaitForCompletion_enter ::
  "int \<Rightarrow> bool \<Rightarrow> completion_timer \<Rightarrow> (unit + syncx_error option) \<times> completion_timer" where
  "WaitForCompletion_enter now check t =
     (let t1 = t\<lparr>lastCheckResult := check\<rparr>
      in if check then (Inr None, t1)
         else (Inl (), t1\<lparr>waitTimer := NewTimer now (maxTotalTime t1),
                 idleTimeout := now + maxIdleTime t1,
                 idleTimer := NewTimer now (maxIdleTime t1),
                 started := True\<rparr>))"

datatype select_case = WaitTimerC | IdleTimerC | DoneChan

fun select_ready :: "int \<Rightarrow> completion_timer \<Rightarrow> select_case \<Rightarrow> bool" where
  "select_ready now t WaitTimerC = (case waitTimer t of None \<Rightarrow> False | Some d \<Rightarrow> d \<le> now)"
| "select_ready now t IdleTimerC = (case idleTimer t of None \<Rightarrow> False | Some d \<Rightarrow> d \<le> now)"
| "select_ready now t DoneChan = ct_closed t"

fun WaitForCompletion_round ::
  "int \<Rightarrow> bool \<Rightarrow> select_case \<Rightarrow> completion_timer \<Rightarrow>
     (unit + syncx_error option) \<times> completion_timer" where
  "WaitForCompletion_round now check WaitTimerC t =
     (let t1 = t\<lparr>waitTimer := None, lastCheckResult := check\<rparr>
      in if check then (Inr None, t1) else (Inr (Some ExceededMaxTime), t1))"
| "WaitForCompletion_round now check IdleTimerC t =
     (let t1 = t\<lparr>idleTimer := None, lastCheckResult := check\<rparr>
      in if check then (Inr None, t1)
         else if idleTimeout t1 < now then (Inr (Some IdleTimeout), t1)
         else (Inl (), t1\<lparr>idleTimer := NewTimer now (idleTimeout t1 - now)\<rparr>))"
| "WaitForCompletion_round now check DoneChan t =
     (if ct_done t = 1 then (Inr None, t) else (Inr (Some Cancelled), t))"

definition CompletionTimer_Cancel :: "completion_timer \<Rightarrow> unit go \<times> completion_timer" where
  "CompletionTimer_Cancel t =
     (let (swapped, d) = CompareAndSwapInt32 (ct_done t) 0 2; t1 = t\<lparr>ct_done := d\<rparr>
      in if swapped then close_doneChan t1 else (Ret (), t1))"

definition CompletionTimer_Reset :: "completion_timer \<Rightarrow> int32 \<times> completion_timer" where
  "CompletionTimer_Reset t =
     (notifyCount t,
      t\<lparr>ct_done := snd (CompareAndSwapInt32 (ct_done t) 1 0), started := False,
        notifyCount := 0\<rparr>)"

lemmas completion_timer_defs [step_defs] =
  close_doneChan_def CompletionTimer_Notify_def WaitForCompletion_enter_def
  CompletionTimer_Cancel_def CompletionTimer_Reset_def NewTimer_def

section \<open>One wait against notifications and the clock\<close>

text \<open>
  A waiting goroutine and any number of notifying ones. \<open>since\<close> and \<open>heard\<close> record, for
  the statements only, when the wait began and the last moment something was heard of
  (the beginning of the wait or a notification).
\<close>

datatype phase = Waiting | Finished "syncx_error option"

record ct_sys =
  timer :: completion_timer
  clock :: int
  phase :: phase
  since :: int
  heard :: int

definition ct_begin :: "int \<Rightarrow> completion_timer \<Rightarrow> ct_sys" where
  "ct_begin now t =
     \<lparr>timer = snd (WaitForCompletion_enter now False t), clock = now, phase = Waiting,
      since = now, heard = now\<rparr>"

fun phase_of :: "unit + syncx_error option \<Rightarrow> phase" where
  "phase_of (Inl u) = Waiting"
| "phase_of (Inr r) = Finished r"

inductive ct_step :: "ct_sys \<Rightarrow> ct_sys \<Rightarrow> bool" where
  ct_tick: "clock s \<le> now \<Longrightarrow> ct_step s (s\<lparr>clock := now\<rparr>)"
| ct_notify: "CompletionTimer_Notify (clock s) check (timer s) = (Ret (), t) \<Longrightarrow>
    ct_step s (s\<lparr>timer := t, heard := clock s\<rparr>)"
| ct_cancel: "CompletionTimer_Cancel (timer s) = (Ret (), t) \<Longrightarrow>
    ct_step s (s\<lparr>timer := t\<rparr>)"
| ct_round: "phase s = Waiting \<Longrightarrow> select_ready (clock s) (timer s) c \<Longrightarrow>
    WaitForCompletion_round (clock s) check c (timer s) = (r, t) \<Longrightarrow>
    ct_step s (s\<lparr>timer := t, phase := phase_of r\<rparr>)"

text \<open>
  What a wait that began on a fresh timer keeps: while it waits both timers are set, the
  total one to the end of the total time and the idle one never later than
  \<open>idleTimeout\<close>, which is \<open>maxIdleTime\<close> after the last sign of life; \<open>doneChan\<close> is closed
  exactly when \<open>done\<close> is not 0.
\<close>

definition ct_inv :: "ct_sys \<Rightarrow> bool" where
  "ct_inv s \<longleftrightarrow>
     started (timer s)
     \<and> since s \<le> heard s \<and> heard s \<le> clock s
     \<and> 0 \<le> maxIdleTime (timer s)
     \<and> idleTimeout (timer s) = heard s + maxIdleTime (timer s)
     \<and> ct_done (timer s) \<in> {0, 1, 2}
     \<and> (ct_closed (timer s) \<longleftrightarrow> ct_done (timer s) \<noteq> 0)
     \<and> (phase s = Waiting \<longrightarrow>
          waitTimer (timer s) = Some (since s + max 0 (maxTotalTime (timer s)))
          \<and> (\<exists>d. idleTimer (timer s) = Some d \<and> d \<le> idleTimeout (timer s)))"

text \<open>A timer on which a wait may begin: nobody has completed or cancelled it.\<close>

definition ct_ready :: "completion_timer \<Rightarrow> bool" where
  "ct_ready t \<longleftrightarrow> ct_done t = 0 \<and> \<not> ct_closed t \<and> 0 \<le> maxIdleTime t"

inductive ct_reachable :: "ct_sys \<Rightarrow> bool" where
  ct_reach_begin: "ct_ready t \<Longrightarrow> ct_reachable (ct_begin now t)"
| ct_reach_step: "ct_reachable s \<Longrightarrow> ct_step s s' \<Longrightarrow> ct_reachable s'"

lemma ct_ready_New [inv_intros]: "0 \<le> maxIdle \<Longrightarrow> ct_ready (NewCompletionTimer maxIdle maxTotal)"
  by (simp add: ct_ready_def NewCompletionTimer_def)

lemma ct_inv_begin [inv_intros]: "ct_ready t \<Longrightarrow> ct_inv (ct_begin now t)"
  by (simp add: ct_inv_def ct_begin_def WaitForCompletion_enter_def ct_ready_def Let_def
      NewTimer_def)

lemma Notify_frame:
  "CompletionTimer_Notify now check t = (r, t') \<Longrightarrow>
     maxIdleTime t' = maxIdleTime t \<and> maxTotalTime t' = maxTotalTime t
     \<and> waitTimer t' = waitTimer t \<and> idleTimer t' = idleTimer t \<and> started t' = started t
     \<and> idleTimeout t' = now + maxIdleTime t \<and> notifyCount t' = notifyCount t + 1"
  by (auto simp: CompletionTimer_Notify_def close_doneChan_def close_chan_def
      CompareAndSwapInt32_def Let_def split: if_splits)

lemma Notify_done:
  "CompletionTimer_Notify now check t = (Ret u, t') \<Longrightarrow>
     (ct_closed t \<longleftrightarrow> ct_done t \<noteq> 0) \<Longrightarrow> ct_done t \<in> {0, 1, 2} \<Longrightarrow>
     (ct_closed t' \<longleftrightarrow> ct_done t' \<noteq> 0) \<and> ct_done t' \<in> {0, 1, 2}"
  by (auto simp: CompletionTimer_Notify_def close_doneChan_def close_chan_def
      CompareAndSwapInt32_def Let_def split: if_splits)

lemma Cancel_frame:
  "CompletionTimer_Cancel t = (r, t') \<Longrightarrow>
     maxIdleTime t' = maxIdleTime t \<and> maxTotalTime t' = maxTotalTime t
     \<and> waitTimer t' = waitTimer t \<and> idleTimer t' = idleTimer t \<and> started t' = started t
     \<and> idleTimeout t' = idleTimeout t"
  by (auto simp: CompletionTimer_Cancel_def close_doneChan_def close_chan_def
      CompareAndSwapInt32_def Let_def split: if_splits)

lemma Cancel_done:
  "CompletionTimer_Cancel t = (Ret u, t') \<Longrightarrow>
     (ct_closed t \<longleftrightarrow> ct_done t \<noteq> 0) \<Longrightarrow> ct_done t \<in> {0, 1, 2} \<Longrightarrow>
     (ct_closed t' \<longleftrightarrow> ct_done t' \<noteq> 0) \<and> ct_done t' \<in> {0, 1, 2}"
  by (auto simp: CompletionTimer_Cancel_def close_doneChan_def close_chan_def
      CompareAndSwapInt32_def Let_def split: if_splits)

lemma round_effect:
  assumes "WaitForCompletion_round now check c t = (r, t')"
  shows "maxIdleTime t' = maxIdleTime t \<and> maxTotalTime t' = maxTotalTime t
     \<and> idleTimeout t' = idleTimeout t \<and> started t' = started t
     \<and> ct_done t' = ct_done t \<and> ct_closed t' = ct_closed t
     \<and> (r = Inl () \<longrightarrow> waitTimer t' = waitTimer t \<and> idleTimer t' = Some (idleTimeout t))"
  using assms by (cases c) (auto simp: Let_def NewTimer_def split: if_splits)

lemma phase_of_Waiting [simp]: "phase_of r = Waiting \<longleftrightarrow> r = Inl ()"
  by (cases r) auto

lemma ct_inv_step [inv_intros]:
  assumes "ct_step s s'" and "ct_inv s" shows "ct_inv s'"
  using assms
proof (induction rule: ct_step.induct)
  case (ct_tick s now)
  then show ?case by (auto simp: ct_inv_def)
next
  case (ct_notify s check t)
  note frame = Notify_frame [OF ct_notify.hyps]
  have "(ct_closed t \<longleftrightarrow> ct_done t \<noteq> 0) \<and> ct_done t \<in> {0, 1, 2}"
    using ct_notify.prems by (intro Notify_done [OF ct_notify.hyps]) (auto simp: ct_inv_def)
  with frame ct_notify.prems show ?case by (fastforce simp: ct_inv_def)
next
  case (ct_cancel s t)
  note frame = Cancel_frame [OF ct_cancel.hyps]
  have "(ct_closed t \<longleftrightarrow> ct_done t \<noteq> 0) \<and> ct_done t \<in> {0, 1, 2}"
    using ct_cancel.prems by (intro Cancel_done [OF ct_cancel.hyps]) (auto simp: ct_inv_def)
  with frame ct_cancel.prems show ?case by (fastforce simp: ct_inv_def)
next
  case (ct_round s c check r t)
  with round_effect [OF ct_round.hyps(3)] show ?case by (auto simp: ct_inv_def)
qed

lemma ct_reachable_inv: "ct_reachable s \<Longrightarrow> ct_inv s"
  by (induction rule: ct_reachable.induct) (auto intro: inv_intros)

text \<open>
  A round that goes on leaves the idle timer at \<open>idleTimeout\<close>, not before the current
  time: the loop does not run ahead of the clock.
\<close>

lemma ct_idle_round_continues:
  assumes "WaitForCompletion_round now check c t = (Inl u, t')"
  shows "c = IdleTimerC \<and> now \<le> idleTimeout t \<and> idleTimer t' = Some (idleTimeout t)"
  using assms by (cases c) (auto simp: Let_def NewTimer_def split: if_splits)

section \<open>Examples for the witnesses\<close>

text \<open>
  The timer of the case "Idle timeout 2" of \<^verbatim>\<open>syncx/completiontimer_test.go\<close>, in
  milliseconds: idle for 100, at most 500 in all.
\<close>

definition ct_example :: ct_sys where
  "ct_example = ct_begin 0 (NewCompletionTimer 100 500)"

definition ct_idle_example :: ct_sys where
  "ct_idle_example = ct_example\<lparr>clock := 101\<rparr>"

definition ct_success_example :: ct_sys where
  "ct_success_example =
     ct_example\<lparr>timer := snd (CompletionTimer_Notify 0 True (timer ct_example)), heard := 0\<rparr>"

lemmas ct_example_defs =
  ct_example_def ct_begin_def NewCompletionTimer_def WaitForCompletion_enter_def NewTimer_def
  ct_idle_example_def ct_success_example_def CompletionTimer_Notify_def close_doneChan_def
  Let_def

lemma ct_example_reachable: "ct_reachable ct_example"
  unfolding ct_example_def by (intro ct_reach_begin ct_ready_New) simp

lemma ct_idle_example_reachable: "ct_reachable ct_idle_example"
  unfolding ct_idle_example_def
  by (rule ct_reach_step [OF ct_example_reachable ct_tick])
    (simp add: ct_example_def ct_begin_def)

lemma ct_success_example_reachable: "ct_reachable ct_success_example"
proof -
  have "clock ct_example = 0" by (simp add: ct_example_def ct_begin_def)
  moreover have "fst (CompletionTimer_Notify 0 True (timer ct_example)) = Ret ()"
    by (simp add: ct_example_defs)
  ultimately have "ct_step ct_example ct_success_example"
    using ct_notify [of ct_example True "snd (CompletionTimer_Notify 0 True (timer ct_example))"]
    by (simp add: ct_success_example_def prod_eq_iff)
  with ct_example_reachable show ?thesis by (rule ct_reach_step)
qed

section \<open>Properties\<close>

text \<open>What a round that ends the wait says, from the invariant alone.\<close>

lemma round_justified:
  assumes "ct_inv s" and "phase s = Waiting" and "select_ready (clock s) (timer s) c"
    and "WaitForCompletion_round (clock s) check c (timer s) = (Inr r, t)"
  shows "case r of
      None \<Rightarrow> check \<or> ct_done (timer s) = 1
    | Some IdleTimeout \<Rightarrow> heard s + maxIdleTime (timer s) < clock s \<and> \<not> check
    | Some ExceededMaxTime \<Rightarrow> since s + maxTotalTime (timer s) \<le> clock s \<and> \<not> check
    | Some Cancelled \<Rightarrow> ct_done (timer s) \<notin> {0, 1}"
  using assms by (cases c) (auto simp: ct_inv_def Let_def split: if_splits)

text \<open>
  Every result of \<open>WaitForCompletion\<close> is justified: nil only when the
  check succeeded in this round or \<open>done\<close> is 1, \<open>IdleTimeout\<close> only when more than
  \<open>maxIdleTime\<close> has passed since the wait began and since every notification,
  \<open>ExceededMaxTime\<close> only when the total time is over and the check failed, and \<open>Cancelled\<close>
  only when \<open>done\<close> is 2, that is, after a \<open>Cancel\<close>.
\<close>

lemma ct_result_justified:
  assumes "ct_reachable s" and "phase s = Waiting" and "select_ready (clock s) (timer s) c"
    and "WaitForCompletion_round (clock s) check c (timer s) = (Inr r, t)"
  shows "case r of
      None \<Rightarrow> check \<or> ct_done (timer s) = 1
    | Some IdleTimeout \<Rightarrow> heard s + maxIdleTime (timer s) < clock s \<and> \<not> check
    | Some ExceededMaxTime \<Rightarrow> since s + maxTotalTime (timer s) \<le> clock s \<and> \<not> check
    | Some Cancelled \<Rightarrow> ct_done (timer s) = 2"
  using round_justified [OF ct_reachable_inv [OF assms(1)] assms(2-4)] ct_reachable_inv [OF assms(1)]
  by (auto simp: ct_inv_def split: option.splits syncx_error.splits)

lemma ct_result_justified_instance:
  "heard ct_idle_example + maxIdleTime (timer ct_idle_example) < clock ct_idle_example"
  using ct_result_justified [OF ct_idle_example_reachable, of IdleTimerC False "Some IdleTimeout"]
  by (simp add: ct_example_defs)

text \<open>
  The wait is bounded: once the total time is over, or once nothing has
  been heard for more than \<open>maxIdleTime\<close>, a case of the select is ready whose round returns
  whatever the check answers.
\<close>

lemma ct_wait_bounded:
  assumes "ct_inv s" and "phase s = Waiting"
    and "since s + max 0 (maxTotalTime (timer s)) \<le> clock s
         \<or> heard s + maxIdleTime (timer s) < clock s"
  shows "\<exists>c. select_ready (clock s) (timer s) c \<and>
           (\<forall>check. \<exists>r t. WaitForCompletion_round (clock s) check c (timer s) = (Inr r, t))"
  using assms(3)
proof
  assume "since s + max 0 (maxTotalTime (timer s)) \<le> clock s"
  then have "select_ready (clock s) (timer s) WaitTimerC"
    using assms(1,2) by (auto simp: ct_inv_def)
  then show ?thesis by (intro exI [of _ WaitTimerC]) (auto simp: Let_def)
next
  assume "heard s + maxIdleTime (timer s) < clock s"
  then have "select_ready (clock s) (timer s) IdleTimerC" "idleTimeout (timer s) < clock s"
    using assms(1,2) by (auto simp: ct_inv_def)
  then show ?thesis by (intro exI [of _ IdleTimerC]) (auto simp: Let_def)
qed

lemma ct_wait_bounded_instance:
  "\<exists>c. select_ready (clock ct_idle_example) (timer ct_idle_example) c"
  using ct_wait_bounded [OF ct_reachable_inv [OF ct_idle_example_reachable]] by (simp add: ct_example_defs) blast

text \<open>
  As long as the timer is not reset, no notification and no cancellation of a
  wait panics, whatever came before: \<open>doneChan\<close> is closed at most once.
\<close>

lemma ct_no_panic_before_Reset:
  assumes "ct_reachable s"
  shows "fst (CompletionTimer_Notify (clock s) check (timer s)) = Ret ()
    \<and> fst (CompletionTimer_Cancel (timer s)) = Ret ()"
  using ct_reachable_inv [OF assms]
  by (auto simp: ct_inv_def CompletionTimer_Notify_def CompletionTimer_Cancel_def Let_def
      close_doneChan_def close_chan_def CompareAndSwapInt32_def)

lemma ct_no_panic_before_Reset_instance:
  "fst (CompletionTimer_Notify 0 True (timer ct_success_example)) = Ret ()"
  using ct_no_panic_before_Reset [OF ct_success_example_reachable, of True]
  by (simp add: ct_success_example_def ct_example_def ct_begin_def)

text \<open>
  A timer that completed successfully cannot be used again after \<open>Reset\<close>:
  \<open>Reset\<close> sets \<open>done\<close> back to 0 and leaves \<open>doneChan\<close> closed, so the next wait whose check
  fails at once finds the channel ready and returns \<open>Cancelled\<close> although nobody cancelled,
  and a notification whose check succeeds closes the channel again and panics.
\<close>

lemma ct_Reset_after_success:
  assumes "ct_reachable s" and "ct_done (timer s) = 1"
    and "snd (WaitForCompletion_enter now False (snd (CompletionTimer_Reset (timer s)))) = t'"
  shows "select_ready later t' DoneChan
    \<and> fst (WaitForCompletion_round later check DoneChan t') = Inr (Some Cancelled)
    \<and> fst (CompletionTimer_Notify later True t') = Panic CloseOfClosedChannel"
  using ct_reachable_inv [OF assms(1)] assms(2,3)
  by (auto simp: ct_inv_def CompletionTimer_Reset_def WaitForCompletion_enter_def
      CompletionTimer_Notify_def Let_def close_doneChan_def)

lemma ct_Reset_after_success_instance:
  "fst (CompletionTimer_Notify 7 True (snd (WaitForCompletion_enter 5 False
     (snd (CompletionTimer_Reset (timer ct_success_example)))))) = Panic CloseOfClosedChannel"
proof -
  have "ct_done (timer ct_success_example) = 1" by (simp add: ct_example_defs)
  from ct_Reset_after_success [OF ct_success_example_reachable this refl, of 7 5] show ?thesis
    by blast
qed

text \<open>
  A timer whose wait ended with a time-out can be reset and used again: it
  is as ready as a new one, and \<open>Reset\<close> returns how many notifications came since the
  last reset, modulo the width of the counter.
\<close>

fun notify_times :: "(int \<times> bool) list \<Rightarrow> completion_timer \<Rightarrow> completion_timer" where
  "notify_times [] t = t"
| "notify_times ((now, check) # ns) t =
     notify_times ns (snd (CompletionTimer_Notify now check t))"

lemma notify_times_count:
  "notifyCount (notify_times ns t) = notifyCount t + word_of_nat (length ns)"
proof (induction ns t rule: notify_times.induct)
  case (2 now check ns t)
  have "notifyCount (snd (CompletionTimer_Notify now check t)) = notifyCount t + 1"
    by (cases "CompletionTimer_Notify now check t") (use Notify_frame in auto)
  with 2 show ?case by simp
qed simp

lemma ct_Reset_counts:
  assumes "ct_ready t"
  shows "fst (CompletionTimer_Reset (notify_times ns (snd (CompletionTimer_Reset t))))
      = word_of_nat (length ns)
    \<and> ct_ready (snd (CompletionTimer_Reset t))"
  using assms
  by (simp add: CompletionTimer_Reset_def notify_times_count ct_ready_def
      CompareAndSwapInt32_def)

lemma ct_Reset_counts_instance:
  "fst (CompletionTimer_Reset (notify_times [(1, False), (2, False)]
     (snd (CompletionTimer_Reset (NewCompletionTimer 100 500))))) = 2"
  using ct_Reset_counts [OF ct_ready_New, of 100 "[(1, False), (2, False)]" 500] by simp

end
