(* ===== verification/Messages.thy ===== *)
theory Messages
  imports Prelude
begin

text \<open>
  The protocol messages of the veidemann API (a dependency of the program), each with the
  fields the sources read or write, under the names the generated Go structs give them,
  and the errors of \<^verbatim>\<open>errors/error.go\<close>. A pointer field that may be nil is an option.
\<close>

section \<open>Errors\<close>

record commons_error =
  err_Code :: int32
  err_Msg :: string
  err_Detail :: string

text \<open>
  A Go \<open>error\<close>: a \<open>FetchError\<close> of \<^verbatim>\<open>errors/error.go\<close>, one of the sentinel values the code
  compares with, a gRPC status, an error wrapped by \<open>fmt.Errorf("prefix: %w", err)\<close> (the
  wrapped value may be nil), or one that is only its text.
\<close>

datatype grpc_code = OK | Canceled | Unknown | DeadlineExceeded | NotFound | OtherCode nat

datatype error =
    FetchErr commons_error
  | ContextCanceled
  | ContextDeadlineExceeded
  | EOF
  | DbQueryTimeout
  | DbConnectionClosed
  | GrpcStatus grpc_code string
  | Wrapped string "error option"
  | PlainError string

definition FetchError_New :: "int32 \<Rightarrow> string \<Rightarrow> string \<Rightarrow> error" where
  "FetchError_New code msg detail =
     FetchErr \<lparr>err_Code = code, err_Msg = msg, err_Detail = detail\<rparr>"

text \<open>
  \<open>errors.CommonsError(err)\<close>. The text \<open>err.Error()\<close> of an error that is no \<open>FetchError\<close> is
  the argument \<open>text\<close>, for the formatting of the other error types is not in the sources.
\<close>

definition CommonsError :: "(error \<Rightarrow> string) \<Rightarrow> error \<Rightarrow> commons_error" where
  "CommonsError text e =
     (case e of FetchErr ce \<Rightarrow> ce
      | _ \<Rightarrow> \<lparr>err_Code = - 5, err_Msg = ''Runtime exception'', err_Detail = text e\<rparr>)"

text \<open>\<open>errors.Is(err, target)\<close>: the target itself, or an error that wraps it.\<close>

fun errors_Is :: "error option \<Rightarrow> error \<Rightarrow> bool" where
  "errors_Is None target = False"
| "errors_Is (Some (Wrapped prefix e)) target = (Wrapped prefix e = target \<or> errors_Is e target)"
| "errors_Is (Some e) target = (e = target)"

section \<open>Messages\<close>

record crawl_log =
  cl_WarcId :: string
  cl_StatusCode :: int32
  cl_Size :: int64
  cl_RequestedUri :: string
  cl_Method :: string
  cl_DiscoveryPath :: string
  cl_Referrer :: string
  cl_ContentType :: string
  cl_ExecutionId :: string
  cl_IpAddress :: string
  cl_CollectionFinalName :: string
  cl_FetchTimeStamp :: int
  cl_Error :: "commons_error option"

record cookie =
  ck_Name :: string
  ck_Value :: string
  ck_Domain :: string
  ck_Path :: string
  ck_HttpOnly :: bool
  ck_Secure :: bool
  ck_Session :: bool
  ck_Size :: int32
  ck_SameSite :: string

record annotation =
  an_Key :: string
  an_Value :: string

record queued_uri =
  qu_Uri :: string
  qu_ExecutionId :: string
  qu_JobExecutionId :: string
  qu_DiscoveryPath :: string
  qu_Referrer :: string
  qu_SeedUri :: string
  qu_Cookies :: "cookie list"
  qu_Annotation :: "annotation list"

text \<open>Configuration objects. The specification is a oneof, so at most one of its kinds is set.\<close>

datatype script_type =
    UNDEFINED | EXTRACT_OUTLINKS | REPLACEMENT | ON_LOAD | ON_NEW_DOCUMENT | SCOPE_CHECK

datatype robots_policy =
    OBEY_ROBOTS | IGNORE_ROBOTS | CUSTOM_ROBOTS | CUSTOM_IF_MISSING
  | OBEY_ROBOTS_CLASSIC | CUSTOM_ROBOTS_CLASSIC | CUSTOM_IF_MISSING_CLASSIC

record config_ref =
  ref_Id :: string

record browser_script =
  bs_Type :: script_type
  bs_Script :: string
  bs_UrlRegexp :: "string list"

record browser_config =
  bc_UserAgent :: string
  bc_WindowWidth :: int32
  bc_WindowHeight :: int32
  bc_PageLoadTimeoutMs :: int64
  bc_MaxInactivityTimeMs :: int64
  bc_ScriptRef :: "config_ref list"
  bc_ScriptSelector :: "string list"

record politeness_config =
  pc_RobotsPolicy :: robots_policy

record extra_config =
  ex_CreateScreenshot :: bool

record crawl_config =
  cc_CollectionRef :: "config_ref option"
  cc_BrowserConfigRef :: "config_ref option"
  cc_PolitenessRef :: "config_ref option"
  cc_Extra :: "extra_config option"

datatype config_spec =
    NoSpec
  | BrowserScriptSpec browser_script
  | BrowserConfigSpec browser_config
  | PolitenessSpec politeness_config
  | CrawlConfigSpec crawl_config

record meta =
  meta_Name :: string
  meta_Annotation :: "annotation list"

record config_object =
  co_Id :: string
  co_Meta :: "meta option"
  co_Spec :: config_spec

text \<open>The generated getters: nil-safe, the zero value where the field is not set.\<close>

definition GetName :: "config_object \<Rightarrow> string" where
  "GetName c = (case co_Meta c of None \<Rightarrow> [] | Some m \<Rightarrow> meta_Name m)"

definition GetAnnotation :: "config_object \<Rightarrow> annotation list" where
  "GetAnnotation c = (case co_Meta c of None \<Rightarrow> [] | Some m \<Rightarrow> meta_Annotation m)"

definition GetBrowserScript :: "config_object \<Rightarrow> browser_script option" where
  "GetBrowserScript c = (case co_Spec c of BrowserScriptSpec b \<Rightarrow> Some b | _ \<Rightarrow> None)"

definition GetScript :: "browser_script option \<Rightarrow> string" where
  "GetScript b = (case b of None \<Rightarrow> [] | Some s \<Rightarrow> bs_Script s)"

definition GetBrowserScriptType :: "browser_script option \<Rightarrow> script_type" where
  "GetBrowserScriptType b = (case b of None \<Rightarrow> UNDEFINED | Some s \<Rightarrow> bs_Type s)"

definition GetUrlRegexp :: "browser_script option \<Rightarrow> string list" where
  "GetUrlRegexp b = (case b of None \<Rightarrow> [] | Some s \<Rightarrow> bs_UrlRegexp s)"

end
