(* ===== verification/Requests.thy ===== *)
theory Requests
  imports WaitGroup Messages
begin

text \<open>
  \<^verbatim>\<open>requests/\<close>: the registry of the requests a page has made. A \<open>*Request\<close> is the index of
  the request in the registry: every request is allocated by the caller of \<open>AddRequest\<close>
  and stays at its index for the life of the registry, so pointer equality is equality of
  indices, and a write through the pointer is an update of the list.
\<close>

section \<open>Requests and the registry\<close>

record request =
  rq_Method :: string
  rq_Url :: string
  rq_RequestId :: string
  rq_NetworkId :: string
  rq_CrawlLog :: "crawl_log option"
  rq_GotNew :: bool
  rq_GotComplete :: bool
  rq_Initiator :: string
  rq_ResourceType :: string
  rq_Referrer :: string
  rq_RedirectParent :: "nat option"
  rq_FromCache :: bool
  rq_rootResource :: bool

record request_registry =
  rr_done :: wait_group
  rr_requests :: "request list"
  rr_rootRequest :: "nat option"

definition NewRequestRegistry :: "wait_group \<Rightarrow> request_registry" where
  "NewRequestRegistry wg = \<lparr>rr_done = wg, rr_requests = [], rr_rootRequest = None\<rparr>"

definition InitialRequest :: "request_registry \<Rightarrow> nat go" where
  "InitialRequest r = (if rr_requests r = [] then Panic IndexOutOfRange else Ret 0)"

definition RootRequest :: "request_registry \<Rightarrow> nat option" where
  "RootRequest r = rr_rootRequest r"

definition NotifyLoadStart :: "request_registry \<Rightarrow> unit go \<times> request_registry" where
  "NotifyLoadStart r =
     (let (res, wg) = WaitGroup_Add 1 (rr_done r) in (res, r\<lparr>rr_done := wg\<rparr>))"

definition NotifyLoadFinished :: "request_registry \<Rightarrow> unit go \<times> request_registry" where
  "NotifyLoadFinished r =
     (let (res, wg) = WaitGroup_Done (rr_done r) in (res, r\<lparr>rr_done := wg\<rparr>))"

definition AddRequest :: "request \<Rightarrow> request_registry \<Rightarrow> request_registry" where
  "AddRequest req r = r\<lparr>rr_requests := rr_requests r @ [req]\<rparr>"

definition GetByNetworkId :: "string \<Rightarrow> request_registry \<Rightarrow> nat option" where
  "GetByNetworkId i r = find_index (\<lambda>req. rq_NetworkId req = i) (rr_requests r)"

definition GetByRequestId :: "string \<Rightarrow> request_registry \<Rightarrow> nat option" where
  "GetByRequestId i r = find_index (\<lambda>req. rq_RequestId req = i) (rr_requests r)"

definition GetByUrl :: "string \<Rightarrow> bool \<Rightarrow> request_registry \<Rightarrow> nat option" where
  "GetByUrl url onlyNew r =
     find_index (\<lambda>req. rq_Url req = url \<and> (\<not> onlyNew \<or> \<not> rq_GotNew req)) (rr_requests r)"

fun count_unresolved :: "request list \<Rightarrow> nat \<Rightarrow> nat" where
  "count_unresolved [] unresolved = unresolved"
| "count_unresolved (l # ls) unresolved =
     count_unresolved ls (if rq_CrawlLog l = None then Suc unresolved else unresolved)"

definition MatchCrawlLogs :: "request_registry \<Rightarrow> bool" where
  "MatchCrawlLogs r = (count_unresolved (rr_requests r) 0 = 0)"

text \<open>\<open>Walk\<close> with a function that reads the request and updates its own state.\<close>

definition Walk :: "(request \<Rightarrow> 's \<Rightarrow> 's) \<Rightarrow> request_registry \<Rightarrow> 's \<Rightarrow> 's" where
  "Walk w r s = fold w (rr_requests r) s"

section \<open>FinalizeResponses\<close>

record finalizing =
  fin_urls :: "string \<rightharpoonup> nat"
  fin_ids :: "string \<rightharpoonup> nat"
  fin_root :: nat
  fin_requests :: "request list"

definition discovery_type :: "string \<Rightarrow> nat \<Rightarrow> request \<Rightarrow> string" where
  "discovery_type requestedPath idx rr =
     (if idx = 0 then requestedPath
      else if rq_Initiator rr = ''script'' then ''X''
      else if rq_RedirectParent rr \<noteq> None then ''R''
      else ''E'')"

text \<open>The crawl log behind a pointer that may be nil, in the requests as they are now.\<close>

definition log_of :: "request list \<Rightarrow> nat option \<Rightarrow> crawl_log option" where
  "log_of reqs p = (case p of None \<Rightarrow> None | Some j \<Rightarrow> rq_CrawlLog (reqs ! j))"

definition finalize_log ::
  "string \<Rightarrow> (string \<rightharpoonup> nat) \<Rightarrow> nat \<Rightarrow> request list \<Rightarrow> request list" where
  "finalize_log requestedPath urls idx reqs =
     (let rr = reqs ! idx in
      case rq_CrawlLog rr of
        None \<Rightarrow> reqs
      | Some cl \<Rightarrow>
          let cl1 = cl\<lparr>cl_Referrer := rq_Referrer rr\<rparr>;
              reqs1 = reqs[idx := rr\<lparr>rq_CrawlLog := Some cl1\<rparr>];
              discoveryType = discovery_type requestedPath idx rr;
              path = (case log_of reqs1 (rq_RedirectParent rr) of
                        Some pl \<Rightarrow> cl_DiscoveryPath pl @ discoveryType
                      | None \<Rightarrow>
                          (case log_of reqs1 (urls (rq_Referrer rr)) of
                             Some rl \<Rightarrow> cl_DiscoveryPath rl @ discoveryType
                           | None \<Rightarrow> discoveryType))
          in reqs1[idx := rr\<lparr>rq_CrawlLog := Some (cl1\<lparr>cl_DiscoveryPath := path\<rparr>)\<rparr>])"

definition finalize_one :: "string \<Rightarrow> nat \<Rightarrow> finalizing \<Rightarrow> finalizing" where
  "finalize_one requestedPath idx st =
     (let rr = fin_requests st ! idx;
          urls = (fin_urls st)(rq_Url rr \<mapsto> idx);
          (rr1, root) = (case fin_ids st (rq_NetworkId rr) of
              Some p \<Rightarrow> (rr\<lparr>rq_RedirectParent := Some p\<rparr>,
                         if p = fin_root st then idx else fin_root st)
            | None \<Rightarrow> (rr, fin_root st));
          ids = (fin_ids st)(rq_NetworkId rr \<mapsto> idx)
      in \<lparr>fin_urls = urls, fin_ids = ids, fin_root = root,
          fin_requests =
            finalize_log requestedPath urls idx ((fin_requests st)[idx := rr1])\<rparr>)"

definition finalize_loop :: "string \<Rightarrow> nat \<Rightarrow> request list \<Rightarrow> finalizing" where
  "finalize_loop requestedPath n reqs =
     fold (finalize_one requestedPath) [0..<n]
       \<lparr>fin_urls = Map.empty, fin_ids = Map.empty, fin_root = 0, fin_requests = reqs\<rparr>"

definition FinalizeResponses ::
  "queued_uri \<Rightarrow> request_registry \<Rightarrow> unit go \<times> request_registry" where
  "FinalizeResponses requestedUrl r =
     (if rr_requests r = [] then (Panic IndexOutOfRange, r)
      else let st = finalize_loop (qu_DiscoveryPath requestedUrl) (length (rr_requests r))
                      (rr_requests r)
           in (Ret (), r\<lparr>rr_requests := fin_requests st, rr_rootRequest := Some (fin_root st)\<rparr>))"

section \<open>The lookups share one contract\<close>

text \<open>
  A store to which entries are only appended and a lookup that returns the first entry with
  a key: what such a lookup has found, no later entry changes.
\<close>

locale first_match_store =
  fixes entries :: "'r \<Rightarrow> 'q list"
    and add :: "'q \<Rightarrow> 'r \<Rightarrow> 'r"
    and lookup :: "'k \<Rightarrow> 'r \<Rightarrow> nat option"
    and has_key :: "'k \<Rightarrow> 'q \<Rightarrow> bool"
  assumes entries_add: "entries (add q r) = entries r @ [q]"
    and lookup_first: "lookup k r = find_index (has_key k) (entries r)"
begin

lemma lookup_SomeD:
  "lookup k r = Some i \<Longrightarrow> i < length (entries r) \<and> has_key k (entries r ! i)"
  by (auto simp: lookup_first dest: find_index_SomeD)

lemma lookup_None: "lookup k r = None \<longleftrightarrow> (\<forall>q \<in> set (entries r). \<not> has_key k q)"
  by (simp add: lookup_first find_index_None)

lemma lookup_add:
  "lookup k (add q r) =
     (case lookup k r of Some i \<Rightarrow> Some i
      | None \<Rightarrow> if has_key k q then Some (length (entries r)) else None)"
  by (auto simp: lookup_first entries_add find_index_append split: option.splits)

lemma lookup_stable: "lookup k r = Some i \<Longrightarrow> lookup k (add q r) = Some i"
  by (simp add: lookup_add)

lemma lookup_fold_stable: "lookup k r = Some i \<Longrightarrow> lookup k (fold add qs r) = Some i"
  by (induction qs arbitrary: r) (auto simp: lookup_stable)

lemma lookup_added_earlier:
  assumes "lookup k r = None" and "has_key k q"
  shows "lookup k (fold add qs (add q r)) = Some (length (entries r))"
  by (rule lookup_fold_stable) (simp add: lookup_add assms)

end

interpretation by_request_id:
  first_match_store rr_requests AddRequest GetByRequestId "\<lambda>k q. rq_RequestId q = k"
  by unfold_locales (simp_all add: AddRequest_def GetByRequestId_def)

interpretation by_network_id:
  first_match_store rr_requests AddRequest GetByNetworkId "\<lambda>k q. rq_NetworkId q = k"
  by unfold_locales (simp_all add: AddRequest_def GetByNetworkId_def)

interpretation by_url:
  first_match_store rr_requests AddRequest "\<lambda>(u, new). GetByUrl u new"
    "\<lambda>(u, new) q. rq_Url q = u \<and> (\<not> new \<or> \<not> rq_GotNew q)"
  by unfold_locales (simp_all add: AddRequest_def GetByUrl_def split_def)

lemma count_unresolved_eq:
  "count_unresolved ls n = n + length (filter (\<lambda>l. rq_CrawlLog l = None) ls)"
  by (induction ls n rule: count_unresolved.induct) auto

lemma MatchCrawlLogs_iff:
  "MatchCrawlLogs r \<longleftrightarrow> (\<forall>q \<in> set (rr_requests r). rq_CrawlLog q \<noteq> None)"
  by (auto simp: MatchCrawlLogs_def count_unresolved_eq filter_empty_conv)

section \<open>What FinalizeResponses computes\<close>

text \<open>
  The declarative reading: the redirect parent of a request is the last request before it
  with the same network id; the request it was discovered from is that parent if it has a
  crawl log, else the last request up to itself that has its referrer as URL and a crawl
  log; and its discovery path is the path of that request followed by its own type.
\<close>

definition redirect_of :: "request list \<Rightarrow> nat \<Rightarrow> nat option" where
  "redirect_of R i = last_below (\<lambda>j. rq_NetworkId (R ! j) = rq_NetworkId (R ! i)) i"

definition referrer_of :: "request list \<Rightarrow> nat \<Rightarrow> nat option" where
  "referrer_of R i = last_below (\<lambda>j. rq_Url (R ! j) = rq_Referrer (R ! i)) (Suc i)"

definition has_log :: "request list \<Rightarrow> nat \<Rightarrow> bool" where
  "has_log R j \<longleftrightarrow> rq_CrawlLog (R ! j) \<noteq> None"

definition discovered_from :: "request list \<Rightarrow> nat \<Rightarrow> nat option" where
  "discovered_from R i =
     (case redirect_of R i of
        Some p \<Rightarrow> if has_log R p then Some p
                  else (case referrer_of R i of
                          Some j \<Rightarrow> if has_log R j then Some j else None | None \<Rightarrow> None)
      | None \<Rightarrow> (case referrer_of R i of
                   Some j \<Rightarrow> if has_log R j then Some j else None | None \<Rightarrow> None))"

definition own_type :: "string \<Rightarrow> request list \<Rightarrow> nat \<Rightarrow> string" where
  "own_type dp R i =
     discovery_type dp i ((R ! i)\<lparr>rq_RedirectParent := redirect_of R i\<rparr>)"

lemma discovered_from_le: "discovered_from R i = Some j \<Longrightarrow> j \<le> i"
  by (auto simp: discovered_from_def redirect_of_def referrer_of_def
      split: option.splits if_splits dest!: last_below_less)

function path_spec :: "string \<Rightarrow> request list \<Rightarrow> nat \<Rightarrow> string" where
  "path_spec dp R i =
     (case discovered_from R i of
        None \<Rightarrow> own_type dp R i
      | Some j \<Rightarrow>
          (if j < i then path_spec dp R j
           else (case rq_CrawlLog (R ! i) of Some cl \<Rightarrow> cl_DiscoveryPath cl | None \<Rightarrow> []))
          @ own_type dp R i)"
  by pat_completeness auto
termination
  by (relation "measure (\<lambda>(dp, R, i). i)") auto

declare path_spec.simps [simp del]

definition final_request :: "string \<Rightarrow> request list \<Rightarrow> nat \<Rightarrow> request" where
  "final_request dp R i = (R ! i)
     \<lparr>rq_RedirectParent := redirect_of R i,
      rq_CrawlLog := map_option (\<lambda>cl. cl\<lparr>cl_Referrer := rq_Referrer (R ! i),
                                       cl_DiscoveryPath := path_spec dp R i\<rparr>)
                       (rq_CrawlLog (R ! i))\<rparr>"

text \<open>What the loop has done after \<open>n\<close> rounds.\<close>

definition finalized_upto :: "string \<Rightarrow> request list \<Rightarrow> nat \<Rightarrow> request list" where
  "finalized_upto dp R n =
     map (\<lambda>i. if i < n then final_request dp R i else R ! i) [0..<length R]"

definition fin_state :: "string \<Rightarrow> request list \<Rightarrow> nat \<Rightarrow> finalizing" where
  "fin_state dp R n =
     \<lparr>fin_urls = (\<lambda>u. last_below (\<lambda>j. rq_Url (R ! j) = u) n),
      fin_ids = (\<lambda>k. last_below (\<lambda>j. rq_NetworkId (R ! j) = k) n),
      fin_root = (case last_below (\<lambda>j. rq_NetworkId (R ! j) = rq_NetworkId (R ! 0)) n of
                    None \<Rightarrow> 0 | Some j \<Rightarrow> j),
      fin_requests = finalized_upto dp R n\<rparr>"

lemma finalized_upto_nth [simp]:
  "i < length R \<Longrightarrow> finalized_upto dp R n ! i = (if i < n then final_request dp R i else R ! i)"
  by (simp add: finalized_upto_def)

lemma finalized_upto_length [simp]: "length (finalized_upto dp R n) = length R"
  by (simp add: finalized_upto_def)

lemma final_request_simps [simp]:
  "rq_NetworkId (final_request dp R i) = rq_NetworkId (R ! i)"
  "rq_Url (final_request dp R i) = rq_Url (R ! i)"
  "rq_Referrer (final_request dp R i) = rq_Referrer (R ! i)"
  "rq_RequestId (final_request dp R i) = rq_RequestId (R ! i)"
  "rq_RedirectParent (final_request dp R i) = redirect_of R i"
  by (simp_all add: final_request_def)

lemma path_spec_step:
  assumes "n < length R" and "rq_CrawlLog (R ! n) = Some cl"
    and reqs1: "reqs1 = (finalized_upto dp R n)[n := rr]" "rq_CrawlLog rr = Some cl1"
    and "cl_DiscoveryPath cl1 = cl_DiscoveryPath cl"
  shows "(case log_of reqs1 (redirect_of R n) of
            Some pl \<Rightarrow> cl_DiscoveryPath pl @ own_type dp R n
          | None \<Rightarrow> (case log_of reqs1 (referrer_of R n) of
              Some rl \<Rightarrow> cl_DiscoveryPath rl @ own_type dp R n
            | None \<Rightarrow> own_type dp R n)) = path_spec dp R n"
proof -
  have earlier: "log_of reqs1 (Some j) = map_option (\<lambda>c. c\<lparr>cl_Referrer := rq_Referrer (R ! j),
      cl_DiscoveryPath := path_spec dp R j\<rparr>) (rq_CrawlLog (R ! j))" if "j < n" for j
    using that assms(1) reqs1(1) by (simp add: log_of_def final_request_def)
  have here: "log_of reqs1 (Some n) = Some cl1"
    using assms(1) reqs1 by (simp add: log_of_def)
  have none: "log_of reqs1 None = None" by (simp add: log_of_def)
  have referrer: "(case log_of reqs1 (referrer_of R n) of
              Some rl \<Rightarrow> cl_DiscoveryPath rl @ own_type dp R n
            | None \<Rightarrow> own_type dp R n)
     = (case referrer_of R n of
          Some j \<Rightarrow> if has_log R j
            then (if j < n then path_spec dp R j else cl_DiscoveryPath cl) @ own_type dp R n
            else own_type dp R n
        | None \<Rightarrow> own_type dp R n)"
  proof (cases "referrer_of R n")
    case None
    then show ?thesis by (simp add: none)
  next
    case (Some j)
    then have "j < Suc n" unfolding referrer_of_def by (rule last_below_less)
    then have "j < n \<or> j = n" by auto
    then show ?thesis
      using Some assms(2,5)
      by (auto simp: earlier here has_log_def split: option.splits)
  qed
  show ?thesis
  proof (cases "redirect_of R n")
    case None
    then show ?thesis
      unfolding path_spec.simps [of dp R n] referrer
      using assms(2)
      by (auto simp: none discovered_from_def has_log_def split: option.splits)
  next
    case (Some p)
    then have "p < n" by (auto simp: redirect_of_def dest: last_below_less)
    with Some show ?thesis
      unfolding path_spec.simps [of dp R n] referrer
      using assms(2)
      by (cases "rq_CrawlLog (R ! p)")
        (auto simp: earlier discovered_from_def has_log_def split: option.splits)
  qed
qed

lemma finalize_log_step:
  assumes "n < length R"
    and urls: "urls (rq_Referrer (R ! n)) = referrer_of R n"
    and rr1: "rr1 = (R ! n)\<lparr>rq_RedirectParent := redirect_of R n\<rparr>"
  shows "finalize_log dp urls n ((finalized_upto dp R n)[n := rr1])
           = finalized_upto dp R (Suc n)"
proof (cases "rq_CrawlLog (R ! n)")
  case None
  with rr1 have "rr1 = final_request dp R n" by (simp add: final_request_def)
  with None assms show ?thesis
    by (auto simp: finalize_log_def intro!: nth_equalityI)
      (auto simp: nth_list_update less_Suc_eq)
next
  case (Some cl)
  define cl1 where "cl1 = cl\<lparr>cl_Referrer := rq_Referrer (R ! n)\<rparr>"
  have type: "discovery_type dp n rr1 = own_type dp R n"
    by (simp add: own_type_def rr1)
  have fields: "rq_RedirectParent rr1 = redirect_of R n" "rq_CrawlLog rr1 = Some cl"
    "rq_Referrer rr1 = rq_Referrer (R ! n)"
    using Some by (simp_all add: rr1)
  have here: "(finalized_upto dp R n)[n := rr1] ! n = rr1" using assms(1) by simp
  note path = path_spec_step [OF assms(1) Some refl, of "rr1\<lparr>rq_CrawlLog := Some cl1\<rparr>" cl1 dp]
  have log: "finalize_log dp urls n ((finalized_upto dp R n)[n := rr1])
      = (finalized_upto dp R n)[n := rr1\<lparr>rq_CrawlLog :=
           Some (cl1\<lparr>cl_DiscoveryPath := path_spec dp R n\<rparr>)\<rparr>]"
    using path
    by (simp add: finalize_log_def Let_def here fields urls type cl1_def cong: option.case_cong)
  have "rr1\<lparr>rq_CrawlLog := Some (cl1\<lparr>cl_DiscoveryPath := path_spec dp R n\<rparr>)\<rparr>
      = final_request dp R n"
    using Some by (simp add: final_request_def rr1 cl1_def)
  then show ?thesis
    unfolding log using assms(1)
    by (auto intro!: nth_equalityI) (auto simp: nth_list_update less_Suc_eq)
qed

lemma fin_root_network:
  "rq_NetworkId (R ! fin_root (fin_state dp R n)) = rq_NetworkId (R ! 0)"
  by (auto simp: fin_state_def split: option.splits dest: last_below_holds)

lemma fin_root_step:
  "(case redirect_of R n of Some p \<Rightarrow> if p = fin_root (fin_state dp R n) then n
                                     else fin_root (fin_state dp R n)
    | None \<Rightarrow> fin_root (fin_state dp R n)) = fin_root (fin_state dp R (Suc n))"
proof (cases "rq_NetworkId (R ! n) = rq_NetworkId (R ! 0)")
  case True
  show ?thesis
  proof (cases "redirect_of R n")
    case None
    with True have "\<not> 0 < n" by (auto simp: redirect_of_def last_below_None_iff)
    with None show ?thesis by (simp add: fin_state_def)
  next
    case (Some p)
    with True show ?thesis by (simp add: fin_state_def redirect_of_def)
  qed
next
  case False
  have "p \<noteq> fin_root (fin_state dp R n)" if "redirect_of R n = Some p" for p
    using that False fin_root_network [of R dp n]
    by (auto simp: redirect_of_def dest: last_below_holds)
  with False show ?thesis by (auto simp: fin_state_def split: option.splits)
qed

lemma finalize_one_step:
  assumes "n < length R" and "rq_RedirectParent (R ! n) = None"
  shows "finalize_one dp n (fin_state dp R n) = fin_state dp R (Suc n)"
proof -
  let ?st = "fin_state dp R n"
  let ?rr1 = "(R ! n)\<lparr>rq_RedirectParent := redirect_of R n\<rparr>"
  have rr: "fin_requests ?st ! n = R ! n" using assms(1) by (simp add: fin_state_def)
  have ids: "fin_ids ?st (rq_NetworkId (R ! n)) = redirect_of R n"
    by (simp add: fin_state_def redirect_of_def)
  have same: "redirect_of R n = None \<Longrightarrow> ?rr1 = R ! n" using assms(2) by simp
  have urls: "(fin_urls ?st)(rq_Url (R ! n) \<mapsto> n) = fin_urls (fin_state dp R (Suc n))"
    by (auto simp: fin_state_def fun_eq_iff)
  have ids': "(fin_ids ?st)(rq_NetworkId (R ! n) \<mapsto> n) = fin_ids (fin_state dp R (Suc n))"
    by (auto simp: fin_state_def fun_eq_iff)
  have ref: "fin_urls (fin_state dp R (Suc n)) (rq_Referrer (R ! n)) = referrer_of R n"
    by (simp add: fin_state_def referrer_of_def)
  have reqs: "finalize_log dp (fin_urls (fin_state dp R (Suc n))) n
      ((fin_requests ?st)[n := ?rr1]) = fin_requests (fin_state dp R (Suc n))"
    using finalize_log_step [of n R "fin_urls (fin_state dp R (Suc n))" ?rr1 dp]
      assms(1) ref by (simp add: fin_state_def)
  have "finalize_one dp n ?st =
      \<lparr>fin_urls = fin_urls (fin_state dp R (Suc n)), fin_ids = fin_ids (fin_state dp R (Suc n)),
       fin_root = fin_root (fin_state dp R (Suc n)),
       fin_requests = fin_requests (fin_state dp R (Suc n))\<rparr>"
  proof (cases "redirect_of R n")
    case None
    then show ?thesis
      using fin_root_step [of dp R n] reqs same
      by (simp add: finalize_one_def Let_def rr ids urls ids')
  next
    case (Some p)
    then show ?thesis
      using fin_root_step [of dp R n] reqs
      by (simp add: finalize_one_def Let_def rr ids urls ids')
  qed
  then show ?thesis by simp
qed

lemma finalize_loop_state:
  assumes "\<forall>q \<in> set R. rq_RedirectParent q = None" and "n \<le> length R"
  shows "finalize_loop dp n R = fin_state dp R n"
  using assms(2)
proof (induction n)
  case 0
  have "finalized_upto dp R 0 = R" by (simp add: finalized_upto_def map_nth)
  then show ?case by (simp add: finalize_loop_def fin_state_def)
next
  case (Suc n)
  then have "finalize_loop dp (Suc n) R = finalize_one dp n (fin_state dp R n)"
    by (simp add: finalize_loop_def)
  also have "\<dots> = fin_state dp R (Suc n)"
    using Suc.prems assms(1) by (intro finalize_one_step) auto
  finally show ?case .
qed

text \<open>A registry whose requests have only been added and looked at: no parent is set yet.\<close>

definition fresh_registry :: "request_registry \<Rightarrow> bool" where
  "fresh_registry r \<longleftrightarrow>
     rr_requests r \<noteq> [] \<and> (\<forall>q \<in> set (rr_requests r). rq_RedirectParent q = None)"

text \<open>
  A request whose referrer is its own URL (a page that embeds itself) is entered into the
  URL map before its referrer is looked up, so it is taken for its own origin and the
  path of the earlier request for that URL is lost.
\<close>

lemma self_referring_path:
  assumes "rq_Url (R ! i) = rq_Referrer (R ! i)" and "redirect_of R i = None"
    and "rq_CrawlLog (R ! i) = Some cl"
  shows "path_spec dp R i = cl_DiscoveryPath cl @ own_type dp R i"
  using assms
  by (simp add: path_spec.simps [of dp R i] discovered_from_def referrer_of_def has_log_def)

text \<open>
  A page of three requests: a redirect from \<open>u0\<close> to \<open>u1\<close> and an image \<open>u2\<close> of \<open>u1\<close>.
\<close>

definition example_request :: "string \<Rightarrow> string \<Rightarrow> string \<Rightarrow> request" where
  "example_request url network referrer =
     \<lparr>rq_Method = ''GET'', rq_Url = url, rq_RequestId = url, rq_NetworkId = network,
      rq_CrawlLog = Some \<lparr>cl_WarcId = url, cl_StatusCode = 200, cl_Size = 1,
        cl_RequestedUri = url, cl_Method = ''GET'', cl_DiscoveryPath = [], cl_Referrer = [],
        cl_ContentType = [], cl_ExecutionId = [], cl_IpAddress = [],
        cl_CollectionFinalName = [], cl_FetchTimeStamp = 0, cl_Error = None\<rparr>,
      rq_GotNew = True, rq_GotComplete = True, rq_Initiator = [], rq_ResourceType = [],
      rq_Referrer = referrer, rq_RedirectParent = None, rq_FromCache = False,
      rq_rootResource = False\<rparr>"

definition example_registry :: request_registry where
  "example_registry = fold AddRequest
     [example_request ''u0'' ''n0'' [], example_request ''u1'' ''n0'' [],
      example_request ''u2'' ''n2'' ''u1''] (NewRequestRegistry NewWaitGroup)"

definition example_uri :: queued_uri where
  "example_uri = \<lparr>qu_Uri = ''u0'', qu_ExecutionId = ''e'', qu_JobExecutionId = ''j'',
     qu_DiscoveryPath = ''L'', qu_Referrer = [], qu_SeedUri = ''u0'', qu_Cookies = [],
     qu_Annotation = []\<rparr>"

lemma example_registry_requests:
  "rr_requests example_registry =
     [example_request ''u0'' ''n0'' [], example_request ''u1'' ''n0'' [],
      example_request ''u2'' ''n2'' ''u1'']"
  by (simp add: example_registry_def AddRequest_def NewRequestRegistry_def)

lemma example_registry_fresh: "fresh_registry example_registry"
  by (simp add: fresh_registry_def example_registry_requests example_request_def)

section \<open>Properties\<close>

text \<open>
  C6 (functional). The single pass of \<open>FinalizeResponses\<close>, which threads two overwritten
  maps and updates crawl logs in place while later requests read them, computes the
  declarative reading: every request gets as redirect parent the last request before it
  with its network id, and every crawl log its referrer and the discovery path that
  follows the chain of requests it was discovered from.
\<close>

theorem FinalizeResponses_requests:
  assumes "fresh_registry r"
  shows "rr_requests (snd (FinalizeResponses q r)) =
    map (final_request (qu_DiscoveryPath q) (rr_requests r)) [0..<length (rr_requests r)]"
  using assms
  by (auto simp: FinalizeResponses_def Let_def finalize_loop_state fresh_registry_def
      fin_state_def finalized_upto_def intro!: nth_equalityI)

theorem FinalizeResponses_requests_witness:
  "map (map_option cl_DiscoveryPath \<circ> rq_CrawlLog)
     (rr_requests (snd (FinalizeResponses example_uri example_registry)))
   = [Some ''L'', Some ''LR'', Some ''LRE'']"
  unfolding FinalizeResponses_requests [OF example_registry_fresh]
  by (simp add: example_registry_requests example_uri_def final_request_def path_spec.simps
      discovered_from_def redirect_of_def referrer_of_def has_log_def own_type_def
      discovery_type_def example_request_def upt_rec numeral_3_eq_3 nth_Cons')

text \<open>
  The root request of a page is the end of the redirect chain of the
  initial request: the last request that carries the initial request's network id. Without
  any request the code indexes an empty slice and panics.
\<close>

lemma FinalizeResponses_root:
  assumes "fresh_registry r"
  shows "\<exists>i. RootRequest (snd (FinalizeResponses q r)) = Some i \<and> i < length (rr_requests r)
    \<and> rq_NetworkId (rr_requests r ! i) = rq_NetworkId (rr_requests r ! 0)
    \<and> (\<forall>k. i < k \<and> k < length (rr_requests r) \<longrightarrow>
         rq_NetworkId (rr_requests r ! k) \<noteq> rq_NetworkId (rr_requests r ! 0))"
proof -
  let ?R = "rr_requests r"
  let ?P = "\<lambda>j. rq_NetworkId (?R ! j) = rq_NetworkId (?R ! 0)"
  have "last_below ?P (length ?R) \<noteq> None"
    using assms by (auto simp: fresh_registry_def last_below_None_iff)
  then obtain i where i: "last_below ?P (length ?R) = Some i" by auto
  then have "RootRequest (snd (FinalizeResponses q r)) = Some i"
    using assms
    by (simp add: FinalizeResponses_def Let_def finalize_loop_state fresh_registry_def
        fin_state_def RootRequest_def)
  with i show ?thesis by (auto simp: last_below_Some_iff)
qed

lemma FinalizeResponses_root_instance:
  "\<exists>i. RootRequest (snd (FinalizeResponses example_uri example_registry)) = Some i \<and> i < 3"
  using FinalizeResponses_root [OF example_registry_fresh, of example_uri]
  by (auto simp: example_registry_requests)

text \<open>
  Redirect parents point backwards, so following them ends: the parent of
  a request is an earlier request of the same network id.
\<close>

lemma FinalizeResponses_parents_backwards:
  assumes "fresh_registry r" and "i < length (rr_requests r)"
    and "rq_RedirectParent (rr_requests (snd (FinalizeResponses q r)) ! i) = Some p"
  shows "p < i \<and> rq_NetworkId (rr_requests r ! p) = rq_NetworkId (rr_requests r ! i)
    \<and> (\<forall>k. p < k \<and> k < i \<longrightarrow>
         rq_NetworkId (rr_requests r ! k) \<noteq> rq_NetworkId (rr_requests r ! i))"
proof -
  have "redirect_of (rr_requests r) i = Some p"
    using assms(2,3)
    unfolding FinalizeResponses_requests [OF assms(1)] by simp
  then show ?thesis
    by (auto simp: redirect_of_def last_below_Some_iff)
qed

lemma FinalizeResponses_parents_backwards_instance:
  "rq_RedirectParent (rr_requests (snd (FinalizeResponses example_uri example_registry)) ! 1)
     = Some 0 \<and> rq_NetworkId (rr_requests example_registry ! 0) = ''n0''"
proof -
  have "rq_RedirectParent (rr_requests (snd (FinalizeResponses example_uri example_registry)) ! 1)
      = Some 0"
    by (simp add: FinalizeResponses_def Let_def finalize_loop_state fin_state_def
        example_registry_requests example_request_def redirect_of_def)
  with FinalizeResponses_parents_backwards [OF example_registry_fresh _ this]
  show ?thesis by (simp add: example_registry_requests example_request_def)
qed

text \<open>
  A request is found again: once a request with a fresh request id has
  been added, \<open>GetByRequestId\<close> returns it whatever requests are added later, also when
  later ones (a redirect) carry the same id.
\<close>

lemma GetByRequestId_added:
  assumes "GetByRequestId (rq_RequestId req) r = None"
  shows "GetByRequestId (rq_RequestId req) (fold AddRequest reqs (AddRequest req r))
           = Some (length (rr_requests r))"
  by (rule by_request_id.lookup_added_earlier [OF assms]) simp

lemma GetByRequestId_added_instance:
  "GetByRequestId ''u0'' example_registry = Some 0"
  using GetByRequestId_added [of "example_request ''u0'' ''n0'' []" "NewRequestRegistry NewWaitGroup"
      "[example_request ''u1'' ''n0'' [], example_request ''u2'' ''n2'' ''u1'']"]
  by (simp add: example_registry_def GetByRequestId_def NewRequestRegistry_def
      example_request_def)

end
