(* ===== verification/Script_Run.thy ===== *)
theory Script_Run
  imports Messages
begin

text \<open>
  \<^verbatim>\<open>script/script.go\<close>: running a browser script and the scripts its return values chain to.
  JSON texts are modelled by the values they denote, with what \<^verbatim>\<open>encoding/json\<close> does when it
  decodes them into the two destinations the code uses.
\<close>

section \<open>JSON\<close>

datatype json =
    JNull
  | JBool bool
  | JNum string
  | JStr string
  | JArr "json list"
  | JObj "(string \<times> json) list"

text \<open>
  An \<open>easyjson.RawMessage\<close> that is not nil: the text of a JSON value, or bytes that are no
  JSON text. A nil message is \<open>None\<close> of \<open>raw option\<close>.
\<close>

datatype raw = RawJson json | RawBytes string

text \<open>A \<open>map[string]interface{}\<close>; the nil map and the empty map read alike.\<close>

type_synonym gomap = "string \<rightharpoonup> json"

text \<open>
  \<open>json.Unmarshal\<close> into a map that exists: an object's members are stored into the map as
  it is, keeping its other entries; null sets the map to nil; anything else is an error.
\<close>

fun unmarshal_map :: "json \<Rightarrow> gomap \<Rightarrow> gomap option" where
  "unmarshal_map JNull m = Some Map.empty"
| "unmarshal_map (JObj kvs) m = Some (fold (\<lambda>(k, v) m. m(k \<mapsto> v)) kvs m)"
| "unmarshal_map j m = None"

record return_value =
  rv_WaitForData :: bool
  rv_Next :: string
  rv_Data :: "json option"

definition zero_return_value :: return_value where
  "zero_return_value = \<lparr>rv_WaitForData = False, rv_Next = [], rv_Data = None\<rparr>"

text \<open>ASCII case folding, as the decoder compares member names with field names.\<close>

definition fold_char :: "char \<Rightarrow> char" where
  "fold_char c = (let n = (of_char c :: nat) in
     if 65 \<le> n \<and> n \<le> 90 then char_of (n + 32) else c)"

definition EqualFold :: "string \<Rightarrow> string \<Rightarrow> bool" where
  "EqualFold s t = (map fold_char s = map fold_char t)"

text \<open>
  One member of an object decoded into a \<open>ReturnValue\<close>: unknown members are ignored, null
  leaves a bool or string field as it is, a value of another type is an error, and the raw
  field \<open>data\<close> takes any value.
\<close>

definition unmarshal_field :: "string \<times> json \<Rightarrow> return_value option \<Rightarrow> return_value option" where
  "unmarshal_field kv rv =
     (case rv of None \<Rightarrow> None
      | Some r \<Rightarrow>
          if EqualFold (fst kv) ''waitForData'' then
            (case snd kv of JBool b \<Rightarrow> Some (r\<lparr>rv_WaitForData := b\<rparr>)
             | JNull \<Rightarrow> Some r | _ \<Rightarrow> None)
          else if EqualFold (fst kv) ''next'' then
            (case snd kv of JStr s \<Rightarrow> Some (r\<lparr>rv_Next := s\<rparr>) | JNull \<Rightarrow> Some r | _ \<Rightarrow> None)
          else if EqualFold (fst kv) ''data'' then Some (r\<lparr>rv_Data := Some (snd kv)\<rparr>)
          else Some r)"

fun unmarshal_return_value :: "raw \<Rightarrow> return_value option" where
  "unmarshal_return_value (RawJson JNull) = Some zero_return_value"
| "unmarshal_return_value (RawJson (JObj kvs)) = fold unmarshal_field kvs (Some zero_return_value)"
| "unmarshal_return_value r = None"

section \<open>Run\<close>

text \<open>
  The arguments of a script: for every annotation of the script, the values of the seed
  annotations with its key, then the data of the previous script.
\<close>

definition seed_params :: "annotation list \<Rightarrow> annotation list \<Rightarrow> gomap \<Rightarrow> gomap" where
  "seed_params blueprints annotations params =
     fold (\<lambda>blueprint p.
         fold (\<lambda>a q. if an_Key a = an_Key blueprint then q(an_Key a \<mapsto> JStr (an_Value a)) else q)
           annotations p)
       blueprints params"

definition script_params :: "config_object \<Rightarrow> annotation list \<Rightarrow> gomap \<Rightarrow> gomap" where
  "script_params script annotations data =
     seed_params (GetAnnotation script) annotations Map.empty ++ data"

text \<open>
  \<open>json.Marshal(params)\<close>. A map of strings and decoded JSON values always has a JSON text;
  the text is modelled by the map it denotes.
\<close>

definition marshal_params :: "gomap \<Rightarrow> error + gomap" where
  "marshal_params params = Inr params"

text \<open>
  What the callbacks \<open>execute\<close> and \<open>wait\<close> do, on a state \<open>'e\<close> of everything outside: the
  page, the browser and the timers.
\<close>

record 'e callbacks =
  cb_execute :: "config_object \<Rightarrow> gomap \<Rightarrow> 'e \<Rightarrow> (error + raw option) \<times> 'e"
  cb_wait :: "'e \<Rightarrow> 'e"

definition script_error :: "string \<Rightarrow> string \<Rightarrow> string \<Rightarrow> error option \<Rightarrow> error" where
  "script_error what name key e = Wrapped (what @ '' '' @ name @ '' ('' @ key @ ''): '') e"

text \<open>
  One round of the loop: \<open>Inl\<close> is the result \<open>Run\<close> returns, \<open>Inr\<close> the next script id and
  data with which it goes on.
\<close>

definition Run_round ::
  "(string \<rightharpoonup> config_object) \<Rightarrow> annotation list \<Rightarrow> 'e callbacks \<Rightarrow> string \<Rightarrow> gomap \<Rightarrow> 'e \<Rightarrow>
     (error option + string \<times> gomap) \<times> 'e" where
  "Run_round scripts annotations cb key data e =
     (case scripts key of
        None \<Rightarrow> (Inl (Some (PlainError (''failed to find script with id: '' @ key))), e)
      | Some script \<Rightarrow>
          let name = GetName script in
          case marshal_params (script_params script annotations data) of
            Inl err \<Rightarrow>
              (Inl (Some (script_error ''failed to marshal script arguments for script'' name key
                            (Some err))), e)
          | Inr arguments \<Rightarrow>
              (case cb_execute cb script arguments e of
                 (Inl err, e1) \<Rightarrow>
                   (Inl (Some (script_error ''failed to execute script'' name key (Some err))), e1)
               | (Inr None, e1) \<Rightarrow> (Inl None, e1)
               | (Inr (Some res), e1) \<Rightarrow>
                   (case unmarshal_return_value res of
                      None \<Rightarrow>
                        (Inl (Some (script_error ''failed to unmarshal result from script'' name key
                                      (Some (PlainError ''json'')))), e1)
                    | Some rv \<Rightarrow>
                        let next = (if rv_Next rv = ''self'' then co_Id script else rv_Next rv);
                            e2 = (if rv_WaitForData rv then cb_wait cb e1 else e1)
                        in (case rv_Data rv of
                              None \<Rightarrow> (Inr (next, Map.empty), e2)
                            | Some d \<Rightarrow>
                                (case unmarshal_map d data of
                                   None \<Rightarrow>
                                     (Inl (Some (script_error ''failed to unmarshal data from script''
                                                   name next (Some (PlainError ''json'')))), e1)
                                 | Some data' \<Rightarrow> (Inr (next, data'), e2))))))"

text \<open>The loop may run for ever: not returning is \<open>None\<close>.\<close>

partial_function (option) Run_loop ::
  "(string \<rightharpoonup> config_object) \<Rightarrow> annotation list \<Rightarrow> 'e callbacks \<Rightarrow> string \<Rightarrow> gomap \<Rightarrow> 'e \<Rightarrow>
     (error option \<times> 'e) option" where
  "Run_loop scripts annotations cb key data e =
     (if key = [] then Some (None, e)
      else (case Run_round scripts annotations cb key data e of
              (Inl r, e1) \<Rightarrow> Some (r, e1)
            | (Inr (next, data1), e1) \<Rightarrow> Run_loop scripts annotations cb next data1 e1))"

definition script_Run ::
  "string \<Rightarrow> (string \<rightharpoonup> config_object) \<Rightarrow> annotation list \<Rightarrow> 'e callbacks \<Rightarrow> 'e \<Rightarrow>
     (error option \<times> 'e) option" where
  "script_Run next scripts annotations cb e =
     Run_loop scripts annotations cb next Map.empty e"

section \<open>Arguments\<close>

text \<open>The value of the last seed annotation with a key.\<close>

definition seed_value :: "annotation list \<Rightarrow> string \<Rightarrow> string option" where
  "seed_value annotations k = map_of (rev (map (\<lambda>a. (an_Key a, an_Value a)) annotations)) k"

lemma seed_inner:
  "fold (\<lambda>a q. if an_Key a = b then q(an_Key a \<mapsto> JStr (an_Value a)) else q) annotations p k
     = (if k = b \<and> seed_value annotations k \<noteq> None
        then map_option JStr (seed_value annotations k) else p k)"
  by (induction annotations arbitrary: p)
    (auto simp: seed_value_def map_add_def split: option.splits)

lemma seed_params_apply:
  "seed_params blueprints annotations p k
     = (if k \<in> an_Key ` set blueprints \<and> seed_value annotations k \<noteq> None
        then map_option JStr (seed_value annotations k) else p k)"
  unfolding seed_params_def
  by (induction blueprints arbitrary: p) (auto simp: seed_inner)

section \<open>When the loop returns\<close>

lemma Run_loop_returns:
  fixes rank :: "string \<Rightarrow> gomap \<Rightarrow> 'e \<Rightarrow> nat"
  assumes "\<And>key data e next data1 e1. key \<noteq> [] \<Longrightarrow>
      Run_round scripts annotations cb key data e = (Inr (next, data1), e1) \<Longrightarrow> next \<noteq> [] \<Longrightarrow>
      rank next data1 e1 < rank key data e"
  shows "\<exists>r. Run_loop scripts annotations cb key data e = Some r"
proof (induction "rank key data e" arbitrary: key data e rule: less_induct)
  case less
  show ?case
  proof (cases "key = []")
    case True
    then show ?thesis by (simp add: Run_loop.simps)
  next
    case False
    show ?thesis
    proof (cases "Run_round scripts annotations cb key data e")
      case (Pair x e1)
      show ?thesis
      proof (cases x)
        case (Inl r)
        with Pair False show ?thesis by (simp add: Run_loop.simps)
      next
        case (Inr y)
        obtain nxt data1 where y: "y = (nxt, data1)" by (cases y)
        have "\<exists>r. Run_loop scripts annotations cb nxt data1 e1 = Some r"
        proof (cases "nxt = []")
          case True
          then show ?thesis by (simp add: Run_loop.simps)
        next
          case nxt: False
          show ?thesis
            by (rule less) (use assms [OF False] Pair Inr y nxt in auto)
        qed
        with False Pair Inr y show ?thesis by (simp add: Run_loop.simps)
      qed
    qed
  qed
qed

section \<open>Examples for the witnesses\<close>

text \<open>
  The chained scripts of \<^verbatim>\<open>script/script_test.go\<close>: script 2 asks for script 3, which
  returns nothing; and a script 1 that always asks for itself.
\<close>

definition example_script :: "string \<Rightarrow> config_object" where
  "example_script i = \<lparr>co_Id = i,
     co_Meta = Some \<lparr>meta_Name = i, meta_Annotation = [\<lparr>an_Key = ''next'', an_Value = ''3''\<rparr>]\<rparr>,
     co_Spec = NoSpec\<rparr>"

definition example_scripts :: "string \<rightharpoonup> config_object" where
  "example_scripts = [''1'' \<mapsto> example_script ''1'', ''2'' \<mapsto> example_script ''2'',
     ''3'' \<mapsto> example_script ''3'']"

definition next_value :: "string \<Rightarrow> raw" where
  "next_value i = RawJson (JObj [(''next'', JStr i)])"

definition chained_callbacks :: "unit callbacks" where
  "chained_callbacks = \<lparr>cb_execute = (\<lambda>s args e.
       (Inr (if co_Id s = ''2'' then Some (next_value ''3'') else None), e)), cb_wait = id\<rparr>"

definition self_callbacks :: "unit callbacks" where
  "self_callbacks = \<lparr>cb_execute = (\<lambda>s args e.
       (Inr (Some (RawJson (JObj [(''next'', JStr ''self'')]))), e)), cb_wait = id\<rparr>"

definition data_callbacks :: "unit callbacks" where
  "data_callbacks = \<lparr>cb_execute = (\<lambda>s args e.
       (Inr (Some (RawJson (JObj [(''data'', JObj [(''b'', JNull)])]))), e)), cb_wait = id\<rparr>"

lemmas json_eval =
  unmarshal_field_def zero_return_value_def EqualFold_def fold_char_def next_value_def

lemma chained_round:
  "Run_round example_scripts [] chained_callbacks key data e = (Inr (nxt, data1), e1) \<Longrightarrow>
     key = ''2'' \<and> nxt = ''3''"
  by (auto simp: Run_round_def example_scripts_def example_script_def chained_callbacks_def
      marshal_params_def json_eval Let_def split: if_splits option.splits)

section \<open>Properties\<close>


text \<open>
  Data accumulates: when a script that was run with \<open>data\<close> returns an
  object as its data, the next script's data is the old data overwritten by the object, so
  a member returned by a script before the previous one is still an argument.
\<close>

lemma Run_round_data_accumulates:
  assumes "scripts key = Some script"
    and "cb_execute cb script (script_params script annotations data) e = (Inr (Some res), e1)"
    and "unmarshal_return_value res = Some rv" and "rv_Data rv = Some (JObj kvs)"
  shows "\<exists>e2 next. Run_round scripts annotations cb key data e
      = (Inr (next, data ++ map_of (rev kvs)), e2)
    \<and> next = (if rv_Next rv = ''self'' then co_Id script else rv_Next rv)"
proof -
  have "fold (\<lambda>(k, v) m. m(k \<mapsto> v)) kvs m = m ++ map_of (rev kvs)" for m :: gomap
    by (induction kvs arbitrary: m) (auto simp: fun_eq_iff map_add_def split: option.splits)
  with assms show ?thesis by (simp add: Run_round_def marshal_params_def Let_def)
qed

lemma Run_round_data_accumulates_instance:
  "\<exists>e2 nxt d. Run_round example_scripts [] data_callbacks ''1'' [''a'' \<mapsto> JNull] ()
     = (Inr (nxt, d), e2) \<and> d ''a'' = Some JNull \<and> d ''b'' = Some JNull"
proof -
  let ?res = "RawJson (JObj [(''data'', JObj [(''b'', JNull)])])"
  have rv: "unmarshal_return_value ?res
      = Some \<lparr>rv_WaitForData = False, rv_Next = [], rv_Data = Some (JObj [(''b'', JNull)])\<rparr>"
    by (simp add: json_eval Let_def)
  show ?thesis
    using Run_round_data_accumulates [of example_scripts "''1''" "example_script ''1''"
        data_callbacks "[]" "[''a'' \<mapsto> JNull]" "()" ?res "()", OF _ _ rv]
    by (auto simp: example_scripts_def data_callbacks_def map_add_def)
qed

text \<open>
  \<open>Run\<close> returns whenever the chain of scripts cannot go on for ever: if
  some measure of script id, data and outside state decreases from each round to the next,
  the loop ends, from whatever first id, data and state.
\<close>

lemma script_Run_terminates:
  fixes rank :: "string \<Rightarrow> gomap \<Rightarrow> 'e \<Rightarrow> nat"
  assumes "\<And>key data e next data1 e1. key \<noteq> [] \<Longrightarrow>
      Run_round scripts annotations cb key data e = (Inr (next, data1), e1) \<Longrightarrow> next \<noteq> [] \<Longrightarrow>
      rank next data1 e1 < rank key data e"
  shows "\<exists>r e1. script_Run first scripts annotations cb e = Some (r, e1)"
  using Run_loop_returns [of scripts annotations cb rank first Map.empty e] assms
  by (auto simp: script_Run_def)

lemma script_Run_terminates_instance:
  "\<exists>r e1. script_Run ''2'' example_scripts [] chained_callbacks () = Some (r, e1)"
  by (rule script_Run_terminates [where rank = "\<lambda>key data e. if key = ''2'' then 1 else 0"])
    (auto dest: chained_round)

text \<open>
  Nothing else bounds the loop: a script that always asks for itself
  (\<open>next\<close> is \<open>self\<close>) keeps \<open>Run\<close> from returning.
\<close>

lemma script_Run_self_diverges:
  assumes "key \<noteq> []" and "scripts key = Some script" and "co_Id script = key"
    and "\<And>args e. fst (cb_execute cb script args e)
            = Inr (Some (RawJson (JObj [(''next'', JStr ''self'')])))"
  shows "script_Run key scripts annotations cb e = None"
proof -
  have rv: "unmarshal_field (''next'', JStr ''self'') (Some zero_return_value)
      = Some \<lparr>rv_WaitForData = False, rv_Next = ''self'', rv_Data = None\<rparr>"
    by (simp add: unmarshal_field_def zero_return_value_def EqualFold_def fold_char_def Let_def)
  have round: "\<exists>e1. Run_round scripts annotations cb key data e = (Inr (key, Map.empty), e1)"
    for data e
    using assms(2,3) assms(4) [of "script_params script annotations data" e]
    by (cases "cb_execute cb script (script_params script annotations data) e")
      (simp add: Run_round_def marshal_params_def Let_def rv)
  let ?P = "\<lambda>s a c k d e r. s = scripts \<longrightarrow> a = annotations \<longrightarrow> c = cb \<longrightarrow> k = key \<longrightarrow> False"
  have "?P scripts annotations cb key data e r"
    if "Run_loop scripts annotations cb key data e = Some r" for data e r
  proof (rule Run_loop.raw_induct [where P = ?P, OF _ that])
    fix f s a c k d e r
    assume IH: "\<And>s a c k d e r. f s a c k d e = Some r \<Longrightarrow>
        s = scripts \<longrightarrow> a = annotations \<longrightarrow> c = cb \<longrightarrow> k = key \<longrightarrow> False"
      and eq: "(if k = [] then Some (None, e)
       else case Run_round s a c k d e of (Inl r, e1) \<Rightarrow> Some (r, e1)
            | (Inr (next, data1), e1) \<Rightarrow> f s a c next data1 e1) = Some r"
    show "s = scripts \<longrightarrow> a = annotations \<longrightarrow> c = cb \<longrightarrow> k = key \<longrightarrow> False"
    proof (intro impI)
      assume "s = scripts" "a = annotations" "c = cb" "k = key"
      with eq assms(1) round [of d e]
      obtain e1 where "f scripts annotations cb key Map.empty e1 = Some r" by auto
      from IH [OF this] show False by blast
    qed
  qed
  then have "Run_loop scripts annotations cb key data e \<noteq> Some r" for data e r by blast
  then show ?thesis
    unfolding script_Run_def by (cases "Run_loop scripts annotations cb key Map.empty e") auto
qed

lemma script_Run_self_diverges_instance:
  "script_Run ''1'' example_scripts [] self_callbacks () = None"
  by (rule script_Run_self_diverges [of "''1''" _ "example_script ''1''"])
    (simp_all add: example_scripts_def example_script_def self_callbacks_def)

end
