(* ===== verification/Session_Registry.thy ===== *)
theory Session_Registry
  imports Messages
begin

text \<open>
  \<^verbatim>\<open>session/registry.go\<close>: the pool of session ids, one per recorder proxy, and the table of
  the sessions in use. A session is any type \<open>'s\<close> here; \<open>New\<close>, which builds one from its id
  and the registry's options, is an argument.
\<close>

section \<open>State and operations\<close>

text \<open>
  \<open>pool\<close> is the content of the buffered channel, first in first out; its capacity is
  \<open>len(sessions) - 1\<close>. \<open>sr_wg\<close> is the counter of the \<open>sync.WaitGroup\<close>.
\<close>

record 's session_registry =
  sr_sessions :: "'s option list"
  sr_pool :: "nat list"
  sr_wg :: int

definition NewRegistry :: "int \<Rightarrow> 's session_registry go" where
  "NewRegistry maxSessions =
     (if maxSessions < 0 then Panic MakesliceLenOutOfRange
      else if maxSessions - 1 < 0 then Panic MakechanSizeOutOfRange
      else Ret \<lparr>sr_sessions = replicate (nat maxSessions) None,
                sr_pool = [1..<nat maxSessions], sr_wg = 0\<rparr>)"

text \<open>
  The select of \<open>GetNextAvailable\<close> takes the context's case (\<open>Some\<close> of its error) or the
  pool's. The result is \<open>None\<close> while the call blocks on an empty pool.
\<close>

definition GetNextAvailable ::
  "(nat \<Rightarrow> error + 's) \<Rightarrow> error option \<Rightarrow> 's session_registry \<Rightarrow>
     (error + nat \<times> 's) option \<times> 's session_registry" where
  "GetNextAvailable New ctxErr sr =
     (case ctxErr of
        Some e \<Rightarrow> (Some (Inl e), sr)
      | None \<Rightarrow>
          (case sr_pool sr of
             [] \<Rightarrow> (None, sr)
           | i # rest \<Rightarrow>
               let sr1 = sr\<lparr>sr_pool := rest\<rparr>
               in (case New i of
                     Inl e \<Rightarrow> (Some (Inl e), sr1)
                   | Inr sess \<Rightarrow>
                       (Some (Inr (i, sess)),
                        sr1\<lparr>sr_wg := sr_wg sr1 + 1,
                            sr_sessions := (sr_sessions sr1)[i := Some sess]\<rparr>))))"

definition Registry_Get :: "int \<Rightarrow> 's session_registry \<Rightarrow> 's option go" where
  "Registry_Get sessId sr =
     (if 0 \<le> sessId \<and> sessId < int (length (sr_sessions sr))
      then Ret (sr_sessions sr ! nat sessId) else Panic IndexOutOfRange)"

text \<open>
  \<open>Release\<close> of the session with an id, with the mutex held: \<open>Ret False\<close> is a send to the
  full channel, which blocks for ever and keeps the mutex.
\<close>

definition Registry_Release :: "nat \<Rightarrow> 's session_registry \<Rightarrow> bool go \<times> 's session_registry" where
  "Registry_Release i sr =
     (if length (sr_sessions sr) \<le> i then (Panic IndexOutOfRange, sr)
      else let sr1 = sr\<lparr>sr_sessions := (sr_sessions sr)[i := None]\<rparr>
           in if sr_wg sr1 - 1 < 0
              then (Panic NegativeWaitGroupCounter, sr1\<lparr>sr_wg := sr_wg sr1 - 1\<rparr>)
              else let sr2 = sr1\<lparr>sr_wg := sr_wg sr1 - 1\<rparr>
                   in if length (sr_pool sr2) < length (sr_sessions sr2) - 1
                      then (Ret True, sr2\<lparr>sr_pool := sr_pool sr2 @ [i]\<rparr>)
                      else (Ret False, sr2))"

definition MaxSessions :: "'s session_registry \<Rightarrow> nat" where
  "MaxSessions sr = length (sr_sessions sr)"

fun count_sessions :: "'s option list \<Rightarrow> nat \<Rightarrow> nat" where
  "count_sessions [] c = c"
| "count_sessions (s # ss) c = count_sessions ss (if s \<noteq> None then Suc c else c)"

definition CurrentSessions :: "'s session_registry \<Rightarrow> nat" where
  "CurrentSessions sr = count_sessions (sr_sessions sr) 0"

text \<open>
  \<open>CloseWait\<close> returns when the counter is zero or the timeout has passed; with both, the
  select may take either. The results it can give, with the number of sessions it reports.
\<close>

datatype close_result = AllFinished | TimedOut nat

definition CloseWait :: "bool \<Rightarrow> 's session_registry \<Rightarrow> close_result list" where
  "CloseWait timeoutPassed sr =
     (if sr_wg sr = 0 then [AllFinished] else [])
     @ (if timeoutPassed then [TimedOut (CurrentSessions sr)] else [])"

lemmas session_registry_defs [step_defs] =
  GetNextAvailable_def Registry_Release_def Registry_Get_def

section \<open>The invariant\<close>

definition used_slots :: "'s option list \<Rightarrow> nat set" where
  "used_slots xs = {i. i < length xs \<and> xs ! i \<noteq> None}"

abbreviation used :: "'s session_registry \<Rightarrow> nat set" where
  "used sr \<equiv> used_slots (sr_sessions sr)"

lemma used_slots_update [simp]:
  "i < length xs \<Longrightarrow> used_slots (xs[i := Some s]) = insert i (used_slots xs)"
  "i < length xs \<Longrightarrow> used_slots (xs[i := None]) = used_slots xs - {i}"
  by (auto simp: used_slots_def nth_list_update split: if_splits)

lemma finite_used_slots [simp, intro]: "finite (used_slots xs)"
  by (simp add: used_slots_def)

text \<open>
  Ids are pooled at most once, only free ids other than 0 are pooled, slot 0 is never
  taken, and the wait group counts the used slots.
\<close>

definition pool_inv :: "'s session_registry \<Rightarrow> bool" where
  "pool_inv sr \<longleftrightarrow>
     0 < length (sr_sessions sr) \<and> 0 \<notin> used sr
     \<and> distinct (sr_pool sr) \<and> set (sr_pool sr) \<subseteq> {1..<length (sr_sessions sr)} - used sr
     \<and> sr_wg sr = int (card (used sr))"

text \<open>Ids that are neither pooled nor used are lost.\<close>

definition lost :: "'s session_registry \<Rightarrow> nat set" where
  "lost sr = {1..<length (sr_sessions sr)} - used sr - set (sr_pool sr)"

lemma used_below: "pool_inv sr \<Longrightarrow> used sr \<subseteq> {1..<length (sr_sessions sr)}"
  by (auto simp: pool_inv_def used_slots_def Suc_le_eq) (metis gr0I option.distinct(1))

lemma pool_inv_New: "NewRegistry n = Ret sr \<Longrightarrow> pool_inv sr \<and> lost sr = {} \<and> used sr = {}"
  by (auto simp: NewRegistry_def pool_inv_def lost_def used_slots_def split: if_splits)

lemma pool_inv_accounting:
  assumes "pool_inv sr"
  shows "length (sr_pool sr) + card (used sr) + card (lost sr) = length (sr_sessions sr) - 1"
proof -
  let ?A = "{1..<length (sr_sessions sr)}"
  have pool: "length (sr_pool sr) = card (set (sr_pool sr))"
    using assms by (simp add: pool_inv_def distinct_card)
  have sub: "set (sr_pool sr) \<subseteq> ?A" "set (sr_pool sr) \<inter> used sr = {}" "used sr \<subseteq> ?A"
    using assms used_below by (auto simp: pool_inv_def)
  have "?A = set (sr_pool sr) \<union> (used sr \<union> lost sr)"
    using sub by (auto simp: lost_def)
  then have "card ?A = card (set (sr_pool sr) \<union> (used sr \<union> lost sr))" by simp
  also have "\<dots> = card (set (sr_pool sr)) + (card (used sr) + card (lost sr))"
    using sub(2) by (subst card_Un_disjoint; (subst card_Un_disjoint)?) (auto simp: lost_def)
  finally show ?thesis using pool by simp
qed

lemma pool_inv_Get [inv_intros]:
  assumes "pool_inv sr" and "GetNextAvailable New ctxErr sr = (r, sr')"
  shows "pool_inv sr'"
proof (cases "ctxErr = None \<and> sr_pool sr \<noteq> []")
  case False
  with assms show ?thesis by (auto simp: GetNextAvailable_def split: option.splits list.splits)
next
  case True
  then obtain i rest where pool: "sr_pool sr = i # rest" by (cases "sr_pool sr") auto
  with assms(1) have i: "0 < i" "i < length (sr_sessions sr)" "i \<notin> used sr" "i \<notin> set rest"
    by (auto simp: pool_inv_def)
  with True pool assms show ?thesis
    by (cases "New i") (auto simp: GetNextAvailable_def pool_inv_def Let_def)
qed

lemma Release_in_use:
  assumes "pool_inv sr" and "i \<in> used sr"
  shows "\<exists>sr'. Registry_Release i sr = (Ret True, sr') \<and> pool_inv sr'
    \<and> used sr' = used sr - {i} \<and> lost sr' = lost sr
    \<and> length (sr_sessions sr') = length (sr_sessions sr)"
proof -
  have i: "i < length (sr_sessions sr)" "0 < i" "i \<notin> set (sr_pool sr)"
    using assms by (auto simp: used_slots_def pool_inv_def intro: gr0I)
  have card: "0 < card (used sr)" using assms(2) by (auto simp: card_gt_0_iff)
  then have room: "length (sr_pool sr) < length (sr_sessions sr) - 1"
    using pool_inv_accounting [OF assms(1)] by linarith
  let ?sr = "sr\<lparr>sr_sessions := (sr_sessions sr)[i := None], sr_wg := sr_wg sr - 1,
      sr_pool := sr_pool sr @ [i]\<rparr>"
  have nonempty: "used sr \<noteq> {}" using assms(2) by auto
  have "Registry_Release i sr = (Ret True, ?sr)"
    using i room nonempty assms(1) by (simp add: Registry_Release_def Let_def pool_inv_def)
  moreover have "pool_inv ?sr" "used ?sr = used sr - {i}" "lost ?sr = lost sr"
    using i assms by (auto simp: pool_inv_def lost_def of_nat_diff Suc_le_eq card_gt_0_iff nonempty)
  ultimately show ?thesis by auto
qed

lemma count_sessions_filter:
  "count_sessions ss c = c + length (filter (\<lambda>s. s \<noteq> None) ss)"
  by (induction ss c rule: count_sessions.induct) auto

lemma count_sessions_eq: "count_sessions ss c = c + card (used_slots ss)"
  unfolding count_sessions_filter length_filter_conv_card used_slots_def ..

lemma CurrentSessions_eq: "CurrentSessions sr = card (used sr)"
  by (simp add: CurrentSessions_def count_sessions_eq)

section \<open>The registry as a pool of slots\<close>

text \<open>
  What the controller relies on: acquiring gives a slot that is not in use and fails only
  when all are in use; releasing a slot in use always succeeds and frees it.
\<close>

locale slot_pool =
  fixes inv :: "'p \<Rightarrow> bool"
    and in_use :: "'p \<Rightarrow> nat set"
    and capacity :: "'p \<Rightarrow> nat"
    and acquire :: "'p \<Rightarrow> (nat \<times> 'p) option"
    and release :: "nat \<Rightarrow> 'p \<Rightarrow> 'p option"
  assumes in_use_finite: "inv p \<Longrightarrow> finite (in_use p)"
    and in_use_bound: "inv p \<Longrightarrow> card (in_use p) \<le> capacity p"
    and acquire_Some: "inv p \<Longrightarrow> acquire p = Some (i, p') \<Longrightarrow>
        inv p' \<and> i \<notin> in_use p \<and> in_use p' = insert i (in_use p) \<and> capacity p' = capacity p"
    and acquire_None: "inv p \<Longrightarrow> acquire p = None \<Longrightarrow> card (in_use p) = capacity p"
    and release_in_use: "inv p \<Longrightarrow> i \<in> in_use p \<Longrightarrow>
        \<exists>p'. release i p = Some p' \<and> inv p' \<and> in_use p' = in_use p - {i}
          \<and> capacity p' = capacity p"
begin

lemma acquire_then_release:
  assumes "inv p" and "acquire p = Some (i, p')"
  shows "\<exists>p''. release i p' = Some p'' \<and> inv p'' \<and> in_use p'' = in_use p
    \<and> capacity p'' = capacity p"
  using acquire_Some [OF assms] release_in_use [of p' i] by auto

lemma acquire_available:
  "inv p \<Longrightarrow> card (in_use p) < capacity p \<Longrightarrow> \<exists>i p'. acquire p = Some (i, p')"
  using acquire_None by (cases "acquire p") auto

lemma release_all:
  assumes "inv p" and "distinct is" and "set is = in_use p"
  shows "\<exists>p'. fold (\<lambda>i m. Option.bind m (release i)) is (Some p) = Some p' \<and> inv p'
    \<and> in_use p' = {} \<and> capacity p' = capacity p"
  using assms
proof (induction "is" arbitrary: p)
  case Nil
  then show ?case by simp
next
  case (Cons i "is")
  then have "i \<in> in_use p" by auto
  then obtain p' where p': "release i p = Some p'" "inv p'" "in_use p' = in_use p - {i}"
      "capacity p' = capacity p"
    using release_in_use Cons.prems(1) by blast
  moreover have "set is = in_use p'" using Cons.prems(2,3) p'(3) by auto
  ultimately show ?case using Cons.IH [of p'] Cons.prems(2) by simp
qed

end

definition pool_acquire ::
  "(nat \<Rightarrow> 's) \<Rightarrow> 's session_registry \<Rightarrow> (nat \<times> 's session_registry) option" where
  "pool_acquire mk sr =
     (case GetNextAvailable (\<lambda>i. Inr (mk i)) None sr of
        (Some (Inr (i, s)), sr1) \<Rightarrow> Some (i, sr1) | _ \<Rightarrow> None)"

definition pool_release :: "nat \<Rightarrow> 's session_registry \<Rightarrow> 's session_registry option" where
  "pool_release i sr =
     (case Registry_Release i sr of (Ret True, sr1) \<Rightarrow> Some sr1 | _ \<Rightarrow> None)"

definition pool_ok :: "'s session_registry \<Rightarrow> bool" where
  "pool_ok sr \<longleftrightarrow> pool_inv sr \<and> lost sr = {}"

interpretation registry_pool:
  slot_pool pool_ok used "\<lambda>sr. MaxSessions sr - 1" "pool_acquire mk" pool_release
  for mk :: "nat \<Rightarrow> 's"
proof unfold_locales
  fix p :: "'s session_registry"
  assume ok: "pool_ok p"
  show "finite (used p)" by simp
  show "card (used p) \<le> MaxSessions p - 1"
    using pool_inv_accounting [of p] ok by (simp add: pool_ok_def MaxSessions_def)
  show "card (used p) = MaxSessions p - 1" if "pool_acquire mk p = None"
    using that pool_inv_accounting [of p] ok
    by (auto simp: pool_acquire_def GetNextAvailable_def pool_ok_def MaxSessions_def Let_def
        split: list.splits)
  show "\<exists>p'. pool_release i p = Some p' \<and> pool_ok p' \<and> used p' = used p - {i}
      \<and> MaxSessions p' - 1 = MaxSessions p - 1" if "i \<in> used p" for i
    using Release_in_use [OF _ that] ok by (auto simp: pool_release_def pool_ok_def MaxSessions_def)
  fix i p'
  assume acq: "pool_acquire mk p = Some (i, p')"
  then obtain rest where pool: "sr_pool p = i # rest"
    by (auto simp: pool_acquire_def GetNextAvailable_def Let_def split: list.splits)
  with ok have i: "i \<notin> used p" "i < length (sr_sessions p)"
    by (auto simp: pool_ok_def pool_inv_def)
  have get: "GetNextAvailable (\<lambda>i. Inr (mk i)) None p = (Some (Inr (i, mk i)), p')"
    using acq pool by (simp add: pool_acquire_def GetNextAvailable_def Let_def)
  have "pool_inv p'" using ok by (intro pool_inv_Get [OF _ get]) (simp add: pool_ok_def)
  moreover have "lost p' = {}" "used p' = insert i (used p)" "MaxSessions p' = MaxSessions p"
    using get pool i ok
    by (auto simp: GetNextAvailable_def Let_def lost_def pool_ok_def MaxSessions_def)
  ultimately show "pool_ok p' \<and> i \<notin> used p \<and> used p' = insert i (used p)
      \<and> MaxSessions p' - 1 = MaxSessions p - 1"
    using i by (simp add: pool_ok_def)
qed

section \<open>Runs of the registry\<close>

text \<open>
  Any sequence of calls: \<open>GetNextAvailable\<close> with whatever \<open>New\<close> answers and the context
  says, and \<open>Release\<close> of a session that is in use.
\<close>

inductive reg_step :: "'s session_registry \<Rightarrow> 's session_registry \<Rightarrow> bool" where
  reg_get: "GetNextAvailable New ctxErr sr = (r, sr1) \<Longrightarrow> reg_step sr sr1"
| reg_release: "i \<in> used sr \<Longrightarrow> Registry_Release i sr = (r, sr1) \<Longrightarrow> reg_step sr sr1"

lemma GetNextAvailable_frame:
  "GetNextAvailable New ctxErr sr = (r, sr1) \<Longrightarrow>
     length (sr_sessions sr1) = length (sr_sessions sr)"
  by (auto simp: GetNextAvailable_def Let_def split: option.splits list.splits sum.splits)

lemma reg_step_inv [inv_intros]:
  "reg_step sr sr1 \<Longrightarrow> pool_inv sr \<Longrightarrow>
     pool_inv sr1 \<and> length (sr_sessions sr1) = length (sr_sessions sr)"
  by (induction rule: reg_step.induct)
    (auto dest: pool_inv_Get GetNextAvailable_frame Release_in_use)

lemma reg_steps_inv:
  "reg_step\<^sup>*\<^sup>* sr sr1 \<Longrightarrow> pool_inv sr \<Longrightarrow>
     pool_inv sr1 \<and> length (sr_sessions sr1) = length (sr_sessions sr)"
  by (induction rule: rtranclp_induct) (auto dest: reg_step_inv)

lemma lost_mono: "reg_step sr sr1 \<Longrightarrow> pool_inv sr \<Longrightarrow> lost sr \<subseteq> lost sr1"
proof (induction rule: reg_step.induct)
  case (reg_get New ctxErr sr r sr1)
  show ?case
  proof (cases "ctxErr = None \<and> sr_pool sr \<noteq> []")
    case False
    with reg_get.hyps show ?thesis
      by (auto simp: GetNextAvailable_def split: option.splits list.splits)
  next
    case True
    then obtain i rest where pool: "sr_pool sr = i # rest" by (cases "sr_pool sr") auto
    then have "i < length (sr_sessions sr)" using reg_get.prems by (auto simp: pool_inv_def)
    with True pool reg_get.hyps show ?thesis
      by (cases "New i") (auto simp: GetNextAvailable_def lost_def Let_def)
  qed
next
  case (reg_release i sr r sr1)
  with Release_in_use [of sr i] show ?case by auto
qed

definition example_pool :: "unit session_registry" where
  "example_pool = \<lparr>sr_sessions = [None, None, None], sr_pool = [1, 2], sr_wg = 0\<rparr>"

lemma example_pool_new: "NewRegistry 3 = Ret example_pool"
  by (simp add: NewRegistry_def example_pool_def numeral_3_eq_3)

section \<open>Properties\<close>



text \<open>
  Releasing a session that is in use neither panics nor blocks, in every
  state a run can reach, and puts its id back into the pool, where a later
  \<open>GetNextAvailable\<close> finds it.
\<close>

lemma registry_Release_succeeds:
  assumes "NewRegistry n = Ret sr0" and "reg_step\<^sup>*\<^sup>* sr0 sr" and "i \<in> used sr"
  shows "\<exists>sr1. Registry_Release i sr = (Ret True, sr1) \<and> i \<in> set (sr_pool sr1)
    \<and> used sr1 = used sr - {i}"
proof -
  have inv: "pool_inv sr"
    using reg_steps_inv [OF assms(2)] pool_inv_New [OF assms(1)] by auto
  from Release_in_use [OF inv assms(3)] obtain sr1
    where sr1: "Registry_Release i sr = (Ret True, sr1)" "used sr1 = used sr - {i}" by blast
  from sr1(1) have "i \<in> set (sr_pool sr1)"
    by (auto simp: Registry_Release_def Let_def split: if_splits)
  with sr1 show ?thesis by blast
qed

lemma registry_Release_succeeds_instance:
  "\<exists>sr1. Registry_Release 1 (snd (GetNextAvailable (\<lambda>i. Inr ()) None example_pool)) = (Ret True, sr1)"
proof -
  have "reg_step\<^sup>*\<^sup>* example_pool (snd (GetNextAvailable (\<lambda>i. Inr ()) None example_pool))"
    by (rule r_into_rtranclp, rule reg_get [OF surjective_pairing])
  from registry_Release_succeeds [OF example_pool_new this, of 1]
  show ?thesis
    by (auto simp: GetNextAvailable_def example_pool_def used_slots_def)
qed

text \<open>
  When building the session fails, \<open>GetNextAvailable\<close> has already taken the id
  from the pool and does not put it back: the id is lost, and no later call brings it back.
\<close>

lemma registry_New_failure_loses_id:
  assumes "pool_inv sr" and "sr_pool sr = i # rest" and "New i = Inl e"
    and "GetNextAvailable New None sr = (r, sr1)" and "reg_step\<^sup>*\<^sup>* sr1 sr2"
  shows "r = Some (Inl e) \<and> i \<in> lost sr2"
proof -
  have "i \<in> lost sr1" and r: "r = Some (Inl e)"
    using assms(1-4) by (auto simp: GetNextAvailable_def lost_def pool_inv_def Let_def)
  moreover have "pool_inv sr1" by (rule pool_inv_Get [OF assms(1,4)])
  moreover have "lost sr1 \<subseteq> lost sr2 \<and> pool_inv sr2" if "pool_inv sr1"
    using assms(5) that
  proof (induction rule: rtranclp_induct)
    case (step y z)
    then show ?case using lost_mono [of y z] reg_step_inv [of y z] by blast
  qed simp
  ultimately show ?thesis by blast
qed

lemma registry_New_failure_loses_id_instance:
  "1 \<in> lost (snd (GetNextAvailable (\<lambda>i. Inl EOF) None example_pool))"
proof -
  have "pool_inv example_pool" using pool_inv_New [OF example_pool_new] by simp
  from registry_New_failure_loses_id [OF this, of 1 "[2]" "\<lambda>i. Inl EOF" EOF,
      OF _ _ surjective_pairing rtranclp.rtrancl_refl]
  show ?thesis by (simp add: example_pool_def)
qed

text \<open>
  Seen as a pool of slots, a registry whose sessions can be built never runs
  dry: after the sessions in use have been released, in any order, all slots are free, and
  as long as not all are in use the next acquisition succeeds.
\<close>

lemma registry_release_all:
  assumes "pool_ok sr" and "distinct is" and "set is = used sr" and "1 < MaxSessions sr"
  shows "\<exists>sr1. fold (\<lambda>i m. Option.bind m (pool_release i)) is (Some sr) = Some sr1
    \<and> used sr1 = {} \<and> (\<exists>i sr2. pool_acquire mk sr1 = Some (i, sr2))"
proof -
  from registry_pool.release_all [OF assms(1-3)] obtain sr1
    where sr1: "fold (\<lambda>i m. Option.bind m (pool_release i)) is (Some sr) = Some sr1"
      "pool_ok sr1" "used sr1 = {}" "MaxSessions sr1 - 1 = MaxSessions sr - 1" by blast
  then show ?thesis
    using registry_pool.acquire_available [OF sr1(2), of mk] assms(4) by auto
qed

lemma registry_release_all_instance:
  "\<exists>i sr2. pool_acquire (\<lambda>i. ()) example_pool = Some (i, sr2)"
proof -
  have "pool_ok example_pool" "used example_pool = {}"
    using pool_inv_New [OF example_pool_new] by (simp_all add: pool_ok_def)
  then show ?thesis
    using registry_release_all [of example_pool "[]" "\<lambda>i. ()"]
    by (simp add: MaxSessions_def example_pool_def)
qed

end
