(* ===== verification/Config_Cache.thy ===== *)
theory Config_Cache
  imports Messages
begin

text \<open>
  \<^verbatim>\<open>database/cache.go\<close> and \<^verbatim>\<open>database/dbadapter.go\<close>: a cache with a time to live in front of
  the configuration database. Times are in nanoseconds; an operation gets the time of its
  call of \<open>time.Now\<close> as an argument. A slice is a list and nil the empty list: what the
  cache stores is either one element or built by \<open>append\<close> from nil.
\<close>

section \<open>The cache\<close>

record cache_entry =
  ce_expires :: int
  ce_configs :: "config_object list"

record cache =
  ca_entries :: "string \<rightharpoonup> cache_entry"
  ca_ttl :: int

definition newCache :: "int \<Rightarrow> cache" where
  "newCache ttl = \<lparr>ca_entries = Map.empty, ca_ttl = ttl\<rparr>"

definition cache_purge :: "int \<Rightarrow> cache \<Rightarrow> cache" where
  "cache_purge now c = c\<lparr>ca_entries := (\<lambda>key.
     case ca_entries c key of
       None \<Rightarrow> None
     | Some e \<Rightarrow> if ce_expires e < now then None else Some e)\<rparr>"

definition cache_SetMany :: "int \<Rightarrow> string \<Rightarrow> config_object list \<Rightarrow> cache \<Rightarrow> cache" where
  "cache_SetMany now key values c =
     (if ca_ttl c = 0 then c
      else c\<lparr>ca_entries := (ca_entries c)(key \<mapsto>
               \<lparr>ce_expires = now + ca_ttl c, ce_configs = values\<rparr>)\<rparr>)"

definition cache_Set :: "int \<Rightarrow> string \<Rightarrow> config_object \<Rightarrow> cache \<Rightarrow> cache" where
  "cache_Set now key value c = cache_SetMany now key [value] c"

definition cache_GetMany :: "int \<Rightarrow> string \<Rightarrow> cache \<Rightarrow> config_object list" where
  "cache_GetMany now key c =
     (if ca_ttl c = 0 then []
      else (case ca_entries c key of
              None \<Rightarrow> []
            | Some result \<Rightarrow> if now < ce_expires result then ce_configs result else []))"

definition cache_Get :: "int \<Rightarrow> string \<Rightarrow> cache \<Rightarrow> config_object option" where
  "cache_Get now key c =
     (case cache_GetMany now key c of [] \<Rightarrow> None | x # xs \<Rightarrow> Some x)"

lemmas cache_defs [step_defs] =
  cache_purge_def cache_SetMany_def cache_Set_def cache_GetMany_def cache_Get_def

section \<open>The contract of a cache with a time to live\<close>

datatype ('k, 'v) cache_op = StoreOp int 'k "'v list" | PurgeOp int

fun op_time :: "('k, 'v) cache_op \<Rightarrow> int" where
  "op_time (StoreOp n k v) = n"
| "op_time (PurgeOp n) = n"

text \<open>The last store for a key in a history, oldest operation first.\<close>

fun last_store :: "'k \<Rightarrow> ('k, 'v) cache_op list \<Rightarrow> (int \<times> 'v list) option" where
  "last_store k [] = None"
| "last_store k (op # ops) =
     (case last_store k ops of
        Some r \<Rightarrow> Some r
      | None \<Rightarrow> (case op of StoreOp n k' v \<Rightarrow> if k' = k then Some (n, v) else None
                 | PurgeOp n \<Rightarrow> None))"

fun run_ops ::
  "(int \<Rightarrow> 'k \<Rightarrow> 'v list \<Rightarrow> 'c \<Rightarrow> 'c) \<Rightarrow> (int \<Rightarrow> 'c \<Rightarrow> 'c) \<Rightarrow> ('k, 'v) cache_op list \<Rightarrow> 'c \<Rightarrow> 'c" where
  "run_ops store purge [] c = c"
| "run_ops store purge (StoreOp n k v # ops) c = run_ops store purge ops (store n k v c)"
| "run_ops store purge (PurgeOp n # ops) c = run_ops store purge ops (purge n c)"

text \<open>
  What is stored can be looked up until it is \<open>ttl\<close> old and not from then on, keys do not
  interfere, and a purge is invisible to every later lookup.
\<close>

locale ttl_cache =
  fixes inv :: "'c \<Rightarrow> bool"
    and ttl :: int
    and store :: "int \<Rightarrow> 'k \<Rightarrow> 'v list \<Rightarrow> 'c \<Rightarrow> 'c"
    and lookup :: "int \<Rightarrow> 'k \<Rightarrow> 'c \<Rightarrow> 'v list"
    and purge :: "int \<Rightarrow> 'c \<Rightarrow> 'c"
  assumes inv_store: "inv c \<Longrightarrow> inv (store now k v c)"
    and inv_purge: "inv c \<Longrightarrow> inv (purge now c)"
    and lookup_store: "inv c \<Longrightarrow> now \<le> t \<Longrightarrow>
        lookup t k (store now k' v c) =
          (if k = k' then if t < now + ttl then v else [] else lookup t k c)"
    and lookup_purge: "inv c \<Longrightarrow> now \<le> t \<Longrightarrow> lookup t k (purge now c) = lookup t k c"
begin

lemma lookup_history:
  assumes "inv c" and "\<forall>op \<in> set ops. op_time op \<le> t"
  shows "lookup t k (run_ops store purge ops c) =
    (case last_store k ops of
       None \<Rightarrow> lookup t k c | Some (n, v) \<Rightarrow> if t < n + ttl then v else [])"
  using assms
proof (induction ops arbitrary: c)
  case Nil
  then show ?case by simp
next
  case (Cons op ops)
  show ?case
  proof (cases op)
    case (StoreOp n k' v)
    with Cons.IH [of "store n k' v c"] Cons.prems show ?thesis
      by (auto simp: lookup_store inv_store split: option.splits)
  next
    case (PurgeOp n)
    with Cons.IH [of "purge n c"] Cons.prems show ?thesis
      by (auto simp: lookup_purge inv_purge split: option.splits)
  qed
qed

end

interpretation config_ttl: ttl_cache "\<lambda>c. ca_ttl c = ttl" ttl cache_SetMany cache_GetMany cache_purge
  for ttl :: int
  by unfold_locales
    (auto simp: cache_SetMany_def cache_GetMany_def cache_purge_def split: option.splits)

section \<open>The cached configuration\<close>

text \<open>
  The interface \<open>DbAdapter\<close> on a state \<open>'d\<close> of everything outside, whose clock \<open>time.Now\<close>
  reads. A selector query is given the key and the value of its label; its kind is always
  \<open>browserScript\<close>.
\<close>

record 'd db_adapter =
  db_now :: "'d \<Rightarrow> int"
  db_GetConfigObject :: "config_ref \<Rightarrow> 'd \<Rightarrow> (error + config_object) \<times> 'd"
  db_GetConfigsForSelector :: "string \<Rightarrow> string \<Rightarrow> 'd \<Rightarrow> (error + config_object list) \<times> 'd"

definition GetConfigObject ::
  "'d db_adapter \<Rightarrow> config_ref \<Rightarrow> cache \<Rightarrow> 'd \<Rightarrow> (error + config_object) \<times> cache \<times> 'd" where
  "GetConfigObject db ref c d =
     (case cache_Get (db_now db d) (ref_Id ref) c of
        Some cached \<Rightarrow> (Inr cached, c, d)
      | None \<Rightarrow>
          (case db_GetConfigObject db ref d of
             (Inl err, d1) \<Rightarrow> (Inl err, c, d1)
           | (Inr result, d1) \<Rightarrow>
               (Inr result, cache_Set (db_now db d1) (co_Id result) result c, d1)))"

definition getConfigsForSelector ::
  "'d db_adapter \<Rightarrow> string \<Rightarrow> cache \<Rightarrow> 'd \<Rightarrow> (error + config_object list) go \<times> cache \<times> 'd" where
  "getConfigsForSelector db selector c d =
     (let cached = cache_GetMany (db_now db d) selector c in
      if cached \<noteq> [] then (Ret (Inr cached), c, d)
      else (let t = Split selector (CHR '':'') in
            if length t < 2 then (Panic IndexOutOfRange, c, d)
            else (case db_GetConfigsForSelector db (t ! 0) (t ! 1) d of
                    (Inl err, d1) \<Rightarrow> (Ret (Inl err), c, d1)
                  | (Inr res, d1) \<Rightarrow>
                      (Ret (Inr res), cache_SetMany (db_now db d1) selector res c, d1))))"

text \<open>
  The two loops of \<open>GetScripts\<close>, with the scripts collected so far. Of a reference the message
  of an error shows the id.
\<close>

fun get_script_refs ::
  "'d db_adapter \<Rightarrow> config_ref list \<Rightarrow> config_object list \<Rightarrow> cache \<Rightarrow> 'd \<Rightarrow>
     (error + config_object list) \<times> cache \<times> 'd" where
  "get_script_refs db [] scripts c d = (Inr scripts, c, d)"
| "get_script_refs db (ref # refs) scripts c d =
     (case GetConfigObject db ref c d of
        (Inl err, c1, d1) \<Rightarrow>
          (Inl (Wrapped (''failed to get script by reference '' @ ref_Id ref @ '': '') (Some err)), c1, d1)
      | (Inr script, c1, d1) \<Rightarrow> get_script_refs db refs (scripts @ [script]) c1 d1)"

fun get_script_selectors ::
  "'d db_adapter \<Rightarrow> string list \<Rightarrow> config_object list \<Rightarrow> cache \<Rightarrow> 'd \<Rightarrow>
     (error + config_object list) go \<times> cache \<times> 'd" where
  "get_script_selectors db [] scripts c d = (Ret (Inr scripts), c, d)"
| "get_script_selectors db (selector # selectors) scripts c d =
     (case getConfigsForSelector db selector c d of
        (Panic p, c1, d1) \<Rightarrow> (Panic p, c1, d1)
      | (Ret (Inl err), c1, d1) \<Rightarrow>
          (Ret (Inl (Wrapped (''failed to get scripts by selector '' @ selector @ '': '') (Some err))), c1, d1)
      | (Ret (Inr configs), c1, d1) \<Rightarrow>
          get_script_selectors db selectors (scripts @ configs) c1 d1)"

definition GetScripts ::
  "'d db_adapter \<Rightarrow> browser_config \<Rightarrow> cache \<Rightarrow> 'd \<Rightarrow>
     (error + config_object list) go \<times> cache \<times> 'd" where
  "GetScripts db browserConfig c d =
     (case get_script_refs db (bc_ScriptRef browserConfig) [] c d of
        (Inl err, c1, d1) \<Rightarrow> (Ret (Inl err), c1, d1)
      | (Inr scripts, c1, d1) \<Rightarrow>
          get_script_selectors db (bc_ScriptSelector browserConfig) scripts c1 d1)"

section \<open>A cache that agrees with its database\<close>

text \<open>
  A database that does not change: in all states with \<open>I\<close>, which its answers keep, \<open>f\<close> gives
  the object for an id, \<open>g\<close> the objects for a selector. Ids contain no colon, as the ids of the database (UUIDs) do not, while a
  selector contains one; so the two kinds of keys do not meet in the one map.
\<close>

definition static_db :: "('d \<Rightarrow> bool) \<Rightarrow> (string \<Rightarrow> config_object) \<Rightarrow> (string \<Rightarrow> string \<Rightarrow> config_object list) \<Rightarrow>
    'd db_adapter \<Rightarrow> bool" where
  "static_db I f g db \<longleftrightarrow>
     (\<forall>ref d. I d \<longrightarrow> (\<exists>d1. db_GetConfigObject db ref d = (Inr (f (ref_Id ref)), d1) \<and> I d1))
     \<and> (\<forall>k v d. I d \<longrightarrow> (\<exists>d1. db_GetConfigsForSelector db k v d = (Inr (g k v), d1) \<and> I d1))
     \<and> (\<forall>i. co_Id (f i) = i)"

definition selected :: "(string \<Rightarrow> string \<Rightarrow> config_object list) \<Rightarrow> string \<Rightarrow> config_object list" where
  "selected g selector =
     g (Split selector (CHR '':'') ! 0) (Split selector (CHR '':'') ! 1)"

definition coherent :: "(string \<Rightarrow> config_object) \<Rightarrow> (string \<Rightarrow> string \<Rightarrow> config_object list) \<Rightarrow>
    cache \<Rightarrow> bool" where
  "coherent f g c \<longleftrightarrow> (\<forall>k e. ca_entries c k = Some e \<longrightarrow>
     ce_configs e = (if CHR '':'' \<in> set k then selected g k else [f k]))"

definition colon_free :: "string \<Rightarrow> bool" where
  "colon_free i \<longleftrightarrow> CHR '':'' \<notin> set i"

lemma coherent_new [inv_intros]: "coherent f g (newCache ttl)"
  by (simp add: coherent_def newCache_def)

lemma coherent_purge [inv_intros]: "coherent f g c \<Longrightarrow> coherent f g (cache_purge now c)"
  by (auto simp: coherent_def cache_purge_def split: option.splits if_splits)

lemma coherent_SetMany [inv_intros]:
  "coherent f g c \<Longrightarrow> vs = (if CHR '':'' \<in> set k then selected g k else [f k]) \<Longrightarrow>
     coherent f g (cache_SetMany now k vs c)"
  by (auto simp: coherent_def cache_SetMany_def)

lemma coherent_GetMany:
  "coherent f g c \<Longrightarrow> cache_GetMany now k c = vs \<Longrightarrow> vs \<noteq> [] \<Longrightarrow>
     vs = (if CHR '':'' \<in> set k then selected g k else [f k])"
  by (auto simp: coherent_def cache_GetMany_def split: if_splits option.splits)

lemma GetConfigObject_coherent:
  assumes "static_db I f g db" and "I d" and "coherent f g c" and "colon_free (ref_Id ref)"
  shows "\<exists>c1 d1. GetConfigObject db ref c d = (Inr (f (ref_Id ref)), c1, d1) \<and> coherent f g c1
    \<and> I d1"
proof (cases "cache_GetMany (db_now db d) (ref_Id ref) c")
  case Nil
  obtain d1 where "db_GetConfigObject db ref d = (Inr (f (ref_Id ref)), d1)" and "I d1"
    and "co_Id (f (ref_Id ref)) = ref_Id ref"
    using assms(1,2) by (force simp: static_db_def)
  with Nil assms(3,4) show ?thesis
    by (auto simp: GetConfigObject_def cache_Get_def cache_Set_def colon_free_def
        intro: coherent_SetMany)
next
  case (Cons x xs)
  then have "x = f (ref_Id ref)"
    using coherent_GetMany [OF assms(3) Cons] assms(4) by (simp add: colon_free_def)
  with Cons assms(2,3) show ?thesis by (auto simp: GetConfigObject_def cache_Get_def)
qed

lemma Split_two: "sep \<in> set s \<Longrightarrow> 2 \<le> length (Split s sep)"
  by (simp add: Split_length Suc_le_eq) (metis count_list_0_iff gr0I)

lemma getConfigsForSelector_coherent:
  assumes "static_db I f g db" and "I d" and "coherent f g c" and "\<not> colon_free sel"
  shows "\<exists>c1 d1. getConfigsForSelector db sel c d = (Ret (Inr (selected g sel)), c1, d1)
    \<and> coherent f g c1 \<and> I d1"
proof (cases "cache_GetMany (db_now db d) sel c = []")
  case True
  obtain d1 where "db_GetConfigsForSelector db (Split sel (CHR '':'') ! 0)
      (Split sel (CHR '':'') ! 1) d = (Inr (selected g sel), d1)" "I d1"
    using assms(1,2) by (force simp: static_db_def selected_def)
  moreover have "\<not> length (Split sel (CHR '':'')) < 2"
    using assms(4) Split_two [of "CHR '':''" sel] by (auto simp: colon_free_def)
  ultimately show ?thesis
    using True assms(3,4)
    by (auto simp: getConfigsForSelector_def Let_def colon_free_def intro: coherent_SetMany)
next
  case False
  then show ?thesis
    using coherent_GetMany [OF assms(3) refl False] assms(2-4)
    by (simp add: getConfigsForSelector_def colon_free_def)
qed

lemma get_script_refs_coherent:
  assumes "static_db I f g db" and "I d" and "coherent f g c" and "\<forall>r \<in> set refs. colon_free (ref_Id r)"
  shows "\<exists>c1 d1. get_script_refs db refs scripts c d
      = (Inr (scripts @ map (f \<circ> ref_Id) refs), c1, d1) \<and> coherent f g c1 \<and> I d1"
  using assms(2-4)
proof (induction refs arbitrary: scripts c d)
  case Nil
  then show ?case by simp
next
  case (Cons r refs)
  then obtain c1 d1 where "GetConfigObject db r c d = (Inr (f (ref_Id r)), c1, d1)"
    and "coherent f g c1" "I d1"
    using GetConfigObject_coherent [OF assms(1)] by (metis list.set_intros(1))
  with Cons.IH [of d1 c1 "scripts @ [f (ref_Id r)]"] Cons.prems show ?case by simp
qed

lemma get_script_selectors_coherent:
  assumes "static_db I f g db" and "I d" and "coherent f g c" and "\<forall>s \<in> set sels. \<not> colon_free s"
  shows "\<exists>c1 d1. get_script_selectors db sels scripts c d
      = (Ret (Inr (scripts @ concat (map (selected g) sels))), c1, d1) \<and> coherent f g c1 \<and> I d1"
  using assms(2-4)
proof (induction sels arbitrary: scripts c d)
  case Nil
  then show ?case by simp
next
  case (Cons s sels)
  then obtain c1 d1 where "getConfigsForSelector db s c d = (Ret (Inr (selected g s)), c1, d1)"
    and "coherent f g c1" "I d1"
    using getConfigsForSelector_coherent [OF assms(1)] by (metis list.set_intros(1))
  with Cons.IH [of d1 c1 "scripts @ selected g s"] Cons.prems show ?case by simp
qed

text \<open>A selector that matches nothing is asked for again every time: an empty result is not cached.\<close>

lemma empty_selection_not_cached:
  assumes "cache_GetMany (db_now db d) sel c = []" and "length (Split sel (CHR '':'')) = 2"
    and "db_GetConfigsForSelector db (Split sel (CHR '':'') ! 0) (Split sel (CHR '':'') ! 1) d
           = (Inr [], d1)"
    and "getConfigsForSelector db sel c d = (r, c1, d1)"
  shows "cache_GetMany t sel c1 = []"
  using assms by (auto simp: getConfigsForSelector_def cache_SetMany_def cache_GetMany_def Let_def
      split: if_splits)

section \<open>Examples for the witnesses\<close>

definition example_config :: "string \<Rightarrow> config_object" where
  "example_config i = \<lparr>co_Id = i, co_Meta = None, co_Spec = NoSpec\<rparr>"

text \<open>A database that has every id, whose state is the time, and which answers in no time.\<close>

definition example_db :: "int db_adapter" where
  "example_db = \<lparr>db_now = id,
     db_GetConfigObject = (\<lambda>ref d. (Inr (example_config (ref_Id ref)), d)),
     db_GetConfigsForSelector = (\<lambda>k v d. (Inr [example_config k, example_config v], d))\<rparr>"

definition example_browser_config :: browser_config where
  "example_browser_config = \<lparr>bc_UserAgent = [], bc_WindowWidth = 1400, bc_WindowHeight = 1280,
     bc_PageLoadTimeoutMs = 60000, bc_MaxInactivityTimeMs = 5000,
     bc_ScriptRef = [\<lparr>ref_Id = ''s1''\<rparr>], bc_ScriptSelector = [''a:b'']\<rparr>"

lemma example_db_static: "static_db (\<lambda>_. True) example_config (\<lambda>k v. [example_config k, example_config v]) example_db"
  by (simp add: static_db_def example_db_def example_config_def)

section \<open>Properties\<close>

text \<open>
  C33 (functional). After any history of stores and purges, none of them later than \<open>t\<close>, a
  lookup at time \<open>t\<close> gives the values of the last store for the key if that store is less
  than the time to live old, and nothing otherwise: purging and other keys make no
  difference, and a time to live of 0 switches the cache off.
\<close>

theorem cache_GetMany_history:
  assumes "\<forall>op \<in> set ops. op_time op \<le> t"
  shows "cache_GetMany t k (run_ops cache_SetMany cache_purge ops (newCache ttl)) =
    (case last_store k ops of None \<Rightarrow> []
     | Some (n, vs) \<Rightarrow> if t < n + ttl then vs else [])"
proof -
  have "cache_GetMany t k (newCache ttl) = []"
    by (simp add: cache_GetMany_def newCache_def)
  then show ?thesis
    using config_ttl.lookup_history [of "newCache ttl" ttl ops t k] assms
    by (simp add: newCache_def cong: option.case_cong)
qed

theorem cache_GetMany_history_witness:
  "cache_GetMany 150 ''k'' (run_ops cache_SetMany cache_purge
     [StoreOp 0 ''k'' [example_config ''1''], PurgeOp 120, StoreOp 130 ''l'' []] (newCache 100)) = []"
  using cache_GetMany_history [of "[StoreOp 0 ''k'' [example_config ''1''], PurgeOp 120,
      StoreOp 130 ''l'' []]" 150 "''k''" 100] by simp

text \<open>
  In front of a database that does not change and as long as ids have no colon and selectors
  have one, \<open>GetScripts\<close> returns exactly what the database has, the referenced scripts in
  order and then the selected ones in order, whatever the time and whatever the cache holds
  of earlier answers; and the cache keeps agreeing with the database.
\<close>

lemma GetScripts_static:
  assumes "static_db I f g db" and "I d" and "coherent f g c"
    and "\<forall>r \<in> set (bc_ScriptRef bc). colon_free (ref_Id r)"
    and "\<forall>s \<in> set (bc_ScriptSelector bc). \<not> colon_free s"
  shows "\<exists>c1 d1. GetScripts db bc c d
      = (Ret (Inr (map (f \<circ> ref_Id) (bc_ScriptRef bc)
                    @ concat (map (selected g) (bc_ScriptSelector bc)))), c1, d1)
    \<and> coherent f g c1 \<and> I d1"
proof -
  obtain c1 d1 where refs: "get_script_refs db (bc_ScriptRef bc) [] c d
      = (Inr (map (f \<circ> ref_Id) (bc_ScriptRef bc)), c1, d1)" and c1: "I d1" "coherent f g c1"
    using get_script_refs_coherent [OF assms(1-4), of "[]"] by auto
  from get_script_selectors_coherent [OF assms(1) c1 assms(5)] refs
  show ?thesis by (simp add: GetScripts_def)
qed

text \<open>
  An object fetched once is served from the cache, without asking the
  database again, until it is the time to live old; from then on the database is asked.
\<close>

lemma GetConfigObject_cached:
  assumes "GetConfigObject db ref c d = (Inr r, c1, d1)"
    and "cache_Get (db_now db d) (ref_Id ref) c = None" and "co_Id r = ref_Id ref"
    and "db_now db d1 \<le> db_now db d2"
  shows "if db_now db d2 < db_now db d1 + ca_ttl c
    then GetConfigObject db ref c1 d2 = (Inr r, c1, d2)
    else fst (GetConfigObject db ref c1 d2) = fst (db_GetConfigObject db ref d2)"
proof -
  have c1: "c1 = cache_SetMany (db_now db d1) (ref_Id ref) [r] c"
    using assms(1-3) by (auto simp: GetConfigObject_def cache_Set_def split: prod.splits sum.splits)
  have hit: "cache_GetMany (db_now db d2) (ref_Id ref) c1
      = (if db_now db d2 < db_now db d1 + ca_ttl c then [r] else [])"
    using config_ttl.lookup_store [OF refl assms(4)] unfolding c1 by simp
  then show ?thesis
    by (auto simp: GetConfigObject_def cache_Get_def split: prod.splits sum.splits)
qed

lemma GetConfigObject_cached_instance:
  "\<exists>c1. GetConfigObject example_db \<lparr>ref_Id = ''1''\<rparr> c1 60 = (Inr (example_config ''1''), c1, 60)"
proof -
  let ?ref = "\<lparr>ref_Id = ''1''\<rparr>"
  let ?c1 = "cache_Set 10 ''1'' (example_config ''1'') (newCache 100)"
  have "GetConfigObject example_db ?ref (newCache 100) 10 = (Inr (example_config ''1''), ?c1, 10)"
    by (simp add: GetConfigObject_def cache_Get_def cache_GetMany_def newCache_def example_db_def
        example_config_def)
  from GetConfigObject_cached [OF this, of 60]
  have "GetConfigObject example_db ?ref ?c1 60 = (Inr (example_config ''1''), ?c1, 60)"
    by (simp add: cache_Get_def cache_GetMany_def newCache_def example_db_def example_config_def)
  then show ?thesis by blast
qed

text \<open>
  A selector that is not of the form key:value is not reported as an error: the
  split has one piece, and reading the second one panics (the panic is then recovered by
  \<open>Fetch\<close>).
\<close>

lemma GetScripts_bad_selector_panics:
  assumes "colon_free sel" and "cache_GetMany (db_now db d) sel c = []"
    and "bc_ScriptRef bc = []" and "bc_ScriptSelector bc = sel # sels"
  shows "GetScripts db bc c d = (Panic IndexOutOfRange, c, d)"
  using assms by (simp add: GetScripts_def getConfigsForSelector_def colon_free_def Split_no_sep)

lemma GetScripts_bad_selector_panics_instance:
  "fst (GetScripts example_db (example_browser_config\<lparr>bc_ScriptRef := [],
      bc_ScriptSelector := [''label'']\<rparr>) (newCache 100) 0) = Panic IndexOutOfRange"
  using GetScripts_bad_selector_panics [of "''label''" example_db 0 "newCache 100"
      "example_browser_config\<lparr>bc_ScriptRef := [], bc_ScriptSelector := [''label'']\<rparr>" "[]"]
  by (simp add: colon_free_def cache_GetMany_def newCache_def)

end
