(* ===== verification/Rethink.thy ===== *)
theory Rethink
  imports Config_Cache
begin

text \<open>
  \<^verbatim>\<open>database/database.go\<close>: queries against RethinkDB with a bounded number of attempts. The
  driver is outside: a query, the wait for the database and the reconnection are functions
  on the state \<open>'w\<close> of the connection and the database, given as arguments.
\<close>

section \<open>Execution with retries\<close>

text \<open>
  The errors of the driver the code tells apart: \<open>r.ErrQueryTimeout\<close>,
  \<open>r.ErrConnectionClosed\<close> and all others.
\<close>

datatype db_error = ErrQueryTimeout | ErrConnectionClosed | OtherDbError error

record 'w connection_ops =
  op_wait :: "'w \<Rightarrow> 'w"
  op_Connect :: "'w \<Rightarrow> 'w"

text \<open>
  The loop of \<open>execWithRetry\<close> with the attempts made so far. The error is the number of
  attempts made and the last error of the query (\<open>"failed to %s after %d of %d attempts: %w"\<close>);
  its text is put together by \<open>retry_error\<close> below;
  errors of waiting and reconnecting are only logged. \<open>q\<close> is one \<open>exec\<close>: the query under
  the query timeout.
\<close>

function execWithRetry_loop ::
  "'w connection_ops \<Rightarrow> int \<Rightarrow> ('w \<Rightarrow> (db_error + 'c) \<times> 'w) \<Rightarrow> int \<Rightarrow> 'w \<Rightarrow>
     (int \<times> db_error + 'c) \<times> 'w" where
  "execWithRetry_loop ops maxRetries q attempts w =
     (let attempts1 = attempts + 1 in
      case q w of
        (Inr cursor, w1) \<Rightarrow> (Inr cursor, w1)
      | (Inl ErrQueryTimeout, w1) \<Rightarrow>
          (if maxRetries < attempts1 then (Inl (attempts1, ErrQueryTimeout), op_wait ops w1)
           else execWithRetry_loop ops maxRetries q attempts1 (op_wait ops w1))
      | (Inl ErrConnectionClosed, w1) \<Rightarrow>
          (if maxRetries < attempts1 then (Inl (attempts1, ErrConnectionClosed), op_Connect ops w1)
           else execWithRetry_loop ops maxRetries q attempts1 (op_Connect ops w1))
      | (Inl (OtherDbError e), w1) \<Rightarrow> (Inl (attempts1, OtherDbError e), w1))"
  by pat_completeness auto
termination
  by (relation "measure (\<lambda>(ops, maxRetries, q, attempts, w). nat (maxRetries + 1 - attempts))") auto

declare execWithRetry_loop.simps [simp del]

definition execWithRetry ::
  "'w connection_ops \<Rightarrow> int \<Rightarrow> ('w \<Rightarrow> (db_error + 'c) \<times> 'w) \<Rightarrow> 'w \<Rightarrow>
     (int \<times> db_error + 'c) \<times> 'w" where
  "execWithRetry ops maxRetries q w = execWithRetry_loop ops maxRetries q 0 w"

section \<open>Queries\<close>

text \<open>
  A cursor: the rows it delivers and the error it ends with. \<open>GetConfigObject\<close> takes one
  row, \<open>GetConfigsForSelector\<close> all of them, copying each row before the next one is read
  into the same variable. \<open>r.ErrEmptyResult\<close>, an error of \<open>One\<close>, is an argument.
\<close>

record cursor =
  cur_rows :: "config_object list"
  cur_err :: "error option"

fun driver_error :: "db_error \<Rightarrow> error" where
  "driver_error ErrQueryTimeout = DbQueryTimeout"
| "driver_error ErrConnectionClosed = DbConnectionClosed"
| "driver_error (OtherDbError e) = e"

definition retry_error :: "string \<Rightarrow> int \<Rightarrow> int \<times> db_error \<Rightarrow> error" where
  "retry_error name maxRetries e = (case e of (attempts, err) \<Rightarrow>
     Wrapped (''failed to '' @ name @ '' after '' @ Itoa attempts @ '' of '' @ Itoa (maxRetries + 1)
       @ '' attempts: '') (Some (driver_error err)))"

definition rethink_GetConfigObject ::
  "'w connection_ops \<Rightarrow> int \<Rightarrow> error \<Rightarrow> (string \<Rightarrow> 'w \<Rightarrow> (db_error + cursor) \<times> 'w) \<Rightarrow>
     config_ref \<Rightarrow> 'w \<Rightarrow> (error + config_object) \<times> 'w" where
  "rethink_GetConfigObject ops maxRetries emptyErr get ref w =
     (case execWithRetry ops maxRetries (get (ref_Id ref)) w of
        (Inl e, w1) \<Rightarrow> (Inl (retry_error ''get-config-object'' maxRetries e), w1)
      | (Inr cur, w1) \<Rightarrow>
          (case cur_rows cur of
             x # xs \<Rightarrow> (Inr x, w1)
           | [] \<Rightarrow> (Inl (case cur_err cur of Some e \<Rightarrow> e | None \<Rightarrow> emptyErr), w1)))"

fun copy_rows :: "config_object list \<Rightarrow> config_object list \<Rightarrow> config_object list" where
  "copy_rows [] configObjects = configObjects"
| "copy_rows (row # rows) configObjects = copy_rows rows (configObjects @ [row])"

definition rethink_GetConfigsForSelector ::
  "'w connection_ops \<Rightarrow> int \<Rightarrow> (string \<Rightarrow> string \<Rightarrow> 'w \<Rightarrow> (db_error + cursor) \<times> 'w) \<Rightarrow>
     string \<Rightarrow> string \<Rightarrow> 'w \<Rightarrow> (error + config_object list) \<times> 'w" where
  "rethink_GetConfigsForSelector ops maxRetries query key value w =
     (case execWithRetry ops maxRetries (query key value) w of
        (Inl e, w1) \<Rightarrow> (Inl (retry_error ''get-configs-by-label'' maxRetries e), w1)
      | (Inr cur, w1) \<Rightarrow>
          (let configObjects = copy_rows (cur_rows cur) []
           in case cur_err cur of Some e \<Rightarrow> (Inl e, w1) | None \<Rightarrow> (Inr configObjects, w1)))"

lemma copy_rows_eq: "copy_rows rows acc = acc @ rows"
  by (induction rows acc rule: copy_rows.induct) auto

section \<open>Counting attempts\<close>

definition retryable :: "db_error \<Rightarrow> bool" where
  "retryable e \<longleftrightarrow> e = ErrQueryTimeout \<or> e = ErrConnectionClosed"

text \<open>The query with a counter of how often it was run beside its state.\<close>

definition counted ::
  "('w \<Rightarrow> (db_error + 'c) \<times> 'w) \<Rightarrow> 'w \<times> int \<Rightarrow> (db_error + 'c) \<times> 'w \<times> int" where
  "counted q w = (let (r, w1) = q (fst w) in (r, w1, snd w + 1))"

definition counted_ops :: "'w connection_ops \<Rightarrow> ('w \<times> int) connection_ops" where
  "counted_ops ops = \<lparr>op_wait = (\<lambda>(w, n). (op_wait ops w, n)),
     op_Connect = (\<lambda>(w, n). (op_Connect ops w, n))\<rparr>"

lemma execWithRetry_loop_counts:
  assumes "attempts \<le> max 0 maxRetries" and "0 \<le> attempts"
    and "execWithRetry_loop (counted_ops ops) maxRetries (counted q) attempts (w, attempts)
           = (r, w1, n)"
  shows "attempts < n \<and> n \<le> max 0 maxRetries + 1
    \<and> (\<forall>k e. r = Inl (k, e) \<longrightarrow> k = n \<and> (retryable e \<longrightarrow> n = max 0 maxRetries + 1))"
  using assms
proof (induction "nat (maxRetries + 1 - attempts)" arbitrary: attempts w rule: less_induct)
  case less
  obtain x w2 where q: "q w = (x, w2)" by (cases "q w")
  let ?go = "\<lambda>w3. execWithRetry_loop (counted_ops ops) maxRetries (counted q) (attempts + 1)
      (w3, attempts + 1)"
  have step: "\<lbrakk>attempts + 1 \<le> maxRetries; ?go w3 = (r, w1, n)\<rbrakk> \<Longrightarrow> ?case" for w3
    using less.hyps [of "attempts + 1" w3] less.prems by auto
  show ?case
  proof (cases x)
    case (Inr c)
    with less.prems q show ?thesis
      by (auto simp: execWithRetry_loop.simps [of _ _ _ attempts] counted_def Let_def)
  next
    case (Inl e)
    then show ?thesis
      using less.prems q step [of "op_wait ops w2"] step [of "op_Connect ops w2"]
      by (cases e)
        (auto simp: execWithRetry_loop.simps [of _ _ _ attempts] counted_def counted_ops_def
          Let_def retryable_def split: if_splits)
  qed
qed

section \<open>Properties\<close>

text \<open>
  C32 (bounds). A query is run at least once and at most \<open>maxRetries + 1\<close> times (once, when
  \<open>maxRetries\<close> is negative); a failure reports the number of times it was run, and after a
  time-out or a closed connection it gives up only when all attempts are used.
\<close>

theorem execWithRetry_attempts:
  assumes "execWithRetry (counted_ops ops) maxRetries (counted q) (w, 0) = (r, w1, n)"
  shows "1 \<le> n \<and> n \<le> max 0 maxRetries + 1
    \<and> (case r of Inr c \<Rightarrow> True
       | Inl (k, e) \<Rightarrow> k = n \<and> (retryable e \<longrightarrow> n = max 0 maxRetries + 1))"
  using execWithRetry_loop_counts [of 0 maxRetries ops q w r w1 n] assms
  by (auto simp: execWithRetry_def split: sum.splits)

text \<open>A connection that delivers the given outcomes one after the other.\<close>

fun scripted :: "(db_error + 'c) list \<Rightarrow> (db_error + 'c) \<times> (db_error + 'c) list" where
  "scripted [] = (Inl ErrConnectionClosed, [])"
| "scripted (r # rs) = (r, rs)"

definition scripted_ops :: "'w connection_ops" where
  "scripted_ops = \<lparr>op_wait = id, op_Connect = id\<rparr>"

lemma counted_scripted [simp]: "counted scripted (r # rs, n) = (r, rs, n + 1)"
  by (simp add: counted_def)

theorem execWithRetry_attempts_witness:
  "1 \<le> (3::int) \<and> 3 \<le> max 0 (2::int) + 1"
proof -
  let ?outs = "[Inl ErrQueryTimeout, Inl ErrConnectionClosed, Inl ErrQueryTimeout, Inr ()]
      :: (db_error + unit) list"
  have "execWithRetry (counted_ops scripted_ops) 2 (counted scripted) (?outs, 0)
      = (Inl (3, ErrQueryTimeout), [Inr ()], 3)"
    by (simp add: execWithRetry_def execWithRetry_loop.simps counted_ops_def scripted_ops_def)
  from execWithRetry_attempts [OF this] show ?thesis by simp
qed

text \<open>
  The result is that of the first attempt that does not fail in a
  retryable way, if it is among the first \<open>maxRetries + 1\<close>: a success is returned, another
  error ends the loop at once.
\<close>

lemma execWithRetry_loop_first:
  assumes "\<forall>e \<in> set errs. retryable e" and "attempts + int (length errs) \<le> max 0 maxRetries"
    and "0 \<le> attempts" and "\<forall>e. out = Inl e \<longrightarrow> \<not> retryable e"
  shows "fst (execWithRetry_loop scripted_ops maxRetries scripted attempts
      (map Inl errs @ [out]))
    = (case out of Inr c \<Rightarrow> Inr c | Inl e \<Rightarrow> Inl (attempts + int (length errs) + 1, e))"
  using assms
proof (induction errs arbitrary: attempts)
  case Nil
  then show ?case
    by (auto simp: execWithRetry_loop.simps [of _ _ _ attempts] retryable_def Let_def
        split: sum.splits db_error.splits)
next
  case (Cons e errs)
  have "fst (execWithRetry_loop scripted_ops maxRetries scripted (attempts + 1)
      (map Inl errs @ [out]))
    = (case out of Inr c \<Rightarrow> Inr c | Inl e \<Rightarrow> Inl (attempts + 1 + int (length errs) + 1, e))"
    by (rule Cons.IH) (use Cons.prems in auto)
  moreover have "attempts + 1 \<le> maxRetries" using Cons.prems(2,3) by auto
  ultimately show ?case
    using Cons.prems(1)
    by (auto simp: execWithRetry_loop.simps [of _ _ _ attempts] retryable_def Let_def
        scripted_ops_def add.commute add.left_commute split: sum.splits)
qed

lemma execWithRetry_first_conclusive:
  assumes "\<forall>e \<in> set errs. retryable e" and "int (length errs) \<le> max 0 maxRetries"
    and "\<forall>e. out = Inl e \<longrightarrow> \<not> retryable e"
  shows "fst (execWithRetry scripted_ops maxRetries scripted (map Inl errs @ [out]))
    = (case out of Inr c \<Rightarrow> Inr c | Inl e \<Rightarrow> Inl (int (length errs) + 1, e))"
  using execWithRetry_loop_first [of errs 0 maxRetries out] assms
  by (simp add: execWithRetry_def split: sum.splits)

lemma execWithRetry_first_conclusive_instance:
  "fst (execWithRetry scripted_ops 5 scripted [Inl ErrQueryTimeout, Inr (7::nat)]) = Inr 7"
  using execWithRetry_first_conclusive [of "[ErrQueryTimeout]" 5 "Inr (7::nat)"]
  by (simp add: retryable_def)

end
