(* ===== verification/Connections.thy ===== *)
theory Connections
  imports Messages
begin

text \<open>
  \<^verbatim>\<open>serviceconnections/\<close>: the settings of a connection to a service, dialling and closing
  it. The gRPC connection is a value of type \<open>'c\<close>; dialling and closing are parameters.
\<close>

section \<open>Options\<close>

record 'd connection_options =
  opt_serviceName :: string
  opt_host :: string
  opt_port :: int
  opt_connectTimeout :: int
  opt_dialOptions :: "'d list"

definition Addr :: "'d connection_options \<Rightarrow> string" where
  "Addr opts = opt_host opts @ '':'' @ Itoa (opt_port opts)"

text \<open>An option is applied to the settings it changes.\<close>

type_synonym 'd connection_option = "'d connection_options \<Rightarrow> 'd connection_options"

definition EmptyConnectionOption :: "'d connection_option" where
  "EmptyConnectionOption c = c"

text \<open>Durations are in nanoseconds.\<close>

definition defaultConnectionOptions :: "string \<Rightarrow> 'd connection_options" where
  "defaultConnectionOptions serviceName =
     \<lparr>opt_serviceName = serviceName, opt_host = [], opt_port = 0,
      opt_connectTimeout = 10 * 1000000000, opt_dialOptions = []\<rparr>"

definition Conn_WithHost :: "string \<Rightarrow> 'd connection_option" where
  "Conn_WithHost host c = c\<lparr>opt_host := host\<rparr>"

definition Conn_WithPort :: "int \<Rightarrow> 'd connection_option" where
  "Conn_WithPort port c = c\<lparr>opt_port := port\<rparr>"

definition Conn_WithDialOptions :: "'d list \<Rightarrow> 'd connection_option" where
  "Conn_WithDialOptions dialOption c = c\<lparr>opt_dialOptions := dialOption\<rparr>"

definition Conn_WithConnectTimeout :: "int \<Rightarrow> 'd connection_option" where
  "Conn_WithConnectTimeout connectTimeout c = c\<lparr>opt_connectTimeout := connectTimeout\<rparr>"

section \<open>Connecting and closing\<close>

record ('c, 'd) client_conn =
  conn_conn :: "'c option"
  conn_opts :: "'d connection_options"

definition NewClientConn ::
  "string \<Rightarrow> 'd connection_option list \<Rightarrow> ('c, 'd) client_conn" where
  "NewClientConn serviceName opts =
     \<lparr>conn_conn = None, conn_opts = apply_options opts (defaultConnectionOptions serviceName)\<rparr>"

text \<open>
  \<open>dial addr timeout options\<close> stands for \<open>grpc.DialContext\<close> with a context of that timeout;
  \<open>insecure\<close> are the two options the code appends, \<open>err_text\<close> and \<open>dur_text\<close> the texts of
  errors and durations.
\<close>

definition connectService ::
  "(string \<Rightarrow> int \<Rightarrow> 'd list \<Rightarrow> error + 'c) \<Rightarrow> 'd list \<Rightarrow> (error \<Rightarrow> string) \<Rightarrow> (int \<Rightarrow> string) \<Rightarrow>
     'd connection_options \<Rightarrow> error + 'c" where
  "connectService dial insecure err_text dur_text opts =
     (case dial (Addr opts) (opt_connectTimeout opts) (opt_dialOptions opts @ insecure) of
        Inl err \<Rightarrow>
          if errors_Is (Some err) ContextDeadlineExceeded
          then Inl (PlainError (''failed to connect to '' @ opt_serviceName opts @ '' at ''
                 @ Addr opts @ '' within '' @ dur_text (opt_connectTimeout opts) @ '': ''
                 @ err_text err))
          else Inl err
      | Inr clientConn \<Rightarrow> Inr clientConn)"

definition ClientConn_Connect ::
  "('d connection_options \<Rightarrow> error + 'c) \<Rightarrow> ('c, 'd) client_conn \<Rightarrow>
     error option \<times> ('c, 'd) client_conn" where
  "ClientConn_Connect connect c =
     (case connect (conn_opts c) of
        Inl e \<Rightarrow> (Some e, c\<lparr>conn_conn := None\<rparr>)
      | Inr conn \<Rightarrow> (None, c\<lparr>conn_conn := Some conn\<rparr>))"

definition ClientConn_Close ::
  "('c \<Rightarrow> error option) \<Rightarrow> ('c, 'd) client_conn \<Rightarrow> error option" where
  "ClientConn_Close close c =
     (case conn_conn c of
        Some conn \<Rightarrow>
          (case close conn of
             None \<Rightarrow> Some (Wrapped (opt_serviceName (conn_opts c) @ '': '') None)
           | Some err \<Rightarrow> None)
      | None \<Rightarrow> None)"

definition ClientConn_Connection :: "('c, 'd) client_conn \<Rightarrow> 'c option" where
  "ClientConn_Connection c = conn_conn c"

lemmas connection_defs [step_defs] =
  connectService_def ClientConn_Connect_def ClientConn_Close_def NewClientConn_def

text \<open>
  \<open>Close\<close> of an open connection reports an error exactly when closing it
  succeeded, an error that wraps nil, and swallows the error of a failed close.
\<close>

lemma ClientConn_Close_inverted:
  assumes "ClientConn_Connect connect c = (None, c1)"
  shows "(ClientConn_Close close c1 = None) = (close (the (ClientConn_Connection c1)) \<noteq> None)
    \<and> (\<forall>e. ClientConn_Close close c1 = Some e \<longrightarrow>
         e = Wrapped (opt_serviceName (conn_opts c) @ '': '') None)"
  using assms
  by (auto simp: ClientConn_Connect_def ClientConn_Close_def ClientConn_Connection_def
      split: sum.splits option.splits)

lemma ClientConn_Close_inverted_instance:
  "ClientConn_Close (\<lambda>_. None) \<lparr>conn_conn = Some (7::nat),
     conn_opts = defaultConnectionOptions ''Frontier'' :: unit connection_options\<rparr> \<noteq> None"
proof -
  have "ClientConn_Connect (\<lambda>_. Inr (7::nat))
      (NewClientConn ''Frontier'' [] :: (nat, unit) client_conn)
    = (None, \<lparr>conn_conn = Some 7, conn_opts = defaultConnectionOptions ''Frontier''\<rparr>)"
    by (simp add: ClientConn_Connect_def NewClientConn_def)
  from ClientConn_Close_inverted [OF this, of "\<lambda>_. None"] show ?thesis by simp
qed

lemma connectService_timeout:
  assumes "dial (Addr opts) (opt_connectTimeout opts) (opt_dialOptions opts @ insecure) = Inl err"
    and "errors_Is (Some err) ContextDeadlineExceeded"
  shows "\<exists>msg. connectService dial insecure err_text dur_text opts = Inl (PlainError msg)
    \<and> HasPrefix msg (''failed to connect to '' @ opt_serviceName opts)"
  using assms by (auto simp: connectService_def HasPrefix_iff)

lemma NewClientConn_last_port:
  "opt_port (conn_opts (NewClientConn name (opts @ [Conn_WithPort p]))) = p"
  by (simp add: NewClientConn_def apply_options_append Conn_WithPort_def)

end
