(* ===== verification/Robots.thy ===== *)
theory Robots
  imports Messages
begin

text \<open>
  \<^verbatim>\<open>robotsevaluator/robotsevaluator.go\<close>: whether a request is allowed by robots.txt. The
  browser controller asks the evaluator only for the \<open>CLASSIC\<close> policies; the others are
  enforced elsewhere.
\<close>

section \<open>Policies\<close>

record is_allowed_request =
  ia_JobExecutionId :: string
  ia_ExecutionId :: string
  ia_Uri :: string
  ia_UserAgent :: string
  ia_Politeness :: "config_object option"
  ia_CollectionRef :: "config_ref option"

definition GetPolitenessConfig :: "config_object option \<Rightarrow> politeness_config option" where
  "GetPolitenessConfig c =
     (case c of None \<Rightarrow> None
      | Some co \<Rightarrow> (case co_Spec co of PolitenessSpec pc \<Rightarrow> Some pc | _ \<Rightarrow> None))"

definition GetRobotsPolicy :: "politeness_config option \<Rightarrow> robots_policy" where
  "GetRobotsPolicy pc = (case pc of None \<Rightarrow> OBEY_ROBOTS | Some p \<Rightarrow> pc_RobotsPolicy p)"

fun resolved_policy :: "robots_policy \<Rightarrow> robots_policy" where
  "resolved_policy OBEY_ROBOTS_CLASSIC = OBEY_ROBOTS"
| "resolved_policy CUSTOM_ROBOTS_CLASSIC = CUSTOM_ROBOTS"
| "resolved_policy CUSTOM_IF_MISSING_CLASSIC = CUSTOM_IF_MISSING"
| "resolved_policy _ = IGNORE_ROBOTS"

text \<open>
  \<open>resolvePolicy\<close> clones the configuration object and writes the policy into the clone's
  politeness config, which panics when there is none.
\<close>

definition set_policy :: "robots_policy \<Rightarrow> config_object option \<Rightarrow> config_object option go" where
  "set_policy p c =
     (case c of
        None \<Rightarrow> Panic NilDereference
      | Some co \<Rightarrow>
          (case co_Spec co of
             PolitenessSpec pc \<Rightarrow>
               Ret (Some (co\<lparr>co_Spec := PolitenessSpec (pc\<lparr>pc_RobotsPolicy := p\<rparr>)\<rparr>))
           | _ \<Rightarrow> Panic NilDereference))"

definition resolvePolicy :: "config_object option \<Rightarrow> (config_object option \<times> bool) go" where
  "resolvePolicy politenessConfig =
     (let p = resolved_policy (GetRobotsPolicy (GetPolitenessConfig politenessConfig))
      in go_bind (set_policy p politenessConfig) (\<lambda>c. Ret (c, p = IGNORE_ROBOTS)))"

section \<open>IsAllowed\<close>

text \<open>The call of the evaluator is a parameter over the state of the world.\<close>

definition IsAllowed ::
  "(is_allowed_request \<Rightarrow> 'w \<Rightarrow> (error + bool) \<times> 'w) \<Rightarrow> is_allowed_request \<Rightarrow> 'w \<Rightarrow>
     bool go \<times> 'w" where
  "IsAllowed rpc request w =
     (case resolvePolicy (ia_Politeness request) of
        Panic p \<Rightarrow> (Panic p, w)
      | Ret (resolvedPoliteness, ignore) \<Rightarrow>
          if ignore then (Ret True, w)
          else (case rpc (request\<lparr>ia_Politeness := resolvedPoliteness\<rparr>) w of
                  (Inl e, w1) \<Rightarrow> (Ret True, w1)
                | (Inr allowed, w1) \<Rightarrow> (Ret allowed, w1)))"

lemmas robots_defs [step_defs] = set_policy_def resolvePolicy_def IsAllowed_def

definition classic :: "robots_policy \<Rightarrow> bool" where
  "classic p \<longleftrightarrow> p \<in> {OBEY_ROBOTS_CLASSIC, CUSTOM_ROBOTS_CLASSIC, CUSTOM_IF_MISSING_CLASSIC}"

lemma resolved_ignores: "resolved_policy p = IGNORE_ROBOTS \<longleftrightarrow> \<not> classic p"
  by (cases p) (auto simp: classic_def)

lemma resolvePolicy_Some:
  "co_Spec co = PolitenessSpec pc \<Longrightarrow>
   resolvePolicy (Some co) = Ret (Some (co\<lparr>co_Spec := PolitenessSpec
       (pc\<lparr>pc_RobotsPolicy := resolved_policy (pc_RobotsPolicy pc)\<rparr>)\<rparr>), \<not> classic (pc_RobotsPolicy pc))"
  by (simp add: resolvePolicy_def set_policy_def GetPolitenessConfig_def GetRobotsPolicy_def
      resolved_ignores)

lemma resolvePolicy_none:
  "GetPolitenessConfig c = None \<Longrightarrow> resolvePolicy c = Panic NilDereference"
  by (auto simp: resolvePolicy_def set_policy_def GetPolitenessConfig_def
      split: option.splits config_spec.splits)

lemma GetPolitenessConfig_Some:
  "GetPolitenessConfig c = Some pc \<longleftrightarrow> (\<exists>co. c = Some co \<and> co_Spec co = PolitenessSpec pc)"
  by (auto simp: GetPolitenessConfig_def split: option.splits config_spec.splits)

text \<open>
  C39 (functional). A request is denied exactly when the policy is one of the classic ones,
  the evaluator is asked with the corresponding plain policy, and answers no; an evaluator
  that fails, or any other policy, allows the request.
\<close>

theorem IsAllowed_denies:
  "IsAllowed rpc request w = (Ret False, w') \<longleftrightarrow>
     (\<exists>co pc. ia_Politeness request = Some co \<and> co_Spec co = PolitenessSpec pc
        \<and> classic (pc_RobotsPolicy pc)
        \<and> rpc (request\<lparr>ia_Politeness := Some (co\<lparr>co_Spec := PolitenessSpec
              (pc\<lparr>pc_RobotsPolicy := resolved_policy (pc_RobotsPolicy pc)\<rparr>)\<rparr>)\<rparr>) w
            = (Inr False, w'))"
proof (cases "GetPolitenessConfig (ia_Politeness request)")
  case None
  then show ?thesis
    using resolvePolicy_none [OF None] GetPolitenessConfig_Some [of "ia_Politeness request"]
    by (auto simp: IsAllowed_def)
next
  case (Some pc)
  then obtain co where "ia_Politeness request = Some co" "co_Spec co = PolitenessSpec pc"
    by (auto simp: GetPolitenessConfig_Some)
  then show ?thesis
    by (auto simp: IsAllowed_def resolvePolicy_Some split: prod.splits sum.splits)
qed

lemma IsAllowed_fails_open:
  "co_Spec co = PolitenessSpec pc \<Longrightarrow> ia_Politeness request = Some co
   \<Longrightarrow> (\<And>r. \<exists>e w1. rpc r w = (Inl e, w1)) \<Longrightarrow> fst (IsAllowed rpc request w) = Ret True"
  by (auto simp: IsAllowed_def resolvePolicy_Some split: prod.splits sum.splits)
    (metis Inl_Inr_False fst_conv)

lemma IsAllowed_panics:
  "fst (IsAllowed rpc request w) = Panic p \<longleftrightarrow>
     p = NilDereference \<and> GetPolitenessConfig (ia_Politeness request) = None"
proof (cases "GetPolitenessConfig (ia_Politeness request)")
  case None
  then show ?thesis using resolvePolicy_none [OF None] by (auto simp: IsAllowed_def)
next
  case (Some pc)
  then obtain co where "ia_Politeness request = Some co" "co_Spec co = PolitenessSpec pc"
    by (auto simp: GetPolitenessConfig_Some)
  then show ?thesis
    by (auto simp: GetPolitenessConfig_Some IsAllowed_def resolvePolicy_Some
        split: prod.splits sum.splits)
qed

end
