(* ===== verification/Streams.thy ===== *)
theory Streams
  imports Messages
begin

text \<open>
  Client-side streaming calls of gRPC, as \<^verbatim>\<open>frontier/frontier.go\<close> and
  \<^verbatim>\<open>screenshotwriter/screenshotwriter.go\<close> use them: open the stream, send messages one
  after the other, close it and receive the reply. The library is a parameter: a record of
  the calls over a state \<open>'s\<close> of the connection and the peer.
\<close>

section \<open>The calls\<close>

record ('s, 'm, 'r) client_stream =
  stream_Open :: "'s \<Rightarrow> error option \<times> 's"
  stream_Send :: "'m \<Rightarrow> 's \<Rightarrow> error option \<times> 's"
  stream_CloseAndRecv :: "'s \<Rightarrow> (error + 'r) \<times> 's"

definition reply_error :: "(error + 'r) \<Rightarrow> error option" where
  "reply_error r = (case r of Inl e \<Rightarrow> Some e | Inr x \<Rightarrow> None)"

lemma reply_error_simps [simp]: "reply_error (Inl e) = Some e" "reply_error (Inr x) = None"
  by (simp_all add: reply_error_def)

text \<open>
  The error of a failed send. gRPC reports \<open>io.EOF\<close> when the peer has ended the stream; the
  peer's own error is then the one of \<open>CloseAndRecv\<close>, which may be nil.
\<close>

definition eof_error ::
  "('s, 'm, 'r) client_stream \<Rightarrow> error \<Rightarrow> 's \<Rightarrow> error option \<times> 's" where
  "eof_error st e s =
     (if e = EOF then (let (r, s1) = stream_CloseAndRecv st s in (reply_error r, s1))
      else (Some e, s))"

section \<open>Sending a sequence of messages\<close>

text \<open>\<open>send_all\<close> sends in order and stops at the first failure, whose error it returns.\<close>

fun send_all ::
  "('s, 'm, 'r) client_stream \<Rightarrow> 'm list \<Rightarrow> 's \<Rightarrow> error option \<times> 's" where
  "send_all st [] s = (None, s)"
| "send_all st (m # ms) s =
     (case stream_Send st m s of
        (Some e, s1) \<Rightarrow> (Some e, s1)
      | (None, s1) \<Rightarrow> send_all st ms s1)"

text \<open>A stream that records the messages handed to \<open>Send\<close>, the failing one included.\<close>

definition recording ::
  "('s, 'm, 'r) client_stream \<Rightarrow> ('s \<times> 'm list, 'm, 'r) client_stream" where
  "recording st =
     \<lparr>stream_Open = (\<lambda>(s, ms). let (e, s1) = stream_Open st s in (e, s1, ms)),
      stream_Send = (\<lambda>m (s, ms). let (e, s1) = stream_Send st m s in (e, s1, ms @ [m])),
      stream_CloseAndRecv = (\<lambda>(s, ms). let (r, s1) = stream_CloseAndRecv st s in (r, s1, ms))\<rparr>"

lemma recording_simps [simp]:
  "stream_Open (recording st) (s, ms) = (fst (stream_Open st s), snd (stream_Open st s), ms)"
  "stream_Send (recording st) m (s, ms)
     = (fst (stream_Send st m s), snd (stream_Send st m s), ms @ [m])"
  "stream_CloseAndRecv (recording st) (s, ms)
     = (fst (stream_CloseAndRecv st s), snd (stream_CloseAndRecv st s), ms)"
  by (simp_all add: recording_def split: prod.splits)

lemma eof_error_recordingD:
  "eof_error (recording st) e (s, ms) = (err, s1, ms1) \<Longrightarrow> ms1 = ms"
  by (auto simp: eof_error_def split: if_splits)

lemma send_all_append:
  "send_all st (ms @ ms') s =
     (case send_all st ms s of (Some e, s1) \<Rightarrow> (Some e, s1) | (None, s1) \<Rightarrow> send_all st ms' s1)"
  by (induction ms arbitrary: s) (auto split: prod.splits option.splits)

text \<open>
  The messages sent are a prefix of those to send; without an error they are all sent, with
  one the last one sent is the one that failed.
\<close>

lemma send_all_recording:
  assumes "send_all (recording st) ms (s, sent) = (r, s1, sent1)"
  shows "\<exists>k \<le> length ms. sent1 = sent @ take k ms \<and> (r = None \<longrightarrow> k = length ms)
    \<and> (r \<noteq> None \<longrightarrow> 0 < k)"
  using assms
proof (induction ms arbitrary: s sent)
  case Nil
  then show ?case by auto
next
  case (Cons m ms)
  show ?case
  proof (cases "fst (stream_Send st m s)")
    case None
    then have "send_all (recording st) ms (snd (stream_Send st m s), sent @ [m]) = (r, s1, sent1)"
      using Cons.prems by (simp split: prod.splits)
    from Cons.IH [OF this] obtain k where "k \<le> length ms" "sent1 = sent @ m # take k ms"
        "r = None \<longrightarrow> k = length ms" by auto
    then show ?thesis by (intro exI [of _ "Suc k"]) auto
  next
    case (Some e)
    then show ?thesis
      using Cons.prems by (intro exI [of _ 1]) (auto split: prod.splits)
  qed
qed

lemma send_all_recorded:
  "send_all (recording st) ms (s, sent) = (None, s1, sent1) \<Longrightarrow> sent1 = sent @ ms"
  by (drule send_all_recording) auto

text \<open>A stream whose sends give the errors of a list, and whose reply is fixed.\<close>

definition scripted_stream :: "(error + 'r) \<Rightarrow> (error option list, 'm, 'r) client_stream" where
  "scripted_stream reply =
     \<lparr>stream_Open = (\<lambda>s. (None, s)),
      stream_Send = (\<lambda>m s. case s of [] \<Rightarrow> (None, []) | e # s1 \<Rightarrow> (e, s1)),
      stream_CloseAndRecv = (\<lambda>s. (reply, s))\<rparr>"

lemma scripted_stream_simps [simp]:
  "stream_Open (scripted_stream reply) s = (None, s)"
  "stream_Send (scripted_stream reply) m [] = (None, [])"
  "stream_Send (scripted_stream reply) m (e # s1) = (e, s1)"
  "stream_CloseAndRecv (scripted_stream reply) s = (reply, s)"
  by (simp_all add: scripted_stream_def)

end
