(* ===== verification/Frontier.thy ===== *)
theory Frontier
  imports Streams
begin

text \<open>
  \<^verbatim>\<open>frontier/frontier.go\<close>: fetching the next page to harvest from the frontier and
  reporting the result of a harvest over a client-side stream. Tracing is left out and the
  metrics are in the theory \<open>Metering\<close>; neither influences what is sent.
\<close>

section \<open>Data\<close>

record render_result =
  res_BytesDownloaded :: int64
  res_UriCount :: int32
  res_Outlinks :: "queued_uri list"
  res_Error :: "commons_error option"
  res_PageFetchTimeMs :: int64

record page_harvest_spec =
  phs_QueuedUri :: "queued_uri option"
  phs_CrawlConfig :: "config_object option"
  phs_SessionToken :: string

datatype harvest_msg =
    HarvestError commons_error
  | HarvestMetrics int32 int64
  | HarvestOutlink queued_uri

record page_harvest =
  ph_Msg :: harvest_msg
  ph_SessionToken :: string

section \<open>Operations\<close>

definition GetNextPage :: "('w \<Rightarrow> (error + page_harvest_spec) \<times> 'w) \<Rightarrow> 'w \<Rightarrow>
    (error + page_harvest_spec) \<times> 'w" where
  "GetNextPage rpc w = (case rpc w of (Inl e, w1) \<Rightarrow> (Inl e, w1) | (Inr phs, w1) \<Rightarrow> (Inr phs, w1))"

text \<open>The return after a failed send: the error is wrapped, also when it is nil.\<close>

definition send_failed ::
  "('s, 'm, 'r) client_stream \<Rightarrow> string \<Rightarrow> error \<Rightarrow> 's \<Rightarrow> error option \<times> 's" where
  "send_failed st prefix e s =
     (let (err, s1) = eof_error st e s in (Some (Wrapped prefix err), s1))"

definition close_stream :: "('s, 'm, 'r) client_stream \<Rightarrow> 's \<Rightarrow> error option \<times> 's" where
  "close_stream st s = (let (r, s1) = stream_CloseAndRecv st s in (reply_error r, s1))"

definition send_fetch_error ::
  "('s, page_harvest, 'r) client_stream \<Rightarrow> (error \<Rightarrow> string) \<Rightarrow> page_harvest_spec \<Rightarrow> error \<Rightarrow> 's \<Rightarrow>
     error option \<times> 's" where
  "send_fetch_error st err_text phs fetchErr s =
     (case stream_Send st \<lparr>ph_Msg = HarvestError (CommonsError err_text fetchErr),
               ph_SessionToken = phs_SessionToken phs\<rparr> s of
        (Some e, s1) \<Rightarrow> send_failed st ''failed to send fetch error response to Frontier: '' e s1
      | (None, s1) \<Rightarrow> close_stream st s1)"

fun send_outlinks ::
  "('s, page_harvest, 'r) client_stream \<Rightarrow> page_harvest_spec \<Rightarrow> queued_uri list \<Rightarrow> 's \<Rightarrow>
     error option \<times> 's" where
  "send_outlinks st phs [] s = close_stream st s"
| "send_outlinks st phs (outlink # outlinks) s =
     (case stream_Send st \<lparr>ph_Msg = HarvestOutlink outlink,
               ph_SessionToken = phs_SessionToken phs\<rparr> s of
        (Some e, s1) \<Rightarrow> send_failed st ''failed to send outlink to Frontier: '' e s1
      | (None, s1) \<Rightarrow> send_outlinks st phs outlinks s1)"

definition send_metrics ::
  "('s, page_harvest, 'r) client_stream \<Rightarrow> page_harvest_spec \<Rightarrow> render_result \<Rightarrow> 's \<Rightarrow>
     error option \<times> 's" where
  "send_metrics st phs res s =
     (case stream_Send st \<lparr>ph_Msg = HarvestMetrics (res_UriCount res) (res_BytesDownloaded res),
               ph_SessionToken = phs_SessionToken phs\<rparr> s of
        (Some e, s1) \<Rightarrow> send_failed st ''failed to send metrics to Frontier: '' e s1
      | (None, s1) \<Rightarrow> send_outlinks st phs (res_Outlinks res) s1)"

text \<open>
  A render result is a pointer; when there is no fetch error its fields are read, which
  panics on nil.
\<close>

definition PageCompleted ::
  "('s, page_harvest, 'r) client_stream \<Rightarrow> (error \<Rightarrow> string) \<Rightarrow> page_harvest_spec \<Rightarrow>
     render_result option \<Rightarrow> error option \<Rightarrow> 's \<Rightarrow> error option go \<times> 's" where
  "PageCompleted st err_text phs renderResult fetchErr s =
     (case stream_Open st s of
        (Some e, s1) \<Rightarrow> (Ret (Some e), s1)
      | (None, s1) \<Rightarrow>
          (case fetchErr of
             Some e \<Rightarrow> (let (r, s2) = send_fetch_error st err_text phs e s1 in (Ret r, s2))
           | None \<Rightarrow>
               (case renderResult of
                  None \<Rightarrow> (Panic NilDereference, s1)
                | Some res \<Rightarrow> (let (r, s2) = send_metrics st phs res s1 in (Ret r, s2)))))"

lemmas frontier_defs [step_defs] =
  send_failed_def close_stream_def send_fetch_error_def send_metrics_def PageCompleted_def

section \<open>The report a harvest makes\<close>

definition harvest_report ::
  "(error \<Rightarrow> string) \<Rightarrow> render_result option \<Rightarrow> error option \<Rightarrow> harvest_msg list" where
  "harvest_report err_text renderResult fetchErr =
     (case fetchErr of
        Some e \<Rightarrow> [HarvestError (CommonsError err_text e)]
      | None \<Rightarrow>
          (case renderResult of
             None \<Rightarrow> []
           | Some res \<Rightarrow> HarvestMetrics (res_UriCount res) (res_BytesDownloaded res)
               # map HarvestOutlink (res_Outlinks res)))"

definition with_token :: "page_harvest_spec \<Rightarrow> harvest_msg \<Rightarrow> page_harvest" where
  "with_token phs m = \<lparr>ph_Msg = m, ph_SessionToken = phs_SessionToken phs\<rparr>"

text \<open>All three parts of the report are the same loop: send all, then close.\<close>

definition sent_then_closed ::
  "('s, 'm, 'r) client_stream \<Rightarrow> 'm list \<Rightarrow> 's \<Rightarrow> error option \<times> 's \<Rightarrow> bool" where
  "sent_then_closed st ms s out \<longleftrightarrow>
     (case send_all st ms s of
        (None, s1) \<Rightarrow> out = close_stream st s1
      | (Some e, s1) \<Rightarrow> \<exists>prefix. out = send_failed st prefix e s1)"

lemma sent_then_closed_Cons:
  "sent_then_closed st (m # ms) s out \<longleftrightarrow>
     (case stream_Send st m s of
        (Some e, s1) \<Rightarrow> \<exists>prefix. out = send_failed st prefix e s1
      | (None, s1) \<Rightarrow> sent_then_closed st ms s1 out)"
  by (auto simp: sent_then_closed_def split: prod.splits option.splits)

lemma sent_then_closed_Nil: "sent_then_closed st [] s out \<longleftrightarrow> out = close_stream st s"
  by (simp add: sent_then_closed_def)

lemma send_outlinks_sends:
  "sent_then_closed st (map (with_token phs \<circ> HarvestOutlink) ls) s (send_outlinks st phs ls s)"
  by (induction ls arbitrary: s)
    (auto simp: sent_then_closed_Cons sent_then_closed_Nil with_token_def
      split: prod.splits option.splits)

lemma PageCompleted_sends:
  assumes "stream_Open st s = (None, s1)" and "renderResult \<noteq> None \<or> fetchErr \<noteq> None"
  shows "\<exists>out. PageCompleted st err_text phs renderResult fetchErr s = (Ret (fst out), snd out)
    \<and> sent_then_closed st (map (with_token phs) (harvest_report err_text renderResult fetchErr)) s1 out"
proof (cases fetchErr)
  case (Some e)
  have "sent_then_closed st (map (with_token phs) (harvest_report err_text renderResult fetchErr))
      s1 (send_fetch_error st err_text phs e s1)"
    by (auto simp: Some send_fetch_error_def harvest_report_def with_token_def
        sent_then_closed_Cons sent_then_closed_Nil split: prod.splits option.splits)
  then show ?thesis
    using assms(1) Some by (intro exI [of _ "send_fetch_error st err_text phs e s1"])
      (simp add: PageCompleted_def split: prod.splits)
next
  case None
  then obtain res where res: "renderResult = Some res" using assms(2) by auto
  have "sent_then_closed st (map (with_token phs) (harvest_report err_text renderResult fetchErr))
      s1 (send_metrics st phs res s1)"
    using send_outlinks_sends [of st phs "res_Outlinks res"]
    by (auto simp: None res send_metrics_def harvest_report_def sent_then_closed_Cons
        with_token_def o_def split: prod.splits option.splits)
  then show ?thesis
    using assms(1) None res by (intro exI [of _ "send_metrics st phs res s1"])
      (simp add: PageCompleted_def split: prod.splits)
qed

lemma sent_then_closed_recording:
  assumes "sent_then_closed (recording st) ms (s, sent) (r, s1, sent1)"
  shows "\<exists>k \<le> length ms. sent1 = sent @ take k ms \<and> (r = None \<longrightarrow> k = length ms)"
proof -
  obtain e s2 sent2 where all: "send_all (recording st) ms (s, sent) = (e, s2, sent2)"
    by (metis prod_cases3)
  from send_all_recording [OF all] obtain k where
    k: "k \<le> length ms" "sent2 = sent @ take k ms" "e = None \<longrightarrow> k = length ms"
    by (elim exE conjE)
  have "sent1 = sent2 \<and> (r = None \<longrightarrow> e = None)"
  proof (cases e)
    case None
    then have "(r, s1, sent1) = close_stream (recording st) (s2, sent2)"
      using assms all by (simp add: sent_then_closed_def)
    with None show ?thesis by (simp add: close_stream_def)
  next
    case (Some err)
    then obtain prefix where "(r, s1, sent1) = send_failed (recording st) prefix err (s2, sent2)"
      using assms all by (auto simp: sent_then_closed_def)
    then show ?thesis
      by (auto simp: send_failed_def split: prod.splits dest: eof_error_recordingD)
  qed
  with k show ?thesis by auto
qed

section \<open>Properties\<close>

text \<open>
  C11 (safety). What \<open>PageCompleted\<close> sends is always a beginning of the report (the error, or
  the metrics and then the outlinks in order), each message with the session token of the
  harvest; when it returns no error, the report was sent in full. It panics only when there is neither a fetch error nor a result.
\<close>

theorem PageCompleted_reports:
  assumes "PageCompleted (recording st) err_text phs renderResult fetchErr (s, []) = (r, s1, sent)"
  shows "\<exists>k. sent = map (with_token phs) (take k (harvest_report err_text renderResult fetchErr))
      \<and> (r = Ret None \<longrightarrow> k = length (harvest_report err_text renderResult fetchErr))
      \<and> (r = Panic p \<longrightarrow> renderResult = None \<and> fetchErr = None)"
proof (cases "fst (stream_Open st s) = None \<and> (renderResult \<noteq> None \<or> fetchErr \<noteq> None)")
  case True
  let ?ms = "map (with_token phs) (harvest_report err_text renderResult fetchErr)"
  have "stream_Open (recording st) (s, []) = (None, snd (stream_Open st s), [])" using True by simp
  from PageCompleted_sends [OF this] True obtain out where
    "PageCompleted (recording st) err_text phs renderResult fetchErr (s, [])
       = (Ret (fst out), snd out)"
    "sent_then_closed (recording st) ?ms (snd (stream_Open st s), []) out"
    by (elim conjE) metis
  moreover obtain q s2 sent2 where out: "out = (q, s2, sent2)" by (metis prod_cases3)
  ultimately have r: "r = Ret q" and "s2 = s1" "sent2 = sent" using assms by simp_all
  with out have "sent_then_closed (recording st) ?ms (snd (stream_Open st s), []) (q, s1, sent)"
    using \<open>sent_then_closed _ _ _ out\<close> by simp
  from sent_then_closed_recording [OF this] obtain k where
    "k \<le> length ?ms" "sent = take k ?ms" "q = None \<longrightarrow> k = length ?ms" by auto
  with r show ?thesis by (intro exI [of _ k]) (simp add: take_map)
next
  case False
  then show ?thesis
    using assms
    by (intro exI [of _ 0])
      (auto simp: PageCompleted_def harvest_report_def split: option.splits)
qed

definition example_phs :: page_harvest_spec where
  "example_phs = \<lparr>phs_QueuedUri = None, phs_CrawlConfig = None, phs_SessionToken = ''t''\<rparr>"

theorem PageCompleted_reports_witness:
  "\<exists>k. [with_token example_phs (HarvestMetrics 2 10)]
     = map (with_token example_phs) (take k (harvest_report (\<lambda>_. [])
         (Some \<lparr>res_BytesDownloaded = 10, res_UriCount = 2, res_Outlinks = [], res_Error = None,
            res_PageFetchTimeMs = 5\<rparr>) None))"
proof -
  let ?res = "\<lparr>res_BytesDownloaded = 10, res_UriCount = 2, res_Outlinks = [], res_Error = None,
      res_PageFetchTimeMs = 5\<rparr>"
  have "PageCompleted (recording (scripted_stream (Inr ()))) (\<lambda>_. []) example_phs (Some ?res) None
      ([], []) = (Ret None, [], [with_token example_phs (HarvestMetrics 2 10)])"
    by (simp add: PageCompleted_def send_metrics_def close_stream_def with_token_def Let_def)
  from PageCompleted_reports [OF this, of NilDereference] obtain k where
    "[with_token example_phs (HarvestMetrics 2 10)]
       = map (with_token example_phs) (take k (harvest_report (\<lambda>_. []) (Some ?res) None))"
    by metis
  then show ?thesis by (rule exI)
qed

text \<open>
  When the peer has ended the stream without an error, the failed send is still reported as
  an error, one that wraps nil.
\<close>

lemma PageCompleted_eof:
  "stream_Open st s = (None, s1) \<Longrightarrow> stream_Send st (with_token phs
       (HarvestMetrics (res_UriCount res) (res_BytesDownloaded res))) s1 = (Some EOF, s2)
   \<Longrightarrow> stream_CloseAndRecv st s2 = (Inr x, s3)
   \<Longrightarrow> PageCompleted st err_text phs (Some res) None s
     = (Ret (Some (Wrapped ''failed to send metrics to Frontier: '' None)), s3)"
  by (simp add: PageCompleted_def send_metrics_def with_token_def send_failed_def eof_error_def)

end
