(* ===== verification/Screenshot.thy ===== *)
theory Screenshot
  imports Streams
begin

text \<open>
  \<^verbatim>\<open>screenshotwriter/screenshotwriter.go\<close>: a screenshot is written to the content writer
  as two records, the image and a description of the browser, and a message with their
  metadata. A byte slice is a \<open>string\<close>; \<open>sha1\<close>, the hash function printed in hexadecimal,
  is a parameter.
\<close>

section \<open>Data\<close>

record metadata =
  md_CrawlConfig :: "crawl_config option"
  md_CrawlLog :: "crawl_log option"
  md_BrowserConfig :: "browser_config option"
  md_BrowserVersion :: string

datatype record_type = RESOURCE | METADATA

datatype collection = UNDEFINED_COLLECTION | SCREENSHOT

record record_meta =
  rm_RecordNum :: int32
  rm_Type :: record_type
  rm_RecordContentType :: string
  rm_BlockDigest :: string
  rm_PayloadDigest :: string
  rm_Size :: int64
  rm_SubCollection :: collection
  rm_WarcConcurrentTo :: "string list"

record write_meta =
  wm_ExecutionId :: string
  wm_TargetUri :: string
  wm_RecordMeta :: "int32 \<rightharpoonup> record_meta"
  wm_FetchTimeStamp :: int
  wm_IpAddress :: string
  wm_CollectionRef :: "config_ref option"

datatype write_request = Payload int32 string | Meta write_meta

section \<open>Write\<close>

definition GetWindowWidth :: "browser_config option \<Rightarrow> int32" where
  "GetWindowWidth b = (case b of None \<Rightarrow> 0 | Some c \<Rightarrow> bc_WindowWidth c)"

definition GetWindowHeight :: "browser_config option \<Rightarrow> int32" where
  "GetWindowHeight b = (case b of None \<Rightarrow> 0 | Some c \<Rightarrow> bc_WindowHeight c)"

definition GetUserAgent :: "browser_config option \<Rightarrow> string" where
  "GetUserAgent b = (case b of None \<Rightarrow> [] | Some c \<Rightarrow> bc_UserAgent c)"

definition GetCollectionRef :: "crawl_config option \<Rightarrow> config_ref option" where
  "GetCollectionRef c = (case c of None \<Rightarrow> None | Some cc \<Rightarrow> cc_CollectionRef cc)"

definition crlf :: string where
  "crlf = [char_of (13::nat), char_of (10::nat)]"

definition screenshotMetaRecord :: "metadata \<Rightarrow> string" where
  "screenshotMetaRecord md =
     ''browserVersion: '' @ md_BrowserVersion md @ crlf
     @ ''windowHeight: '' @ Itoa (sint (GetWindowHeight (md_BrowserConfig md))) @ crlf
     @ ''windowWidth: '' @ Itoa (sint (GetWindowWidth (md_BrowserConfig md))) @ crlf
     @ ''userAgent: '' @ GetUserAgent (md_BrowserConfig md) @ crlf"

definition sha1_digest :: "(string \<Rightarrow> string) \<Rightarrow> string \<Rightarrow> string" where
  "sha1_digest sha1 d = ''sha1:'' @ sha1 d"

definition screenshotRecordMeta ::
  "(string \<Rightarrow> string) \<Rightarrow> string \<Rightarrow> crawl_log \<Rightarrow> record_meta" where
  "screenshotRecordMeta sha1 d cl =
     \<lparr>rm_RecordNum = 0, rm_Type = RESOURCE, rm_RecordContentType = ''image/png'',
      rm_BlockDigest = sha1_digest sha1 d, rm_PayloadDigest = sha1_digest sha1 d,
      rm_Size = of_nat (length d), rm_SubCollection = SCREENSHOT,
      rm_WarcConcurrentTo = [cl_WarcId cl]\<rparr>"

definition screenshotMetaRecordMeta ::
  "(string \<Rightarrow> string) \<Rightarrow> metadata \<Rightarrow> crawl_log \<Rightarrow> record_meta" where
  "screenshotMetaRecordMeta sha1 md cl =
     \<lparr>rm_RecordNum = 1, rm_Type = METADATA, rm_RecordContentType = ''application/warc-fields'',
      rm_BlockDigest = sha1_digest sha1 (screenshotMetaRecord md), rm_PayloadDigest = [],
      rm_Size = of_nat (length (screenshotMetaRecord md)), rm_SubCollection = SCREENSHOT,
      rm_WarcConcurrentTo = [cl_WarcId cl]\<rparr>"

definition screenshot_meta ::
  "(string \<Rightarrow> string) \<Rightarrow> string \<Rightarrow> metadata \<Rightarrow> crawl_log \<Rightarrow> write_meta" where
  "screenshot_meta sha1 d md cl =
     (let ip = (if cl_IpAddress cl = [] then ''127.0.0.1'' else cl_IpAddress cl)
      in \<lparr>wm_ExecutionId = cl_ExecutionId cl, wm_TargetUri = cl_RequestedUri cl,
          wm_RecordMeta = [0 \<mapsto> screenshotRecordMeta sha1 d cl,
                           1 \<mapsto> screenshotMetaRecordMeta sha1 md cl],
          wm_FetchTimeStamp = cl_FetchTimeStamp cl, wm_IpAddress = ip,
          wm_CollectionRef = GetCollectionRef (md_CrawlConfig md)\<rparr>)"

text \<open>
  The crawl log is read after the two payloads have been sent; without one the call panics
  there.
\<close>

definition Screenshot_Write ::
  "('s, write_request, 'r) client_stream \<Rightarrow> (string \<Rightarrow> string) \<Rightarrow> string \<Rightarrow> metadata \<Rightarrow> 's \<Rightarrow>
     error option go \<times> 's" where
  "Screenshot_Write st sha1 d md s =
     (case stream_Open st s of
        (Some e, s1) \<Rightarrow>
          (Ret (Some (Wrapped ''failed to open ContentWriter session: '' (Some e))), s1)
      | (None, s1) \<Rightarrow>
     (case stream_Send st (Payload 0 d) s1 of
        (Some e, s2) \<Rightarrow> (Ret (Some e), s2)
      | (None, s2) \<Rightarrow>
     (case stream_Send st (Payload 1 (screenshotMetaRecord md)) s2 of
        (Some e, s3) \<Rightarrow> (Ret (Some e), s3)
      | (None, s3) \<Rightarrow>
     (case md_CrawlLog md of
        None \<Rightarrow> (Panic NilDereference, s3)
      | Some cl \<Rightarrow>
     (case stream_Send st (Meta (screenshot_meta sha1 d md cl)) s3 of
        (Some e, s4) \<Rightarrow> (Ret (Some e), s4)
      | (None, s4) \<Rightarrow>
     (case stream_CloseAndRecv st s4 of
        (Inl e, s5) \<Rightarrow> (Ret (Some e), s5)
      | (Inr response, s5) \<Rightarrow> (Ret None, s5)))))))"

section \<open>What is written\<close>

definition screenshot_messages ::
  "(string \<Rightarrow> string) \<Rightarrow> string \<Rightarrow> metadata \<Rightarrow> crawl_log \<Rightarrow> write_request list" where
  "screenshot_messages sha1 d md cl =
     [Payload 0 d, Payload 1 (screenshotMetaRecord md), Meta (screenshot_meta sha1 d md cl)]"

lemma Screenshot_Write_sends:
  assumes "md_CrawlLog md = Some cl" and "stream_Open st s = (None, s1)"
  shows "Screenshot_Write st sha1 d md s =
    (case send_all st (screenshot_messages sha1 d md cl) s1 of
       (Some e, s2) \<Rightarrow> (Ret (Some e), s2)
     | (None, s2) \<Rightarrow> (let (r, s3) = stream_CloseAndRecv st s2 in (Ret (reply_error r), s3)))"
  using assms
  by (auto simp: Screenshot_Write_def screenshot_messages_def split: prod.splits option.splits sum.splits)

text \<open>
  Every record that is announced was sent as a payload before, under the same number, with
  the digest of its content and its size.
\<close>

definition payload_of :: "int32 \<Rightarrow> write_request list \<Rightarrow> string option" where
  "payload_of n msgs =
     map_of [(k, d). Payload k d \<leftarrow> msgs] n"

definition announced_ok :: "(string \<Rightarrow> string) \<Rightarrow> write_request list \<Rightarrow> bool" where
  "announced_ok sha1 msgs \<longleftrightarrow>
     (\<exists>wm. Meta wm \<in> set msgs \<and> dom (wm_RecordMeta wm) = {0, 1}
       \<and> (\<forall>n rm. wm_RecordMeta wm n = Some rm \<longrightarrow>
            (\<exists>d. payload_of n msgs = Some d \<and> rm_RecordNum rm = n
               \<and> rm_BlockDigest rm = ''sha1:'' @ sha1 d \<and> rm_Size rm = of_nat (length d))))"

lemma screenshot_messages_ok: "announced_ok sha1 (screenshot_messages sha1 d md cl)"
  unfolding announced_ok_def
  by (rule exI [of _ "screenshot_meta sha1 d md cl"])
    (auto simp: screenshot_messages_def screenshot_meta_def payload_of_def Let_def
      screenshotRecordMeta_def screenshotMetaRecordMeta_def sha1_digest_def split: if_splits)

text \<open>
  C36 (functional). When \<open>Write\<close> returns no error it has sent exactly three messages, the
  image, the description of the browser and their metadata, in this order; the metadata
  announces exactly these two records, each with its digest and its size, and names an IP
  address.
\<close>

theorem Screenshot_Write_complete:
  assumes "Screenshot_Write (recording st) sha1 d md (s, []) = (Ret None, s1, sent)"
  shows "announced_ok sha1 sent
    \<and> (\<exists>wm. sent = [Payload 0 d, Payload 1 (screenshotMetaRecord md), Meta wm]
          \<and> wm_IpAddress wm \<noteq> [])"
proof -
  obtain cl where cl: "md_CrawlLog md = Some cl"
    using assms by (auto simp: Screenshot_Write_def split: prod.splits option.splits)
  obtain s0 where op: "stream_Open (recording st) (s, []) = (None, s0, [])"
    using assms by (auto simp: Screenshot_Write_def split: prod.splits option.splits)
  obtain e s2 sent2 where all: "send_all (recording st) (screenshot_messages sha1 d md cl) (s0, [])
      = (e, s2, sent2)" by (metis prod_cases3)
  then have "e = None" "sent = sent2"
    using assms Screenshot_Write_sends [OF cl op, of sha1 d]
    by (auto split: option.splits prod.splits)
  then have "sent = screenshot_messages sha1 d md cl"
    using send_all_recorded all by fastforce
  then show ?thesis
    using screenshot_messages_ok [of sha1 d md cl]
    by (auto simp: screenshot_messages_def screenshot_meta_def Let_def)
qed

definition example_metadata :: metadata where
  "example_metadata =
     \<lparr>md_CrawlConfig = None,
      md_CrawlLog = Some \<lparr>cl_WarcId = ''w'', cl_StatusCode = 200, cl_Size = 3,
        cl_RequestedUri = ''u'', cl_Method = ''GET'', cl_DiscoveryPath = [], cl_Referrer = [],
        cl_ContentType = [], cl_ExecutionId = ''e'', cl_IpAddress = [],
        cl_CollectionFinalName = [], cl_FetchTimeStamp = 0, cl_Error = None\<rparr>,
      md_BrowserConfig = None, md_BrowserVersion = ''v''\<rparr>"

theorem Screenshot_Write_complete_witness:
  "announced_ok (\<lambda>_. ''h'') (screenshot_messages (\<lambda>_. ''h'') ''png'' example_metadata
     (the (md_CrawlLog example_metadata)))"
proof -
  have "Screenshot_Write (recording (scripted_stream (Inr ()))) (\<lambda>_. ''h'') ''png'' example_metadata
      ([], []) = (Ret None, [], screenshot_messages (\<lambda>_. ''h'') ''png'' example_metadata
         (the (md_CrawlLog example_metadata)))"
    by (simp add: Screenshot_Write_def example_metadata_def screenshot_messages_def)
  from Screenshot_Write_complete [OF this] show ?thesis by simp
qed

lemma Screenshot_Write_no_log:
  "md_CrawlLog md = None \<Longrightarrow> fst (Screenshot_Write (scripted_stream r) sha1 d md []) = Panic NilDereference"
  by (simp add: Screenshot_Write_def)

end
