(* ===== verification/Session.thy ===== *)
theory Session
  imports CompletionTimer Requests Session_Registry
begin

text \<open>
  \<^verbatim>\<open>session/session.go\<close> and \<^verbatim>\<open>session/sessionoptions.go\<close>: what a session holds, how one is
  made, and \<open>Notify\<close>. The operations of a fetch are in the theories that import this one.
\<close>

section \<open>The session\<close>

text \<open>Scripts by type; a type that is not in the Go map has the nil slice, the empty list.\<close>

record session_scripts =
  scr_scripts :: "script_type \<Rightarrow> config_object list"
  scr_blacklist :: "script_type list"

text \<open>
  A pointer or interface that is nil before it is set is an option. A context is whether it
  is done. The wait group \<open>frameWg\<close> is the object the registry \<open>Requests\<close> was made with, so
  it is found there; \<open>loadCancel\<close>, which ends the context the page is loaded in, is the
  context it ends. The handle of another component is the number of the implementation behind
  the interface, or nil; what that implementation does is an argument of the operations that
  call it.
\<close>

type_synonym handle = "nat option"

record session =
  ses_Id :: nat
  ses_ctx :: "bool option"
  ses_browserHost :: string
  ses_browserPort :: int
  ses_browserTimeout :: int
  ses_proxyHost :: string
  ses_proxyPort :: int
  ses_browserWsEndpoint :: string
  ses_workspaceEndpoint :: string
  ses_UserAgent :: string
  ses_browserVersion :: string
  ses_Requests :: "request_registry option"
  ses_netActivityTimer :: "completion_timer option"
  ses_timer :: "completion_timer option"
  ses_RequestedUrl :: "queued_uri option"
  ses_CrawlConfig :: "crawl_config option"
  ses_browserConfig :: "browser_config option"
  ses_PolitenessConfig :: "config_object option"
  ses_configCache :: handle
  ses_screenShotWriter :: handle
  ses_logWriter :: handle
  ses_scripts :: "session_scripts option"
  ses_loadCtx :: "bool option"

section \<open>Options and construction\<close>

type_synonym session_option = "session \<Rightarrow> session"

definition WithBrowserHost :: "string \<Rightarrow> session_option" where
  "WithBrowserHost host s = s\<lparr>ses_browserHost := host\<rparr>"

definition WithBrowserPort :: "int \<Rightarrow> session_option" where
  "WithBrowserPort port s = s\<lparr>ses_browserPort := port\<rparr>"

definition WithProxyHost :: "string \<Rightarrow> session_option" where
  "WithProxyHost host s = s\<lparr>ses_proxyHost := host\<rparr>"

definition WithProxyPort :: "int \<Rightarrow> session_option" where
  "WithProxyPort port s = s\<lparr>ses_proxyPort := port\<rparr>"

definition WithConfigCache :: "handle \<Rightarrow> session_option" where
  "WithConfigCache dbAdapter s = s\<lparr>ses_configCache := dbAdapter\<rparr>"

definition WithScreenshotWriter :: "handle \<Rightarrow> session_option" where
  "WithScreenshotWriter sw s = s\<lparr>ses_screenShotWriter := sw\<rparr>"

definition Session_WithLogWriter :: "handle \<Rightarrow> session_option" where
  "Session_WithLogWriter lc s = s\<lparr>ses_logWriter := lc\<rparr>"

lemmas session_option_defs [step_defs] =
  WithBrowserHost_def WithBrowserPort_def WithProxyHost_def WithProxyPort_def
  WithConfigCache_def WithScreenshotWriter_def Session_WithLogWriter_def

definition newDefaultSession :: "session_option list \<Rightarrow> session" where
  "newDefaultSession opts = apply_options opts
     \<lparr>ses_Id = 0, ses_ctx = None, ses_browserHost = ''localhost'', ses_browserPort = 3000,
      ses_browserTimeout = 500 * 1000, ses_proxyHost = [], ses_proxyPort = 3000,
      ses_browserWsEndpoint = [], ses_workspaceEndpoint = [], ses_UserAgent = [],
      ses_browserVersion = [], ses_Requests = None, ses_netActivityTimer = None,
      ses_timer = None, ses_RequestedUrl = None, ses_CrawlConfig = None,
      ses_browserConfig = None, ses_PolitenessConfig = None, ses_configCache = None,
      ses_screenShotWriter = None, ses_logWriter = None, ses_scripts = None,
      ses_loadCtx = None\<rparr>"

text \<open>
  The URL library: parsing, setting and appending a search parameter of a parsed URL, and
  printing it.
\<close>

record 'u url_lib =
  url_Parse :: "string \<Rightarrow> error + 'u"
  url_Set :: "string \<Rightarrow> string \<Rightarrow> 'u \<Rightarrow> 'u"
  url_Append :: "string \<Rightarrow> string \<Rightarrow> 'u \<Rightarrow> 'u"
  url_String :: "'u \<Rightarrow> string"

definition proxy_url :: "session \<Rightarrow> string" where
  "proxy_url s = ''http://'' @ ses_proxyHost s @ '':'' @ Itoa (ses_proxyPort s + int (ses_Id s))"

definition session_query :: "'u url_lib \<Rightarrow> session \<Rightarrow> 'u \<Rightarrow> 'u" where
  "session_query lib s ws =
     (let ws1 = (if ses_proxyHost s \<noteq> [] then url_Set lib ''--proxy-server'' (proxy_url s) ws else ws);
          ws2 = url_Append lib ''--ignore-certificate-errors'' [] ws1;
          ws3 = url_Append lib ''headless'' ''true'' ws2;
          ws4 = url_Append lib ''timeout'' (Itoa (ses_browserTimeout s)) ws3
      in url_Append lib ''trackingId'' (Itoa (int (ses_Id s))) ws4)"

definition Session_New ::
  "'u url_lib \<Rightarrow> session_option list \<Rightarrow> nat \<Rightarrow> error + session" where
  "Session_New lib opts sessionId =
     (let s = (newDefaultSession opts)\<lparr>ses_Id := sessionId\<rparr>
      in case url_Parse lib (''ws://'' @ ses_browserHost s @ '':'' @ Itoa (ses_browserPort s)) of
           Inl err \<Rightarrow> Inl err
         | Inr ws \<Rightarrow>
             let s1 = s\<lparr>ses_browserWsEndpoint := url_String lib (session_query lib s ws)\<rparr>
             in case url_Parse lib (''http://'' @ ses_browserHost s1 @ '':''
                      @ Itoa (ses_browserPort s1) @ ''/workspace'') of
                  Inl err \<Rightarrow> Inl err
                | Inr work \<Rightarrow> Inr (s1\<lparr>ses_workspaceEndpoint := url_String lib work\<rparr>))"

definition newDirectSession ::
  "string \<Rightarrow> string \<Rightarrow> string \<Rightarrow> session_option list \<Rightarrow> session" where
  "newDirectSession uri crawlExecutionId jobExecutionId opts =
     (newDefaultSession opts)\<lparr>ses_Id := 0,
        ses_RequestedUrl := Some \<lparr>qu_Uri = uri, qu_ExecutionId = crawlExecutionId,
           qu_JobExecutionId = jobExecutionId, qu_DiscoveryPath = [], qu_Referrer = [],
           qu_SeedUri = [], qu_Cookies = [], qu_Annotation = []\<rparr>\<rparr>"

text \<open>
  \<open>url.Normalize\<close> of \<^verbatim>\<open>url/normalize.go\<close>.
\<close>

definition url_Normalize :: "'u url_lib \<Rightarrow> string \<Rightarrow> string" where
  "url_Normalize lib u =
     (case url_Parse lib u of Inl err \<Rightarrow> u | Inr p \<Rightarrow> url_String lib p)"

text \<open>A library in which every text is a url and its own normal form, for examples.\<close>

definition plain_urls :: "string url_lib" where
  "plain_urls = \<lparr>url_Parse = Inr, url_Set = (\<lambda>k v u. u), url_Append = (\<lambda>k v u. u), url_String = id\<rparr>"

lemma plain_urls_Normalize [simp]: "url_Normalize plain_urls u = u"
  by (simp add: url_Normalize_def plain_urls_def)

section \<open>Notify\<close>

text \<open>
  \<open>Notify\<close> at time \<open>now\<close>. The check of \<open>netActivityTimer\<close> is nil, which stands for a check
  that never succeeds; that of \<open>timer\<close> is \<open>MatchCrawlLogs\<close> of the session's registry.
\<close>

definition notify_timer :: "int \<Rightarrow> bool \<Rightarrow> completion_timer option \<Rightarrow> unit go \<times> completion_timer option" where
  "notify_timer now check t =
     (case t of None \<Rightarrow> (Ret (), None)
      | Some ct \<Rightarrow> (let (r, ct1) = CompletionTimer_Notify now check ct in (r, Some ct1)))"

definition all_resolved :: "session \<Rightarrow> bool" where
  "all_resolved s = (case ses_Requests s of None \<Rightarrow> False | Some r \<Rightarrow> MatchCrawlLogs r)"

definition Session_Notify :: "int \<Rightarrow> string \<Rightarrow> session \<Rightarrow> error option go \<times> session" where
  "Session_Notify now reqId s =
     (case ses_ctx s of
        None \<Rightarrow> (Panic NilDereference, s)
      | Some True \<Rightarrow> (Ret (Some (GrpcStatus Canceled ''Session is canceled'')), s)
      | Some False \<Rightarrow>
          (case notify_timer now False (ses_netActivityTimer s) of
             (Panic p, t) \<Rightarrow> (Panic p, s\<lparr>ses_netActivityTimer := t\<rparr>)
           | (Ret _, t) \<Rightarrow>
               (let s1 = s\<lparr>ses_netActivityTimer := t\<rparr> in
                case notify_timer now (all_resolved s1) (ses_timer s1) of
                  (Panic p, t2) \<Rightarrow> (Panic p, s1\<lparr>ses_timer := t2\<rparr>)
                | (Ret _, t2) \<Rightarrow> (Ret None, s1\<lparr>ses_timer := t2\<rparr>))))"

lemmas session_defs [step_defs] =
  notify_timer_def Session_Notify_def Session_New_def newDirectSession_def

lemma Session_Notify_Requests [simp]:
  "ses_Requests (snd (Session_Notify now i s)) = ses_Requests s"
  by (auto simp: Session_Notify_def Let_def split: option.splits bool.splits prod.splits go.splits)

text \<open>A failing check never closes the done channel, so such a notification does not panic.\<close>

lemma Notify_failing [simp]: "fst (CompletionTimer_Notify now False t) = Ret ()"
  by (simp add: CompletionTimer_Notify_def Let_def)

lemma notify_timer_failing [simp]: "fst (notify_timer now False t) = Ret ()"
  by (cases t) (simp_all add: notify_timer_def case_prod_unfold Let_def)

text \<open>
  The main timer is never reset, so its done channel is closed only with \<open>done\<close> set; with
  that, \<open>Notify\<close> panics only on a session without a context.
\<close>

definition timer_fresh :: "session \<Rightarrow> bool" where
  "timer_fresh s \<longleftrightarrow> (\<forall>t. ses_timer s = Some t \<longrightarrow> ct_closed t \<longrightarrow> ct_done t \<noteq> 0)"

lemma Notify_fresh:
  assumes "ct_closed t \<longrightarrow> ct_done t \<noteq> 0" and "CompletionTimer_Notify now check t = (r, t1)"
  shows "r = Ret () \<and> (ct_closed t1 \<longrightarrow> ct_done t1 \<noteq> 0)"
  using assms
  by (cases "ct_done t = 0"; cases "ct_closed t")
    (auto simp: CompletionTimer_Notify_def close_doneChan_def Let_def split: if_splits)

lemma Session_Notify_fresh:
  assumes "timer_fresh s" and "Session_Notify now reqId s = (r, s1)"
  shows "timer_fresh s1 \<and> (\<forall>p. r = Panic p \<longrightarrow> ses_ctx s = None)"
proof (cases "ses_ctx s = Some False")
  case False
  with assms show ?thesis by (auto simp: Session_Notify_def split: option.splits bool.splits)
next
  case True
  obtain t where net: "notify_timer now False (ses_netActivityTimer s) = (Ret (), t)"
    using notify_timer_failing by (metis prod.collapse)
  show ?thesis
  proof (cases "ses_timer s")
    case None
    with assms True net show ?thesis
      by (auto simp: Session_Notify_def notify_timer_def timer_fresh_def)
  next
    case (Some ct)
    obtain q ct1 where ct: "CompletionTimer_Notify now
        (all_resolved (s\<lparr>ses_netActivityTimer := t\<rparr>)) ct = (q, ct1)" by fastforce
    have "q = Ret () \<and> (ct_closed ct1 \<longrightarrow> ct_done ct1 \<noteq> 0)"
      using Notify_fresh [OF _ ct] assms(1) Some by (simp add: timer_fresh_def)
    with assms True net Some ct show ?thesis
      by (auto simp: Session_Notify_def notify_timer_def timer_fresh_def)
  qed
qed

section \<open>AbortFetch\<close>

text \<open>
  The page stops loading, the wait for its frames is cancelled, and then the loading context
  is ended, also when the second cancellation of the wait group panics. The error of the
  command that stops loading is the result; its only caller discards it, and it is left out.
  A fetch sets the loading context before the registry, so either both are there or the
  loading context alone.
\<close>

definition AbortFetch :: "session \<Rightarrow> unit go \<times> session" where
  "AbortFetch s =
     (case (ses_Requests s, ses_loadCtx s) of
        (Some r, Some d) \<Rightarrow>
          (let (res, wg) = WaitGroup_Cancel (rr_done r)
           in (res, s\<lparr>ses_Requests := Some (r\<lparr>rr_done := wg\<rparr>), ses_loadCtx := Some True\<rparr>))
      | _ \<Rightarrow> (Panic NilDereference, s))"

section \<open>Sessions of a registry\<close>

text \<open>A session whose three handles are set, as the options \<open>main\<close> gives make it.\<close>

lemma proxy_url_inject:
  assumes "ses_proxyHost s = ses_proxyHost s'" "ses_proxyPort s = ses_proxyPort s'"
    and "0 \<le> ses_proxyPort s" and "proxy_url s = proxy_url s'"
  shows "ses_Id s = ses_Id s'"
proof -
  have "ses_proxyPort s + int (ses_Id s) = ses_proxyPort s + int (ses_Id s')"
    using assms by (intro Itoa_inject) (auto simp: proxy_url_def)
  then show ?thesis by simp
qed

definition equipped :: "session \<Rightarrow> bool" where
  "equipped s \<longleftrightarrow> ses_configCache s \<noteq> None \<and> ses_screenShotWriter s \<noteq> None \<and> ses_logWriter s \<noteq> None"

text \<open>Options that set the three handles, for examples.\<close>

definition handle_options :: "session_option list" where
  "handle_options = [WithConfigCache (Some 1), WithScreenshotWriter (Some 2), Session_WithLogWriter (Some 3)]"

lemma handle_options [simp]:
  "ses_configCache (newDefaultSession handle_options) = Some 1"
  "ses_screenShotWriter (newDefaultSession handle_options) = Some 2"
  "ses_logWriter (newDefaultSession handle_options) = Some 3"
  by (simp_all add: newDefaultSession_def handle_options_def session_option_defs)

lemma equipped_handles: "equipped (newDefaultSession handle_options)"
  by (simp add: equipped_def)

lemma Session_New_equipped:
  "Session_New lib opts i = Inr s \<Longrightarrow> equipped s = equipped (newDefaultSession opts)"
  by (auto simp: Session_New_def Let_def equipped_def split: sum.splits)

lemma Session_New_fields:
  "Session_New lib opts i = Inr s \<Longrightarrow>
   ses_Id s = i \<and> ses_proxyHost s = ses_proxyHost (newDefaultSession opts)
   \<and> ses_proxyPort s = ses_proxyPort (newDefaultSession opts)"
  by (auto simp: Session_New_def Let_def split: sum.splits)

text \<open>
  Two sessions made with the same options use different proxies, and a new session has no
  context, so it cannot be notified before its fetch has begun.
\<close>

lemma Session_New_proxies_differ:
  assumes "Session_New lib opts i = Inr s" "Session_New lib opts j = Inr s'" "i \<noteq> j"
    and "0 \<le> ses_proxyPort (newDefaultSession opts)"
  shows "proxy_url s \<noteq> proxy_url s'"
  using assms Session_New_fields [OF assms(1)] Session_New_fields [OF assms(2)]
    proxy_url_inject [of s s'] by auto

end
