(* ===== verification/Session_Scripts.thy ===== *)
theory Session_Scripts
  imports Session Script_Run
begin

text \<open>
  \<^verbatim>\<open>session/script.go\<close>: which scripts a session uses, which one replaces a resource, and
  running the scripts of a type in the page.
\<close>

section \<open>Loading\<close>

text \<open>
  Regular expressions are a parameter: compiling one, whether it matches a text somewhere,
  and the leftmost-longest match (empty if there is none).
\<close>

record 're regexp_lib =
  re_Compile :: "string \<Rightarrow> 're option"
  re_MatchString :: "'re \<Rightarrow> string \<Rightarrow> bool"
  re_FindLongest :: "'re \<Rightarrow> string \<Rightarrow> string"

fun match_any :: "'re regexp_lib \<Rightarrow> string list \<Rightarrow> string \<Rightarrow> bool" where
  "match_any rx [] normalizedUri = False"
| "match_any rx (urlRegexp # rest) normalizedUri =
     (case re_Compile rx urlRegexp of
        None \<Rightarrow> match_any rx rest normalizedUri
      | Some re \<Rightarrow> if re_MatchString rx re normalizedUri then True
                  else match_any rx rest normalizedUri)"

definition script_match ::
  "'re regexp_lib \<Rightarrow> 'u url_lib \<Rightarrow> string list \<Rightarrow> string \<Rightarrow> bool" where
  "script_match rx lib regExps uri =
     (if regExps = [] then True else match_any rx regExps (url_Normalize lib uri))"

definition newSessionScripts :: session_scripts where
  "newSessionScripts = \<lparr>scr_scripts = (\<lambda>_. []), scr_blacklist = [SCOPE_CHECK]\<rparr>"

fun blacklisted :: "script_type list \<Rightarrow> script_type \<Rightarrow> bool" where
  "blacklisted [] t = False"
| "blacklisted (b # bs) t = (if t = b then True else blacklisted bs t)"

definition IsBlacklisted :: "session_scripts \<Rightarrow> script_type \<Rightarrow> bool" where
  "IsBlacklisted s t = blacklisted (scr_blacklist s) t"

text \<open>\<open>Get\<close> through a nil pointer panics.\<close>

definition scripts_Get :: "session_scripts option \<Rightarrow> script_type \<Rightarrow> config_object list go" where
  "scripts_Get s t = (case s of None \<Rightarrow> Panic NilDereference | Some ss \<Rightarrow> Ret (scr_scripts ss t))"

fun sort_scripts ::
  "'re regexp_lib \<Rightarrow> 'u url_lib \<Rightarrow> string \<Rightarrow> config_object list \<Rightarrow> session_scripts \<Rightarrow>
     session_scripts" where
  "sort_scripts rx lib uri [] bs = bs"
| "sort_scripts rx lib uri (s # ss) bs =
     (let scriptType = GetBrowserScriptType (GetBrowserScript s) in
      if IsBlacklisted bs scriptType then sort_scripts rx lib uri ss bs
      else if \<not> script_match rx lib (GetUrlRegexp (GetBrowserScript s)) uri
      then sort_scripts rx lib uri ss bs
      else sort_scripts rx lib uri ss
             (bs\<lparr>scr_scripts := (scr_scripts bs)
                  (scriptType := scr_scripts bs scriptType @ [s])\<rparr>))"

text \<open>
  \<open>get_scripts\<close> is \<open>GetScripts\<close> of the configuration cache for the session's browser config.
  The uri of the requested page is read when there is a script to match, which panics when
  there is no requested page.
\<close>

definition loadScripts ::
  "('w \<Rightarrow> (error + config_object list) go \<times> 'w) \<Rightarrow> 're regexp_lib \<Rightarrow> 'u url_lib \<Rightarrow>
     queued_uri option \<Rightarrow> 'w \<Rightarrow> (error + session_scripts) go \<times> 'w" where
  "loadScripts get_scripts rx lib requestedUrl w =
     (case get_scripts w of
        (Panic p, w1) \<Rightarrow> (Panic p, w1)
      | (Ret (Inl err), w1) \<Rightarrow> (Ret (Inl err), w1)
      | (Ret (Inr scripts), w1) \<Rightarrow>
          (case requestedUrl of
             Some u \<Rightarrow> (Ret (Inr (sort_scripts rx lib (qu_Uri u) scripts newSessionScripts)), w1)
           | None \<Rightarrow>
               if list_all (\<lambda>s. IsBlacklisted newSessionScripts
                    (GetBrowserScriptType (GetBrowserScript s))) scripts
               then (Ret (Inr newSessionScripts), w1)
               else (Panic NilDereference, w1)))"

lemma blacklisted_iff [simp]: "blacklisted bs t \<longleftrightarrow> t \<in> set bs"
  by (induction bs) auto

lemma match_any_iff:
  "match_any rx rs u \<longleftrightarrow> (\<exists>r \<in> set rs. \<exists>re. re_Compile rx r = Some re \<and> re_MatchString rx re u)"
  by (induction rs) (auto split: option.splits)

definition applies :: "'re regexp_lib \<Rightarrow> 'u url_lib \<Rightarrow> string \<Rightarrow> config_object \<Rightarrow> bool" where
  "applies rx lib uri s \<longleftrightarrow>
     (let rs = GetUrlRegexp (GetBrowserScript s)
      in rs = [] \<or> (\<exists>r \<in> set rs. \<exists>re. re_Compile rx r = Some re
                       \<and> re_MatchString rx re (url_Normalize lib uri)))"

lemma script_match_applies:
  "script_match rx lib (GetUrlRegexp (GetBrowserScript s)) uri \<longleftrightarrow> applies rx lib uri s"
  by (auto simp: script_match_def applies_def match_any_iff Let_def)

lemma sort_scripts_eq:
  "scr_blacklist (sort_scripts rx lib uri ss bs) = scr_blacklist bs
   \<and> scr_scripts (sort_scripts rx lib uri ss bs) t = scr_scripts bs t
     @ filter (\<lambda>s. GetBrowserScriptType (GetBrowserScript s) = t \<and> t \<notin> set (scr_blacklist bs)
          \<and> applies rx lib uri s) ss"
  by (induction ss arbitrary: bs) (auto simp: Let_def IsBlacklisted_def script_match_applies)

text \<open>
  The scripts loaded for a type are, in the order of the configuration,
  those of that type whose url expressions match the page (or that have none); a script that
  checks scope is never loaded.
\<close>

lemma loadScripts_selects:
  assumes "loadScripts get_scripts rx lib (Some u) w = (Ret (Inr bs), w1)"
  shows "\<exists>scripts. get_scripts w = (Ret (Inr scripts), w1)
    \<and> scripts_Get (Some bs) t = Ret (if t = SCOPE_CHECK then []
        else filter (\<lambda>s. GetBrowserScriptType (GetBrowserScript s) = t \<and> applies rx lib (qu_Uri u) s)
               scripts)"
proof -
  obtain scripts where "get_scripts w = (Ret (Inr scripts), w1)"
      "bs = sort_scripts rx lib (qu_Uri u) scripts newSessionScripts"
    using assms by (auto simp: loadScripts_def split: prod.splits go.splits sum.splits)
  then show ?thesis
    using sort_scripts_eq [of rx lib "qu_Uri u" scripts newSessionScripts t]
    by (auto simp: scripts_Get_def newSessionScripts_def)
qed

section \<open>Replacement scripts\<close>

fun best_regexp ::
  "'re regexp_lib \<Rightarrow> string \<Rightarrow> browser_script \<Rightarrow> string list \<Rightarrow> nat \<times> browser_script option \<Rightarrow>
     nat \<times> browser_script option" where
  "best_regexp rx u b [] best = best"
| "best_regexp rx u b (urlRegexp # rest) best =
     (case re_Compile rx urlRegexp of
        Some re \<Rightarrow>
          (let l = length (re_FindLongest rx re u)
           in if 0 < l \<and> fst best < l then best_regexp rx u b rest (l, Some b)
              else best_regexp rx u b rest best)
      | None \<Rightarrow> best_regexp rx u b rest best)"

text \<open>The field of a nil browser script is read, which panics.\<close>

fun best_replacement ::
  "'re regexp_lib \<Rightarrow> string \<Rightarrow> config_object list \<Rightarrow> nat \<times> browser_script option \<Rightarrow>
     browser_script option go" where
  "best_replacement rx u [] best = Ret (snd best)"
| "best_replacement rx u (bc # rest) best =
     (case GetBrowserScript bc of
        None \<Rightarrow> Panic NilDereference
      | Some b \<Rightarrow> best_replacement rx u rest (best_regexp rx u b (bs_UrlRegexp b) best))"

definition GetReplacementScript ::
  "'re regexp_lib \<Rightarrow> 'u url_lib \<Rightarrow> string \<Rightarrow> session \<Rightarrow> browser_script option go" where
  "GetReplacementScript rx lib uri sess =
     go_bind (scripts_Get (ses_scripts sess) REPLACEMENT) (\<lambda>replacements.
       if replacements = [] then Ret None
       else best_replacement rx (url_Normalize lib uri) replacements (0, None))"

text \<open>The lengths of the matches of a script's expressions.\<close>

definition match_lengths :: "'re regexp_lib \<Rightarrow> string \<Rightarrow> browser_script \<Rightarrow> nat list" where
  "match_lengths rx u b =
     concat (map (\<lambda>r. case re_Compile rx r of None \<Rightarrow> []
        | Some re \<Rightarrow> [length (re_FindLongest rx re u)]) (bs_UrlRegexp b))"

fun best_of :: "(nat \<times> browser_script) list \<Rightarrow> nat \<times> browser_script option \<Rightarrow>
    nat \<times> browser_script option" where
  "best_of [] best = best"
| "best_of ((l, b) # rest) best = best_of rest (if fst best < l then (l, Some b) else best)"

lemma best_of_append: "best_of (xs @ ys) best = best_of ys (best_of xs best)"
  by (induction xs best rule: best_of.induct) auto

lemma best_regexp_best_of:
  "best_regexp rx u b rs best
     = best_of (map (\<lambda>l. (l, b)) (concat (map (\<lambda>r. case re_Compile rx r of None \<Rightarrow> []
          | Some re \<Rightarrow> [length (re_FindLongest rx re u)]) rs))) best"
  by (induction rs arbitrary: best) (auto simp: Let_def split: option.splits)

definition candidates ::
  "'re regexp_lib \<Rightarrow> string \<Rightarrow> config_object list \<Rightarrow> (nat \<times> browser_script) list" where
  "candidates rx u cs =
     concat (map (\<lambda>c. case GetBrowserScript c of None \<Rightarrow> []
        | Some b \<Rightarrow> map (\<lambda>l. (l, b)) (match_lengths rx u b)) cs)"

lemma best_replacement_best_of:
  "\<forall>c \<in> set cs. GetBrowserScript c \<noteq> None \<Longrightarrow>
   best_replacement rx u cs best = Ret (snd (best_of (candidates rx u cs) best))"
proof (induction cs arbitrary: best)
  case Nil
  then show ?case by (simp add: candidates_def)
next
  case (Cons c cs)
  then obtain b where b: "GetBrowserScript c = Some b" by auto
  have "best_replacement rx u cs (best_regexp rx u b (bs_UrlRegexp b) best)
      = Ret (snd (best_of (candidates rx u cs) (best_regexp rx u b (bs_UrlRegexp b) best)))"
    using Cons.IH Cons.prems by simp
  then show ?case
    using b by (simp add: candidates_def best_of_append best_regexp_best_of match_lengths_def)
qed

lemma best_of_spec:
  assumes "best_of xs best = (m, r)"
  shows "fst best \<le> m \<and> (\<forall>(l, b) \<in> set xs. l \<le> m)
    \<and> (if fst best = m then r = snd best
       else \<exists>ys b zs. xs = ys @ (m, b) # zs \<and> r = Some b \<and> (\<forall>(l, b) \<in> set ys. l < m))"
  using assms
proof (induction xs best rule: best_of.induct)
  case (1 best)
  then show ?case by simp
next
  case (2 l b rest best)
  show ?case
  proof (cases "fst best < l")
    case False
    then have "best_of rest best = (m, r)" using 2(2) by simp
    with 2(1) False have IH: "fst best \<le> m" "\<forall>(l, b) \<in> set rest. l \<le> m"
        "if fst best = m then r = snd best
         else \<exists>ys b zs. rest = ys @ (m, b) # zs \<and> r = Some b \<and> (\<forall>(l, b) \<in> set ys. l < m)"
      by auto
    show ?thesis
    proof (cases "fst best = m")
      case True
      then show ?thesis using IH False by auto
    next
      case ne: False
      then obtain ys b' zs where "rest = ys @ (m, b') # zs" "r = Some b'" "\<forall>(l, b) \<in> set ys. l < m"
        using IH(3) by auto
      moreover have "l < m" using ne False IH(1) by simp
      ultimately have "(l, b) # rest = ((l, b) # ys) @ (m, b') # zs \<and> r = Some b'
          \<and> (\<forall>(l, b) \<in> set ((l, b) # ys). l < m)" by simp
      then have "\<exists>ys b' zs. (l, b) # rest = ys @ (m, b') # zs \<and> r = Some b'
          \<and> (\<forall>(l, b) \<in> set ys. l < m)" by blast
      then show ?thesis using IH(1,2) False ne by simp
    qed
  next
    case True
    then have "best_of rest (l, Some b) = (m, r)" using 2(2) by simp
    with 2(1) True have IH: "l \<le> m" "\<forall>(l, b) \<in> set rest. l \<le> m"
        "if l = m then r = Some b
         else \<exists>ys b zs. rest = ys @ (m, b) # zs \<and> r = Some b \<and> (\<forall>(l, b) \<in> set ys. l < m)"
      by auto
    show ?thesis
    proof (cases "l = m")
      case eq: True
      then have "(l, b) # rest = [] @ (m, b) # rest \<and> r = Some b
          \<and> (\<forall>(l, b) \<in> set ([] :: (nat \<times> browser_script) list). l < m)" using IH by simp
      then have "\<exists>ys b' zs. (l, b) # rest = ys @ (m, b') # zs \<and> r = Some b'
          \<and> (\<forall>(l, b) \<in> set ys. l < m)" by blast
      then show ?thesis using IH(1,2) eq True by simp
    next
      case ne: False
      then obtain ys b' zs where "rest = ys @ (m, b') # zs" "r = Some b'" "\<forall>(l, b) \<in> set ys. l < m"
        using IH(3) by auto
      then have "(l, b) # rest = ((l, b) # ys) @ (m, b') # zs \<and> r = Some b'
          \<and> (\<forall>(l, b) \<in> set ((l, b) # ys). l < m)" using IH(1) ne by simp
      then have "\<exists>ys b' zs. (l, b) # rest = ys @ (m, b') # zs \<and> r = Some b'
          \<and> (\<forall>(l, b) \<in> set ys. l < m)" by blast
      then show ?thesis using IH(1,2) ne True by simp
    qed
  qed
qed

text \<open>
  C31 (functional). \<open>GetReplacementScript\<close> returns the script of the longest match: its
  match of the normalized url is not empty, no expression of any replacement script matches
  more, and every script before it in the list matches less; nothing is returned exactly
  when no expression matches a non-empty part of the url.
\<close>

theorem GetReplacementScript_longest:
  assumes "scripts_Get (ses_scripts sess) REPLACEMENT = Ret replacements"
    and "\<forall>c \<in> set replacements. GetBrowserScript c \<noteq> None"
  shows "case GetReplacementScript rx lib uri sess of
      Panic p \<Rightarrow> False
    | Ret None \<Rightarrow> \<forall>(l, b) \<in> set (candidates rx (url_Normalize lib uri) replacements). l = 0
    | Ret (Some best) \<Rightarrow>
        \<exists>ys m zs. candidates rx (url_Normalize lib uri) replacements = ys @ (m, best) # zs
          \<and> 0 < m \<and> (\<forall>(l, b) \<in> set ys. l < m) \<and> (\<forall>(l, b) \<in> set zs. l \<le> m)"
proof -
  let ?cs = "candidates rx (url_Normalize lib uri) replacements"
  obtain m r where best: "best_of ?cs (0, None) = (m, r)" by fastforce
  have eq: "GetReplacementScript rx lib uri sess = Ret r"
  proof (cases "replacements = []")
    case True
    then show ?thesis using assms(1) best by (simp add: GetReplacementScript_def candidates_def)
  next
    case False
    then show ?thesis
      using assms(1) best best_replacement_best_of [OF assms(2), of rx "url_Normalize lib uri"]
      by (simp add: GetReplacementScript_def)
  qed
  show ?thesis
  proof (cases "m = 0")
    case True
    then show ?thesis using best_of_spec [OF best] eq by auto
  next
    case False
    then obtain ys b zs where "?cs = ys @ (m, b) # zs" "r = Some b" "\<forall>(l, b) \<in> set ys. l < m"
      using best_of_spec [OF best] by auto
    moreover have "\<forall>(l, b) \<in> set ?cs. l \<le> m" using best_of_spec [OF best] by auto
    ultimately have "?cs = ys @ (m, b) # zs \<and> 0 < m \<and> (\<forall>(l, b) \<in> set ys. l < m)
        \<and> (\<forall>(l, b) \<in> set zs. l \<le> m)" using False by simp
    then have "\<exists>ys m zs. ?cs = ys @ (m, b) # zs \<and> 0 < m \<and> (\<forall>(l, b) \<in> set ys. l < m)
        \<and> (\<forall>(l, b) \<in> set zs. l \<le> m)" by blast
    then show ?thesis using eq \<open>r = Some b\<close> by simp
  qed
qed

text \<open>A library in which an expression is a prefix it matches.\<close>

definition prefix_regexps :: "string regexp_lib" where
  "prefix_regexps =
     \<lparr>re_Compile = (\<lambda>r. if r = [] then None else Some r), re_MatchString = (\<lambda>r u. HasPrefix u r),
      re_FindLongest = (\<lambda>r u. if HasPrefix u r then r else [])\<rparr>"

definition replacement :: "string \<Rightarrow> string list \<Rightarrow> config_object" where
  "replacement i rs = \<lparr>co_Id = i, co_Meta = None,
     co_Spec = BrowserScriptSpec \<lparr>bs_Type = REPLACEMENT, bs_Script = i, bs_UrlRegexp = rs\<rparr>\<rparr>"

definition replacing_session :: session where
  "replacing_session = (newDefaultSession [])\<lparr>ses_scripts :=
     Some (sort_scripts prefix_regexps plain_urls ''http''
       [replacement ''a'' [''ht''], replacement ''b'' [''http'', ''ht'']] newSessionScripts)\<rparr>"

lemma prefix_regexps_simps [simp]:
  "re_Compile prefix_regexps r = (if r = [] then None else Some r)"
  "re_MatchString prefix_regexps r u = HasPrefix u r"
  "re_FindLongest prefix_regexps r u = (if HasPrefix u r then r else [])"
  by (simp_all add: prefix_regexps_def)

lemma replacing_session_scripts:
  "scripts_Get (ses_scripts replacing_session) REPLACEMENT
     = Ret [replacement ''a'' [''ht''], replacement ''b'' [''http'', ''ht'']]"
  by (simp add: scripts_Get_def replacing_session_def replacement_def newSessionScripts_def
      IsBlacklisted_def GetBrowserScript_def GetBrowserScriptType_def GetUrlRegexp_def
      script_match_def Let_def)

theorem GetReplacementScript_longest_witness:
  "case GetReplacementScript prefix_regexps plain_urls ''http'' replacing_session of
     Panic p \<Rightarrow> False
   | Ret None \<Rightarrow> \<forall>(l, b) \<in> set (candidates prefix_regexps ''http''
         [replacement ''a'' [''ht''], replacement ''b'' [''http'', ''ht'']]). l = 0
   | Ret (Some best) \<Rightarrow>
       \<exists>ys m zs. candidates prefix_regexps ''http''
           [replacement ''a'' [''ht''], replacement ''b'' [''http'', ''ht'']] = ys @ (m, best) # zs
         \<and> 0 < m \<and> (\<forall>(l, b) \<in> set ys. l < m) \<and> (\<forall>(l, b) \<in> set zs. l \<le> m)"
proof -
  have "\<forall>c \<in> set [replacement ''a'' [''ht''], replacement ''b'' [''http'', ''ht'']].
      GetBrowserScript c \<noteq> None"
    by (simp add: replacement_def GetBrowserScript_def)
  from GetReplacementScript_longest [OF replacing_session_scripts this,
      of prefix_regexps plain_urls "''http''", unfolded plain_urls_Normalize]
  show ?thesis .
qed

definition http_uri :: "string \<Rightarrow> queued_uri" where
  "http_uri u = \<lparr>qu_Uri = u, qu_ExecutionId = [], qu_JobExecutionId = [], qu_DiscoveryPath = [],
     qu_Referrer = [], qu_SeedUri = [], qu_Cookies = [], qu_Annotation = []\<rparr>"

definition one_script :: "unit \<Rightarrow> (error + config_object list) go \<times> unit" where
  "one_script w = (Ret (Inr [replacement ''a'' [''ht'']]), w)"

lemma loadScripts_selects_instance:
  "\<exists>scripts. one_script () = (Ret (Inr scripts), ())
    \<and> scripts_Get (Some (sort_scripts prefix_regexps plain_urls ''http''
          [replacement ''a'' [''ht'']] newSessionScripts)) REPLACEMENT
      = Ret (if REPLACEMENT = SCOPE_CHECK then []
        else filter (\<lambda>s. GetBrowserScriptType (GetBrowserScript s) = REPLACEMENT
               \<and> applies prefix_regexps plain_urls ''http'' s) scripts)"
proof -
  have "loadScripts one_script prefix_regexps plain_urls (Some (http_uri ''http'')) ()
      = (Ret (Inr (sort_scripts prefix_regexps plain_urls ''http''
          [replacement ''a'' [''ht'']] newSessionScripts)), ())"
    by (simp add: loadScripts_def one_script_def http_uri_def)
  from loadScripts_selects [OF this, of REPLACEMENT] show ?thesis
    unfolding http_uri_def queued_uri.select_convs .
qed

section \<open>Running scripts in the page\<close>

text \<open>
  What the browser does, on a state \<open>'w\<close> of the world: the frame tree of the page (its root
  frame), creating an isolated world in a frame, calling a function in an execution context,
  evaluating an expression. A call gives an error, an exception of the script, or the result
  value (\<open>None\<close> when it has none).
\<close>

record 'w browser =
  br_GetFrameTree :: "'w \<Rightarrow> (error + string) \<times> 'w"
  br_CreateIsolatedWorld :: "string \<Rightarrow> 'w \<Rightarrow> (error + int) \<times> 'w"
  br_CallFunctionOn :: "string \<Rightarrow> gomap \<Rightarrow> int \<Rightarrow> bool \<Rightarrow> 'w \<Rightarrow> (error + error option \<times> raw option) \<times> 'w"

definition getExecutionContextID :: "'w browser \<Rightarrow> 'w \<Rightarrow> (error + int) \<times> 'w" where
  "getExecutionContextID br w =
     (case br_GetFrameTree br w of
        (Inl err, w1) \<Rightarrow> (Inl (Wrapped ''failed to get frameTree: '' (Some err)), w1)
      | (Inr frame, w1) \<Rightarrow>
          (case br_CreateIsolatedWorld br frame w1 of
             (Inl err, w2) \<Rightarrow> (Inl (Wrapped ''failed to create isolated world: '' (Some err)), w2)
           | (Inr eci, w2) \<Rightarrow> (Inr eci, w2)))"

definition callScript ::
  "'w browser \<Rightarrow> int \<Rightarrow> string \<Rightarrow> gomap \<Rightarrow> 'w \<Rightarrow> (error + raw option) \<times> 'w" where
  "callScript br eci functionDeclaration arguments w =
     (let awaitPromise = HasPrefix functionDeclaration ''async ''
      in case br_CallFunctionOn br functionDeclaration arguments eci awaitPromise w of
           (Inl err, w1) \<Rightarrow> (Inl err, w1)
         | (Inr (Some exceptionDetails, v), w1) \<Rightarrow> (Inl exceptionDetails, w1)
         | (Inr (None, v), w1) \<Rightarrow> (Inr v, w1))"

text \<open>\<open>execute\<close> of \<open>executeScripts\<close>, with the way it resolves an execution context.\<close>

definition execute_script ::
  "'w browser \<Rightarrow> ('w \<Rightarrow> (error + int) \<times> 'w) \<Rightarrow> config_object \<Rightarrow> gomap \<Rightarrow> 'w \<Rightarrow>
     (error + raw option) \<times> 'w" where
  "execute_script br resolve configObject arguments w =
     (case resolve w of
        (Inl err, w1) \<Rightarrow>
          (Inl (script_error ''failed to resolve execution context id for script''
                  (GetName configObject) (co_Id configObject) (Some err)), w1)
      | (Inr eci, w1) \<Rightarrow> callScript br eci (GetScript (GetBrowserScript configObject)) arguments w1)"

text \<open>
  The loop over the scripts of a type. The map holds the chained scripts and every script
  started so far. Formatting the error reads the script's metadata, which panics when there
  is none.
\<close>

fun execute_loop ::
  "'w callbacks \<Rightarrow> annotation list \<Rightarrow> config_object list \<Rightarrow> (string \<rightharpoonup> config_object) \<Rightarrow> 'w \<Rightarrow>
     (error option go \<times> 'w) option" where
  "execute_loop cb annotations [] scripts w = Some (Ret None, w)"
| "execute_loop cb annotations (s # ss) scripts w =
     (let scripts1 = scripts(co_Id s \<mapsto> s) in
      case script_Run (co_Id s) scripts1 annotations cb w of
        None \<Rightarrow> None
      | Some (Some err, w1) \<Rightarrow>
          (case co_Meta s of
             None \<Rightarrow> Some (Panic NilDereference, w1)
           | Some m \<Rightarrow> Some (Ret (Some (script_error ''failed to run script'' (meta_Name m) (co_Id s)
                               (Some err))), w1))
      | Some (None, w1) \<Rightarrow> execute_loop cb annotations ss scripts1 w1)"

text \<open>
  \<open>wait\<close> waits for the network to calm down and resets the timer; it is a parameter here.
  \<open>None\<close> is an execution that does not return, because a script chains to itself.
\<close>

definition executeScripts ::
  "'w browser \<Rightarrow> ('w \<Rightarrow> 'w) \<Rightarrow> session_scripts option \<Rightarrow> annotation list \<Rightarrow> script_type \<Rightarrow> 'w \<Rightarrow>
     (error option go \<times> 'w) option" where
  "executeScripts br wait ss annotations scriptType w =
     (let run = (\<lambda>resolve w1.
        (case scripts_Get ss UNDEFINED of
           Panic p \<Rightarrow> Some (Panic p, w1)
         | Ret chained \<Rightarrow>
             (case scripts_Get ss scriptType of
                Panic p \<Rightarrow> Some (Panic p, w1)
              | Ret initial \<Rightarrow>
                  execute_loop \<lparr>cb_execute = execute_script br resolve, cb_wait = wait\<rparr>
                    annotations initial
                    (fold (\<lambda>s m. m(co_Id s \<mapsto> s)) chained Map.empty) w1)))
      in case scriptType of
           ON_LOAD \<Rightarrow>
             (case getExecutionContextID br w of
                (Inl err, w1) \<Rightarrow>
                  Some (Ret (Some (Wrapped ''failed to get isolated execution context id: ''
                                    (Some err))), w1)
              | (Inr executionContextID, w1) \<Rightarrow> run (\<lambda>w2. (Inr executionContextID, w2)) w1)
         | ON_NEW_DOCUMENT \<Rightarrow> run (getExecutionContextID br) w
         | _ \<Rightarrow> Some (Ret (Some (PlainError ''script execution for type is not implemented'')), w))"

lemmas script_defs [step_defs] =
  execute_script_def callScript_def getExecutionContextID_def executeScripts_def

section \<open>Which contexts the scripts run in\<close>

text \<open>Anything that the callbacks keep, a run of a script keeps.\<close>

lemma Run_round_keeps:
  assumes "I e" and "Run_round scripts annotations cb key data e = (out, e1)"
    and "\<And>c a e. I e \<Longrightarrow> I (snd (cb_execute cb c a e))" and "\<And>e. I e \<Longrightarrow> I (cb_wait cb e)"
  shows "I e1"
proof -
  have "e1 = e \<or> (\<exists>c a. e1 = snd (cb_execute cb c a e) \<or> e1 = cb_wait cb (snd (cb_execute cb c a e)))"
    using assms(2)
    by (auto simp: Run_round_def marshal_params_def Let_def split: option.splits sum.splits prod.splits
        if_splits) (metis snd_conv)+
  then show ?thesis using assms(1,3,4) by auto
qed

lemma Run_loop_keeps:
  assumes keep: "\<And>c a e. I e \<Longrightarrow> I (snd (cb_execute cb c a e))" "\<And>e. I e \<Longrightarrow> I (cb_wait cb e)"
    and run: "Run_loop scripts annotations cb key data e = Some (r, e1)" and "I e"
  shows "I e1"
proof -
  let ?P = "\<lambda>scripts annotations cb' key data e out. cb' = cb \<longrightarrow> I e \<longrightarrow> I (snd out)"
  have "?P scripts annotations cb key data e (r, e1)"
  proof (rule Run_loop.raw_induct [where P = ?P, OF _ run])
    fix loop scripts annotations cb' key data e out
    assume IH: "\<And>scripts annotations cb' key data e out.
        loop scripts annotations cb' key data e = Some out \<Longrightarrow> cb' = cb \<longrightarrow> I e \<longrightarrow> I (snd out)"
      and step: "(if key = [] then Some (None, e)
        else case Run_round scripts annotations cb' key data e of
          (Inl r, e1) \<Rightarrow> Some (r, e1)
        | (Inr (next, data1), e1) \<Rightarrow> loop scripts annotations cb' next data1 e1) = Some out"
    show "cb' = cb \<longrightarrow> I e \<longrightarrow> I (snd out)"
    proof (intro impI)
      assume cb: "cb' = cb" and e: "I e"
      obtain x e2 where round: "Run_round scripts annotations cb' key data e = (x, e2)"
        by fastforce
      have "I e2" using Run_round_keeps [of I e scripts annotations cb key data x e2] e round keep cb
        by blast
      then show "I (snd out)"
        using step e cb round by (auto split: if_splits sum.splits dest: IH)
    qed
  qed
  with \<open>I e\<close> show ?thesis by simp
qed

lemma execute_loop_keeps:
  assumes keep: "\<And>c a e. I e \<Longrightarrow> I (snd (cb_execute cb c a e))" "\<And>e. I e \<Longrightarrow> I (cb_wait cb e)"
    and "execute_loop cb annotations ss scripts w = Some (r, w1)" and "I w"
  shows "I w1"
  using assms(3,4)
proof (induction ss arbitrary: scripts w)
  case Nil
  then show ?case by simp
next
  case (Cons s ss)
  obtain q w2 where run: "script_Run (co_Id s) (scripts(co_Id s \<mapsto> s)) annotations cb w = Some (q, w2)"
    using Cons.prems(1) by (auto simp: Let_def split: option.splits)
  have "I w2"
    using Run_loop_keeps [of I cb, OF keep] run Cons.prems(2) unfolding script_Run_def by blast
  then show ?case
    using Cons.IH Cons.prems(1) run by (auto simp: Let_def split: option.splits)
qed

text \<open>What the functions of the browser and the wait keep, the execution of scripts keeps.\<close>

definition browser_keeps :: "('w \<Rightarrow> bool) \<Rightarrow> 'w browser \<Rightarrow> bool" where
  "browser_keeps I br \<longleftrightarrow> (\<forall>w. I w \<longrightarrow> I (snd (br_GetFrameTree br w))
     \<and> (\<forall>f. I (snd (br_CreateIsolatedWorld br f w)))
     \<and> (\<forall>f a eci p. I (snd (br_CallFunctionOn br f a eci p w))))"

lemma getExecutionContextID_keeps:
  "browser_keeps I br \<Longrightarrow> I w \<Longrightarrow> I (snd (getExecutionContextID br w))"
  by (auto simp: browser_keeps_def getExecutionContextID_def split: prod.splits sum.splits) (metis snd_conv)+

lemma execute_script_keeps:
  assumes "browser_keeps I br" and "\<And>w. I w \<Longrightarrow> I (snd (resolve w))" and "I w"
  shows "I (snd (execute_script br resolve c a w))"
proof -
  have "I (snd (callScript br eci f a w1))" if "I w1" for eci f w1
    using assms(1) that unfolding browser_keeps_def callScript_def Let_def
    by (auto split: prod.splits sum.splits option.splits) (metis snd_conv)+
  then show ?thesis
    using assms(2) [OF assms(3)] by (auto simp: execute_script_def split: prod.splits sum.splits)
qed

lemma executeScripts_keeps:
  assumes br: "browser_keeps I br" and wait: "\<And>w. I w \<Longrightarrow> I (wait w)" and w: "I w"
    and run: "executeScripts br wait ss annotations t w = Some (r, w1)"
  shows "I w1"
proof -
  have loop: "I w1" if "execute_loop \<lparr>cb_execute = execute_script br resolve, cb_wait = wait\<rparr> annotations cs m w0
      = Some (r, w1)" and "I w0" and "\<And>w. I w \<Longrightarrow> I (snd (resolve w))" for resolve cs m w0
    using execute_loop_keeps [of I, OF _ _ that(1,2)] execute_script_keeps [OF br that(3)] wait by simp
  note eci = getExecutionContextID_keeps [OF br]
  show ?thesis
    using run w eci [OF w]
    by (auto simp: executeScripts_def Let_def split: script_type.splits go.splits sum.splits prod.splits
        intro: loop eci)
qed

text \<open>
  A browser that records the execution contexts in which functions are called.
\<close>

definition watching :: "'w browser \<Rightarrow> ('w \<times> int list) browser" where
  "watching br =
     \<lparr>br_GetFrameTree = (\<lambda>(w, cs). let (r, w1) = br_GetFrameTree br w in (r, w1, cs)),
      br_CreateIsolatedWorld = (\<lambda>f (w, cs). let (r, w1) = br_CreateIsolatedWorld br f w in (r, w1, cs)),
      br_CallFunctionOn = (\<lambda>f a eci p (w, cs).
         let (r, w1) = br_CallFunctionOn br f a eci p w in (r, w1, cs @ [eci]))\<rparr>"

lemma callScript_watching:
  "snd (snd (callScript (watching br) eci f a (w, cs))) = cs @ [eci]"
  by (auto simp: callScript_def watching_def Let_def split: prod.splits sum.splits option.splits)

lemma getExecutionContextID_watching:
  "getExecutionContextID (watching br) (w, cs) = (r, w1, cs1) \<Longrightarrow> cs1 = cs"
  by (auto simp: getExecutionContextID_def watching_def Let_def split: prod.splits sum.splits)

text \<open>
  All functions that the scripts of the ON_LOAD phase (and the scripts they
  chain to) call run in one execution context, the one created before the first of them.
\<close>

lemma executeScripts_one_context:
  assumes "executeScripts (watching br) (\<lambda>(w, cs). (wait w, cs)) ss annotations ON_LOAD (w, [])
      = Some (r, w1, calls)"
    and "fst (getExecutionContextID (watching br) (w, [])) = Inr eci"
  shows "set calls \<subseteq> {eci}"
proof -
  obtain w0 where eci: "getExecutionContextID (watching br) (w, []) = (Inr eci, w0, [])"
    using assms(2) getExecutionContextID_watching [of br w "[]" "Inr eci"]
    by (metis prod.collapse)
  let ?I = "\<lambda>(s :: 'a \<times> int list). set (snd s) \<subseteq> {eci}"
  let ?cb = "\<lparr>cb_execute = execute_script (watching br) (\<lambda>w2. (Inr eci, w2)),
      cb_wait = (\<lambda>(w, cs). (wait w, cs))\<rparr>"
  have keep: "?I (snd (cb_execute ?cb c a e))" if "?I e" for c a e
    using that callScript_watching [of br eci "GetScript (GetBrowserScript c)" a "fst e" "snd e"]
    by (cases e) (auto simp: execute_script_def)
  have wait: "?I (cb_wait ?cb e)" if "?I e" for e
    using that by (cases e) auto
  show ?thesis
  proof (cases ss)
    case None
    then show ?thesis using assms(1) eci by (auto simp: executeScripts_def scripts_Get_def)
  next
    case (Some bs)
    then have "execute_loop ?cb annotations (scr_scripts bs ON_LOAD)
        (fold (\<lambda>s m. m(co_Id s \<mapsto> s)) (scr_scripts bs UNDEFINED) Map.empty) (w0, [])
      = Some (r, w1, calls)"
      using assms(1) eci by (simp add: executeScripts_def scripts_Get_def)
    from execute_loop_keeps [of ?I ?cb, OF keep wait this] show ?thesis by simp
  qed
qed

definition one_page :: "nat browser" where
  "one_page =
     \<lparr>br_GetFrameTree = (\<lambda>n. (Inr ''root'', n)),
      br_CreateIsolatedWorld = (\<lambda>f n. (Inr (int n), Suc n)),
      br_CallFunctionOn = (\<lambda>f a eci p n. (Inr (None, None), n))\<rparr>"

definition loaded :: "string list \<Rightarrow> session_scripts" where
  "loaded ids = newSessionScripts\<lparr>scr_scripts := (\<lambda>t. if t = ON_LOAD
     then map (\<lambda>i. \<lparr>co_Id = i, co_Meta = None, co_Spec = NoSpec\<rparr>) ids else [])\<rparr>"

lemma script_Run_no_result:
  assumes "scripts key = Some s" and "key \<noteq> []"
    and "fst (cb_execute cb s (script_params s annotations Map.empty) e) = Inr None"
  shows "script_Run key scripts annotations cb e
    = Some (None, snd (cb_execute cb s (script_params s annotations Map.empty) e))"
  using assms
  by (cases "cb_execute cb s (script_params s annotations Map.empty) e")
    (simp add: script_Run_def Run_loop.simps Run_round_def marshal_params_def)

lemma one_page_calls:
  "execute_script (watching one_page) (\<lambda>w2. (Inr eci, w2)) c a (w, cs) = (Inr None, w, cs @ [eci])"
  by (simp add: execute_script_def callScript_def watching_def one_page_def)

lemma executeScripts_one_context_instance:
  "set [4, 4 :: int] \<subseteq> {4}"
proof -
  let ?wait = "\<lambda>(w, cs). (id w, cs)"
  let ?cb = "\<lparr>cb_execute = execute_script (watching one_page) (\<lambda>w2. (Inr 4, w2)), cb_wait = ?wait\<rparr>"
  have eci: "getExecutionContextID (watching one_page) (4, []) = (Inr 4, 5, [])"
    by (simp add: getExecutionContextID_def watching_def one_page_def)
  have loop: "execute_loop ?cb [] (scr_scripts (loaded [''a'', ''b'']) ON_LOAD) Map.empty (5, [])
      = Some (Ret None, 5, [4, 4])"
    by (simp add: loaded_def script_Run_no_result one_page_calls Let_def)
  have "executeScripts (watching one_page) ?wait (Some (loaded [''a'', ''b''])) []
      ON_LOAD (4, []) = Some (Ret None, 5, [4, 4])"
    unfolding executeScripts_def Let_def script_type.case eci prod.case sum.case scripts_Get_def
      option.case go.case
    using loop by (simp add: loaded_def newSessionScripts_def)
  from executeScripts_one_context [OF this, of 4] show ?thesis by (simp add: eci)
qed

lemma executeScripts_other_types:
  "t \<notin> {ON_LOAD, ON_NEW_DOCUMENT} \<Longrightarrow> \<exists>e. executeScripts br wait ss annotations t w = Some (Ret (Some e), w)"
  by (cases t) (auto simp: executeScripts_def)

end
