(* ===== verification/Listeners.thy ===== *)
theory Listeners
  imports Session
begin

text \<open>
  \<^verbatim>\<open>session/eventlisteners.go\<close>: how a session reacts to the events of the browser. The
  handler returns the session afterwards and the commands it sends to the browser, in order;
  the parts the code runs in goroutines of their own are run at once.
\<close>

section \<open>Events and commands\<close>

text \<open>
  A value of a header map: nil, or a value whose text under \<open>fmt.Sprintf("%v", ...)\<close> is
  given. The headers of a request are listed in the order the iteration over the map takes;
  no name occurs twice.
\<close>

datatype header_value = HNil | HVal string

record paused_event =
  pe_RequestID :: string
  pe_NetworkID :: string
  pe_URL :: string
  pe_URLFragment :: string
  pe_Method :: string
  pe_Headers :: "(string \<times> header_value) list"
  pe_ResourceType :: string
  pe_ResponseStatusCode :: int64
  pe_ResponseErrorReason :: string

datatype event =
    EventRequestWillBeSent string string
  | EventLoadingFailed string
  | EventFrameStartedLoading string
  | EventFrameStoppedLoading string
  | EventFileChooserOpened string
  | EventJavascriptDialogOpening string
  | EventTargetCreated string string
  | EventRequestPaused paused_event
  | OtherEvent

record cookie_param =
  cp_Name :: string
  cp_Value :: string
  cp_URL :: string
  cp_Domain :: string
  cp_Path :: string
  cp_Secure :: bool
  cp_HTTPOnly :: bool
  cp_SameSite :: string

datatype action =
    FetchEnable
  | RuntimeEnable
  | NetworkEnable
  | PageEnable
  | SetAutoAttach bool bool
  | RunIfWaitingForDebugger
  | SetCacheDisabled bool
  | SetIgnoreCertificateErrors bool
  | SetCookies "cookie_param list"

text \<open>
  A continued request keeps its url, method and headers, or has them replaced.
\<close>

datatype command =
    ContinueRequest string "(string \<times> string \<times> (string \<times> string) list) option"
  | HandleJavaScriptDialog bool
  | RunInTarget string "action list"

text \<open>
  \<open>getCookieParams\<close> of \<^verbatim>\<open>session/session.go\<close>, without the expiry time, a floating-point
  number that is split into seconds and nanoseconds.
\<close>

definition getCookieParams :: "queued_uri option \<Rightarrow> cookie_param list" where
  "getCookieParams uri =
     (case uri of None \<Rightarrow> []
      | Some u \<Rightarrow>
          map (\<lambda>c. \<lparr>cp_Name = ck_Name c, cp_Value = ck_Value c, cp_URL = qu_Uri u,
                   cp_Domain = ck_Domain c, cp_Path = ck_Path c, cp_Secure = ck_Secure c,
                   cp_HTTPOnly = ck_HttpOnly c, cp_SameSite = ck_SameSite c\<rparr>) (qu_Cookies u))"

section \<open>The handler\<close>

fun interfaceToString :: "header_value \<Rightarrow> string" where
  "interfaceToString HNil = []"
| "interfaceToString (HVal s) = s"

definition header :: "string \<Rightarrow> (string \<times> header_value) list \<Rightarrow> header_value" where
  "header name hs = (case map_of hs name of None \<Rightarrow> HNil | Some v \<Rightarrow> v)"

definition reqid_header :: string where
  "reqid_header = ''veidemann_reqid''"

definition continue_headers :: "paused_event \<Rightarrow> (string \<times> string) list" where
  "continue_headers ev =
     (let hs = (if header reqid_header (pe_Headers ev) \<noteq> HNil
                then filter (\<lambda>(k, v). k \<noteq> reqid_header) (pe_Headers ev) else pe_Headers ev)
      in map (\<lambda>(k, v). (k, interfaceToString v)) hs @ [(reqid_header, pe_RequestID ev)])"

definition request_of :: "'u url_lib \<Rightarrow> paused_event \<Rightarrow> request" where
  "request_of lib ev =
     \<lparr>rq_Method = pe_Method ev, rq_Url = url_Normalize lib (pe_URL ev @ pe_URLFragment ev),
      rq_RequestId = pe_RequestID ev, rq_NetworkId = pe_NetworkID ev, rq_CrawlLog = None,
      rq_GotNew = False, rq_GotComplete = False, rq_Initiator = [],
      rq_ResourceType = pe_ResourceType ev,
      rq_Referrer = interfaceToString (header ''Referer'' (pe_Headers ev)),
      rq_RedirectParent = None, rq_FromCache = False, rq_rootResource = False\<rparr>"

text \<open>Calling a method of the registry before the fetch has made one panics.\<close>

definition with_registry ::
  "session \<Rightarrow> (request_registry \<Rightarrow> unit go \<times> request_registry) \<Rightarrow> unit go \<times> session" where
  "with_registry s f =
     (case ses_Requests s of
        None \<Rightarrow> (Panic NilDereference, s)
      | Some r \<Rightarrow> (let (res, r1) = f r in (res, s\<lparr>ses_Requests := Some r1\<rparr>)))"

definition set_initiator :: "string \<Rightarrow> string \<Rightarrow> request_registry \<Rightarrow> request_registry" where
  "set_initiator networkId initiator r =
     (case GetByNetworkId networkId r of
        None \<Rightarrow> r
      | Some i \<Rightarrow> r\<lparr>rr_requests := (rr_requests r)
                     [i := (rr_requests r ! i)\<lparr>rq_Initiator := initiator\<rparr>]\<rparr>)"

text \<open>The result of \<open>Notify\<close> is only logged.\<close>

definition notify_logged :: "int \<Rightarrow> string \<Rightarrow> session \<Rightarrow> unit go \<times> session" where
  "notify_logged now i s =
     (let (r, s1) = Session_Notify now i s in (go_bind r (\<lambda>_. Ret ()), s1))"

text \<open>\<open>sent\<close> is whether sending the continuation to the browser succeeds.\<close>

definition request_paused ::
  "'u url_lib \<Rightarrow> int \<Rightarrow> bool \<Rightarrow> paused_event \<Rightarrow> session \<Rightarrow> unit go \<times> session \<times> command list" where
  "request_paused lib now sent ev s =
     (if pe_ResponseStatusCode ev = 0 \<and> pe_ResponseErrorReason ev = []
      then (case with_registry s (\<lambda>r. (Ret (), AddRequest (request_of lib ev) r)) of
              (Panic p, s1) \<Rightarrow> (Panic p, s1, [])
            | (Ret _, s1) \<Rightarrow>
                (let c = ContinueRequest (pe_RequestID ev)
                       (Some (pe_URL ev, pe_Method ev, continue_headers ev))
                 in if sent then (let (r, s2) = notify_logged now (pe_RequestID ev) s1 in (r, s2, [c]))
                    else (Ret (), s1, [c])))
      else (let c = ContinueRequest (pe_RequestID ev) None
            in if sent then (let (r, s2) = notify_logged now (pe_RequestID ev) s in (r, s2, [c]))
               else (Ret (), s, [c])))"

definition target_actions :: "string \<Rightarrow> queued_uri option \<Rightarrow> action list" where
  "target_actions t uri =
     (if t = ''service_worker'' then
        [FetchEnable, RuntimeEnable, SetAutoAttach True False, RunIfWaitingForDebugger,
         SetCacheDisabled True, SetCookies (getCookieParams uri)]
      else if t = ''worker'' then
        [RuntimeEnable, SetAutoAttach True False, RunIfWaitingForDebugger, SetCacheDisabled True]
      else
        [FetchEnable, RuntimeEnable, SetAutoAttach True False, RunIfWaitingForDebugger,
         NetworkEnable, PageEnable, SetCacheDisabled True, SetIgnoreCertificateErrors True,
         SetCookies (getCookieParams uri)])"

fun listenFunc ::
  "'u url_lib \<Rightarrow> int \<Rightarrow> bool \<Rightarrow> event \<Rightarrow> session \<Rightarrow> unit go \<times> session \<times> command list" where
  "listenFunc lib now sent (EventRequestWillBeSent networkId initiator) s =
     (let (r, s1) = with_registry s (\<lambda>r. (Ret (), set_initiator networkId initiator r)) in (r, s1, []))"
| "listenFunc lib now sent (EventFrameStartedLoading f) s =
     (let (r, s1) = with_registry s NotifyLoadStart in (r, s1, []))"
| "listenFunc lib now sent (EventFrameStoppedLoading f) s =
     (let (r, s1) = with_registry s NotifyLoadFinished in (r, s1, []))"
| "listenFunc lib now sent (EventJavascriptDialogOpening t) s =
     (let accept = (if t = ''alert'' then True else False)
      in (Ret (), s, [HandleJavaScriptDialog accept]))"
| "listenFunc lib now sent (EventTargetCreated i t) s =
     (let (r, s1) = notify_logged now i s
      in (r, s1, [RunInTarget i [], RunInTarget i (target_actions t (ses_RequestedUrl s))]))"
| "listenFunc lib now sent (EventRequestPaused ev) s = request_paused lib now sent ev s"
| "listenFunc lib now sent (EventLoadingFailed i) s = (Ret (), s, [])"
| "listenFunc lib now sent (EventFileChooserOpened i) s = (Ret (), s, [])"
| "listenFunc lib now sent OtherEvent s = (Ret (), s, [])"

lemmas listener_defs [step_defs] =
  with_registry_def set_initiator_def notify_logged_def request_paused_def

section \<open>What the handler keeps\<close>

text \<open>
  No event removes, reorders or renames a request: what is registered stays at its place
  with its id, url, method and crawl log. This is what makes a position a request's address.
\<close>

definition same_request :: "request \<Rightarrow> request \<Rightarrow> bool" where
  "same_request a b \<longleftrightarrow> rq_RequestId a = rq_RequestId b \<and> rq_NetworkId a = rq_NetworkId b
     \<and> rq_Url a = rq_Url b \<and> rq_Method a = rq_Method b \<and> rq_CrawlLog a = rq_CrawlLog b"

definition extends :: "request_registry \<Rightarrow> request_registry \<Rightarrow> bool" where
  "extends r r1 \<longleftrightarrow> length (rr_requests r) \<le> length (rr_requests r1)
     \<and> (\<forall>i < length (rr_requests r). same_request (rr_requests r ! i) (rr_requests r1 ! i))"

lemma extends_refl [simp]: "extends r r"
  by (simp add: extends_def same_request_def)

lemma extends_AddRequest: "extends r (AddRequest q r)"
  by (simp add: extends_def same_request_def AddRequest_def nth_append)

lemma extends_set_initiator: "extends r (set_initiator n i r)"
proof (cases "GetByNetworkId n r")
  case None
  then show ?thesis by (simp add: set_initiator_def)
next
  case (Some k)
  have "same_request (rr_requests r ! j) ((rr_requests r)
      [k := (rr_requests r ! k)\<lparr>rq_Initiator := i\<rparr>] ! j)" if "j < length (rr_requests r)" for j
    using that by (cases "k = j") (auto simp: same_request_def)
  then show ?thesis using Some by (simp add: extends_def set_initiator_def)
qed

lemma extends_done: "extends r (r\<lparr>rr_done := wg\<rparr>)"
  by (simp add: extends_def same_request_def)

lemma notify_logged_Requests [simp]: "ses_Requests (snd (notify_logged now i s)) = ses_Requests s"
  by (simp add: notify_logged_def case_prod_unfold Let_def)

lemma notify_logged_Requests_eq:
  "notify_logged now i s = (r, s1) \<Longrightarrow> ses_Requests s1 = ses_Requests s"
  using notify_logged_Requests [of now i s] by simp

lemma with_registry_extends:
  assumes "with_registry s f = (res, s1)" and "ses_Requests s = Some r" and "extends r (snd (f r))"
  shows "\<exists>r1. ses_Requests s1 = Some r1 \<and> extends r r1"
  using assms by (auto simp: with_registry_def Let_def split: prod.splits)

text \<open>
  Whatever the browser reports, the requests registered so far keep their
  positions, ids, urls, methods and crawl logs.
\<close>

lemma listenFunc_extends:
  assumes "ses_Requests s = Some r" and "listenFunc lib now sent ev s = (res, s1, cmds)"
  shows "\<exists>r1. ses_Requests s1 = Some r1 \<and> extends r r1"
proof (cases ev)
  case (EventRequestWillBeSent n i)
  obtain q s2 where "with_registry s (\<lambda>r. (Ret (), set_initiator n i r)) = (q, s2)" by fastforce
  then show ?thesis
    using assms EventRequestWillBeSent with_registry_extends [of s _ q s2 r]
      extends_set_initiator [of r n i] by simp
next
  case (EventFrameStartedLoading f)
  obtain q s2 where "with_registry s NotifyLoadStart = (q, s2)" by fastforce
  then show ?thesis
    using assms EventFrameStartedLoading with_registry_extends [of s _ q s2 r]
    by (simp add: NotifyLoadStart_def extends_done case_prod_unfold Let_def)
next
  case (EventFrameStoppedLoading f)
  obtain q s2 where "with_registry s NotifyLoadFinished = (q, s2)" by fastforce
  then show ?thesis
    using assms EventFrameStoppedLoading with_registry_extends [of s _ q s2 r]
    by (simp add: NotifyLoadFinished_def extends_done case_prod_unfold Let_def)
next
  case (EventTargetCreated i t)
  then show ?thesis
    using assms by (auto split: prod.splits dest: notify_logged_Requests_eq)
next
  case (EventRequestPaused pe)
  then show ?thesis
    using assms extends_AddRequest
    by (auto simp: request_paused_def with_registry_def Let_def split: if_splits prod.splits
        dest!: notify_logged_Requests_eq)
qed (use assms in auto)

section \<open>Tagging requests for the proxy\<close>

lemma in_mapped_headers:
  "(n, v) \<in> set (map (\<lambda>(k, v). (k, f v)) hs) \<longleftrightarrow> (\<exists>hv. (n, hv) \<in> set hs \<and> v = f hv)"
  by (induction hs) auto

lemma header_HNil_iff:
  "distinct (map fst hs) \<Longrightarrow> header n hs = HNil \<longleftrightarrow> (\<forall>v. (n, v) \<in> set hs \<longrightarrow> v = HNil)"
  by (auto simp: header_def split: option.splits dest: map_of_SomeD map_of_eq_None_iff [THEN iffD1])
    (metis map_of_is_SomeI option.inject)+

text \<open>
  C38 (functional). A request the browser is about to send is registered and continued with
  its own id in the header the proxy reads: this is the last header, the only one of that
  name unless the page's header has a nil value, and every other header is passed on as it
  was.
\<close>

theorem request_paused_tags:
  assumes "ses_Requests s = Some r" and "distinct (map fst (pe_Headers ev))"
    and "pe_ResponseStatusCode ev = 0" and "pe_ResponseErrorReason ev = []"
    and "listenFunc lib now sent (EventRequestPaused ev) s = (res, s1, cmds)"
  shows "ses_Requests s1 = Some (AddRequest (request_of lib ev) r)
    \<and> (\<exists>kept. cmds = [ContinueRequest (pe_RequestID ev) (Some (pe_URL ev, pe_Method ev,
              kept @ [(reqid_header, pe_RequestID ev)]))]
        \<and> (\<forall>n v. n \<noteq> reqid_header \<longrightarrow> ((n, v) \<in> set kept)
             = (\<exists>hv. (n, hv) \<in> set (pe_Headers ev) \<and> v = interfaceToString hv))
        \<and> (\<forall>v. (reqid_header, v) \<in> set kept \<longrightarrow> (reqid_header, HNil) \<in> set (pe_Headers ev)))"
proof -
  let ?hs = "if header reqid_header (pe_Headers ev) \<noteq> HNil
      then filter (\<lambda>(k, v). k \<noteq> reqid_header) (pe_Headers ev) else pe_Headers ev"
  let ?kept = "map (\<lambda>(k, v). (k, interfaceToString v)) ?hs"
  have reg: "ses_Requests s1 = Some (AddRequest (request_of lib ev) r)"
    and cmds: "cmds = [ContinueRequest (pe_RequestID ev) (Some (pe_URL ev, pe_Method ev,
              ?kept @ [(reqid_header, pe_RequestID ev)]))]"
    using assms
    by (auto simp: request_paused_def with_registry_def continue_headers_def Let_def
        split: if_splits prod.splits dest!: notify_logged_Requests_eq)
  have "(\<forall>n v. n \<noteq> reqid_header \<longrightarrow> ((n, v) \<in> set ?kept)
             = (\<exists>hv. (n, hv) \<in> set (pe_Headers ev) \<and> v = interfaceToString hv))"
    unfolding in_mapped_headers by auto
  moreover have "\<forall>v. (reqid_header, v) \<in> set ?kept \<longrightarrow> (reqid_header, HNil) \<in> set (pe_Headers ev)"
    unfolding in_mapped_headers using header_HNil_iff [OF assms(2), of reqid_header] by auto
  ultimately show ?thesis using reg cmds by blast
qed

definition example_paused :: paused_event where
  "example_paused = \<lparr>pe_RequestID = ''i1'', pe_NetworkID = ''n1'', pe_URL = ''u'',
     pe_URLFragment = [], pe_Method = ''GET'', pe_Headers = [(''a'', HVal ''1''),
       (''veidemann_reqid'', HVal ''x'')], pe_ResourceType = ''Document'',
     pe_ResponseStatusCode = 0, pe_ResponseErrorReason = []\<rparr>"

definition example_session :: session where
  "example_session =
     (newDefaultSession [])\<lparr>ses_ctx := Some False,
        ses_Requests := Some (NewRequestRegistry NewWaitGroup)\<rparr>"

lemma example_handled:
  "\<exists>res s1. listenFunc plain_urls 0 False (EventRequestPaused example_paused) example_session
     = (res, s1, [ContinueRequest ''i1'' (Some (''u'', ''GET'',
          [(''a'', ''1''), (''veidemann_reqid'', ''i1'')]))])"
  by (simp add: request_paused_def with_registry_def example_session_def example_paused_def
      newDefaultSession_def continue_headers_def header_def reqid_header_def)

theorem request_paused_tags_witness:
  "\<exists>kept. [ContinueRequest ''i1'' (Some (''u'', ''GET'',
          [(''a'', ''1''), (''veidemann_reqid'', ''i1'')]))]
     = [ContinueRequest ''i1'' (Some (''u'', ''GET'', kept @ [(''veidemann_reqid'', ''i1'')]))]"
proof -
  obtain res s1 where "listenFunc plain_urls 0 False (EventRequestPaused example_paused) example_session
     = (res, s1, [ContinueRequest ''i1'' (Some (''u'', ''GET'',
          [(''a'', ''1''), (''veidemann_reqid'', ''i1'')]))])"
    using example_handled by blast
  from request_paused_tags [OF _ _ _ _ this] show ?thesis
    by (auto simp: example_session_def example_paused_def reqid_header_def)
qed

lemma listenFunc_extends_instance:
  "\<exists>r1. ses_Requests example_session = Some r1"
proof -
  have "ses_Requests example_session = Some (NewRequestRegistry NewWaitGroup)"
    by (simp add: example_session_def)
  moreover have "listenFunc plain_urls 0 True OtherEvent example_session = (Ret (), example_session, [])"
    by simp
  ultimately show ?thesis using listenFunc_extends by blast
qed

lemma dialogs: "snd (snd (listenFunc lib now sent (EventJavascriptDialogOpening t) s))
    = [HandleJavaScriptDialog (t = ''alert'')]"
  by simp

end
