(* ===== verification/Server.thy ===== *)
theory Server
  imports Session_Scripts Robots
begin

text \<open>
  \<^verbatim>\<open>server/\<close>: the API the recorder proxies talk to. One call of \<open>Do\<close> follows one connection
  of a proxy: a new request, activity on it, its completion. The handler is a function from a
  message to an outcome, the state of the call, the state of the program, and the replies;
  the loop runs it against the changes other goroutines make between two messages.
\<close>

section \<open>Calls with a deadline\<close>

text \<open>
  The results \<open>Recv\<close>, \<open>DoWithTimeout\<close> and \<open>DoWithContext\<close> can give: one for each ready
  case of their select. \<open>ctxErr\<close> is the error of a context that is done, \<open>fn\<close> what the
  function returned, if it has.
\<close>

definition Recv :: "error option \<Rightarrow> (error + 'm) option \<Rightarrow> (error + 'm) list" where
  "Recv ctxErr fn =
     (case ctxErr of None \<Rightarrow> [] | Some e \<Rightarrow> [Inl e])
     @ (case fn of None \<Rightarrow> [] | Some r \<Rightarrow> [r])"

definition DoWithTimeout :: "bool \<Rightarrow> error option option \<Rightarrow> error option list" where
  "DoWithTimeout elapsed f =
     (if elapsed then [Some (GrpcStatus DeadlineExceeded ''too slow'')] else [])
     @ (case f of None \<Rightarrow> [] | Some r \<Rightarrow> [r])"

definition DoWithContext :: "error option \<Rightarrow> error option option \<Rightarrow> error option list" where
  "DoWithContext ctxErr f =
     (case ctxErr of None \<Rightarrow> [] | Some e \<Rightarrow> [Some e])
     @ (case f of None \<Rightarrow> [] | Some r \<Rightarrow> [r])"

text \<open>\<open>Send\<close> has a deadline of five seconds, at time \<open>now\<close> after its start.\<close>

definition Server_Send :: "int \<Rightarrow> error option option \<Rightarrow> error option list" where
  "Server_Send now f = DoWithTimeout (5 * 1000000000 \<le> now) f"

lemma DoWithTimeout_returns: "DoWithTimeout elapsed f \<noteq> [] \<longleftrightarrow> elapsed \<or> f \<noteq> None"
  by (auto simp: DoWithTimeout_def split: option.splits)

section \<open>Messages and state\<close>

record new_request =
  nr_ProxyId :: int32
  nr_Uri :: string
  nr_Method :: string
  nr_RequestId :: string
  nr_CrawlExecutionId :: string
  nr_JobExecutionId :: string
  nr_CollectionRef :: "config_ref option"

datatype do_request =
    DoNew new_request
  | DoNotify string
  | DoCompleted bool "crawl_log option"
  | DoNothing

record new_reply =
  np_CrawlExecutionId :: string
  np_JobExecutionId :: string
  np_CollectionRef :: "config_ref option"
  np_ReplacementScript :: "browser_script option"

datatype do_reply = ReplyNew new_reply | ReplyCancel string

text \<open>
  Sessions live in a heap, as the code shares pointers to them: the registry holds the
  addresses of the sessions in use, and a call keeps its address also when the session has
  been released. \<open>w_next\<close> is the next free address. The crawl logs written for direct
  sessions and the questions asked of the robots evaluator are recorded.
\<close>

record world =
  w_heap :: "nat \<Rightarrow> session"
  w_next :: nat
  w_registry :: "nat session_registry"
  w_options :: "(session \<Rightarrow> session) list"
  w_written :: "crawl_log list"
  w_asked :: "is_allowed_request list"

text \<open>
  The variables of a call: the session's address, and the request's place: the session
  whose registry it is in and its index there.
\<close>

record do_state =
  do_sess :: "nat option"
  do_req :: "(nat \<times> nat) option"

text \<open>
  What the environment answers while a message is handled: the result of the one send a
  message can cause, the evaluator's answer, the time.
\<close>

record do_input =
  in_request :: do_request
  in_send :: "error option"
  in_robots :: "error + bool"
  in_now :: int

datatype outcome = Again | Returned "error option" | Panicked panic

type_synonym do_result = "outcome \<times> do_state \<times> world \<times> do_reply list"

definition set_session :: "nat \<Rightarrow> session \<Rightarrow> world \<Rightarrow> world" where
  "set_session a s w = w\<lparr>w_heap := (w_heap w)(a := s)\<rparr>"

definition update_request :: "nat \<times> nat \<Rightarrow> (request \<Rightarrow> request) \<Rightarrow> world \<Rightarrow> world" where
  "update_request p f w =
     (let s = w_heap w (fst p) in
      case ses_Requests s of
        None \<Rightarrow> w
      | Some r \<Rightarrow>
          set_session (fst p) (s\<lparr>ses_Requests := Some (r\<lparr>rr_requests := (rr_requests r)
             [snd p := f (rr_requests r ! snd p)]\<rparr>)\<rparr>) w)"

definition get_request :: "nat \<times> nat \<Rightarrow> world \<Rightarrow> request option" where
  "get_request p w =
     (case ses_Requests (w_heap w (fst p)) of
        None \<Rightarrow> None
      | Some r \<Rightarrow> if snd p < length (rr_requests r) then Some (rr_requests r ! snd p) else None)"

definition request_id :: "nat \<times> nat \<Rightarrow> world \<Rightarrow> string" where
  "request_id p w = (case get_request p w of None \<Rightarrow> [] | Some q \<Rightarrow> rq_RequestId q)"

section \<open>Handling a message\<close>

text \<open>Every send is the last thing done for a message; its error ends the call.\<close>

definition send_reply :: "do_input \<Rightarrow> do_reply \<Rightarrow> do_state \<Rightarrow> world \<Rightarrow> do_result" where
  "send_reply inp reply st w =
     (case in_send inp of Some e \<Rightarrow> (Returned (Some e), st, w, [reply])
      | None \<Rightarrow> (Again, st, w, [reply]))"

text \<open>\<open>sess.Notify(id)\<close> followed by \<open>k\<close>; an error ends the call.\<close>

definition then_notify ::
  "do_input \<Rightarrow> nat \<Rightarrow> string \<Rightarrow> do_state \<Rightarrow> world \<Rightarrow> (do_state \<Rightarrow> world \<Rightarrow> do_result) \<Rightarrow> do_result" where
  "then_notify inp a i st w k =
     (case Session_Notify (in_now inp) i (w_heap w a) of
        (Panic p, s) \<Rightarrow> (Panicked p, st, set_session a s w, [])
      | (Ret (Some e), s) \<Rightarrow> (Returned (Some e), st, set_session a s w, [])
      | (Ret None, s) \<Rightarrow> k st (set_session a s w))"

definition new_reply_for :: "session \<Rightarrow> new_reply go" where
  "new_reply_for s =
     (case (ses_RequestedUrl s, ses_CrawlConfig s) of
        (Some u, Some cc) \<Rightarrow>
          Ret \<lparr>np_CrawlExecutionId = qu_ExecutionId u, np_JobExecutionId = qu_JobExecutionId u,
               np_CollectionRef = cc_CollectionRef cc, np_ReplacementScript = None\<rparr>
      | _ \<Rightarrow> Panic NilDereference)"

definition robots_request :: "session \<Rightarrow> new_request \<Rightarrow> is_allowed_request go" where
  "robots_request s v =
     (case (ses_RequestedUrl s, ses_CrawlConfig s) of
        (Some u, Some cc) \<Rightarrow>
          Ret \<lparr>ia_JobExecutionId = qu_JobExecutionId u, ia_ExecutionId = qu_ExecutionId u,
               ia_Uri = nr_Uri v, ia_UserAgent = ses_UserAgent s,
               ia_Politeness = ses_PolitenessConfig s, ia_CollectionRef = cc_CollectionRef cc\<rparr>
      | _ \<Rightarrow> Panic NilDereference)"

text \<open>Looking up the request by its id, marking it as seen by the proxy, and notifying.\<close>

definition claim_request ::
  "do_input \<Rightarrow> nat \<Rightarrow> string \<Rightarrow> do_state \<Rightarrow> world \<Rightarrow> (do_state \<Rightarrow> world \<Rightarrow> do_result) \<Rightarrow> do_result" where
  "claim_request inp a i st w k =
     (case ses_Requests (w_heap w a) of
        None \<Rightarrow> (Panicked NilDereference, st, w, [])
      | Some r \<Rightarrow>
          (case GetByRequestId i r of
             None \<Rightarrow> k (st\<lparr>do_req := None\<rparr>) w
           | Some j \<Rightarrow>
               let w1 = update_request (a, j) (\<lambda>q. q\<lparr>rq_GotNew := True\<rparr>) w
               in then_notify inp a (request_id (a, j) w1) (st\<lparr>do_req := Some (a, j)\<rparr>) w1 k))"

text \<open>The lookup of a preflight request, which carries no id, by its url.\<close>

definition claim_options ::
  "'u url_lib \<Rightarrow> nat \<Rightarrow> string \<Rightarrow> do_state \<Rightarrow> world \<Rightarrow> (do_state \<Rightarrow> world \<Rightarrow> do_result) \<Rightarrow> do_result" where
  "claim_options lib a uri st w k =
     (case ses_Requests (w_heap w a) of
        None \<Rightarrow> (Panicked NilDereference, st, w, [])
      | Some r \<Rightarrow>
          (case GetByUrl (url_Normalize lib uri) True r of
             None \<Rightarrow> k (st\<lparr>do_req := None\<rparr>) w
           | Some j \<Rightarrow> k (st\<lparr>do_req := Some (a, j)\<rparr>)
                         (update_request (a, j) (\<lambda>q. q\<lparr>rq_GotNew := True\<rparr>) w)))"

text \<open>The reply to an accepted request, with the script that replaces its response.\<close>

definition reply_new ::
  "'re regexp_lib \<Rightarrow> 'u url_lib \<Rightarrow> do_input \<Rightarrow> nat \<Rightarrow> string \<Rightarrow> do_state \<Rightarrow> world \<Rightarrow> do_result" where
  "reply_new rx lib inp a uri st w =
     (case new_reply_for (w_heap w a) of
        Panic p \<Rightarrow> (Panicked p, st, w, [])
      | Ret reply \<Rightarrow>
          (case GetReplacementScript rx lib uri (w_heap w a) of
             Panic p \<Rightarrow> (Panicked p, st, w, [])
           | Ret replacementScript \<Rightarrow>
               send_reply inp (ReplyNew (reply\<lparr>np_ReplacementScript := replacementScript\<rparr>)) st w))"

text \<open>A request that robots.txt allows.\<close>

definition allowed_request ::
  "'re regexp_lib \<Rightarrow> 'u url_lib \<Rightarrow> do_input \<Rightarrow> new_request \<Rightarrow> nat \<Rightarrow> do_state \<Rightarrow> world \<Rightarrow> do_result" where
  "allowed_request rx lib inp v a st w =
     (if nr_RequestId v = [] then
        (if nr_Method v = ''CONNECT'' then
           (case new_reply_for (w_heap w a) of
              Panic p \<Rightarrow> (Panicked p, st, w, [])
            | Ret reply \<Rightarrow> send_reply inp (ReplyNew reply) st w)
         else if nr_Method v = ''OPTIONS'' then
           claim_options lib a (nr_Uri v) st w (reply_new rx lib inp a (nr_Uri v))
         else send_reply inp (ReplyCancel ''Cancelled by browser controller'') st w)
      else claim_request inp a (nr_RequestId v) st w (reply_new rx lib inp a (nr_Uri v)))"

text \<open>
  A request of a session in use. Starting a span needs the session's context, which is nil
  until the fetch has started the browser.
\<close>

definition session_request ::
  "'re regexp_lib \<Rightarrow> 'u url_lib \<Rightarrow> do_input \<Rightarrow> new_request \<Rightarrow> nat \<Rightarrow> do_state \<Rightarrow> world \<Rightarrow> do_result" where
  "session_request rx lib inp v a st w =
     (if ses_ctx (w_heap w a) = None then (Panicked NilDereference, st, w, [])
      else case robots_request (w_heap w a) v of
        Panic p \<Rightarrow> (Panicked p, st, w, [])
      | Ret robotsRequest \<Rightarrow>
          (case IsAllowed (\<lambda>q asked. (in_robots inp, asked @ [q])) robotsRequest (w_asked w) of
             (Panic p, asked) \<Rightarrow> (Panicked p, st, w\<lparr>w_asked := asked\<rparr>, [])
           | (Ret True, asked) \<Rightarrow> allowed_request rx lib inp v a st (w\<lparr>w_asked := asked\<rparr>)
           | (Ret False, asked) \<Rightarrow>
               claim_request inp a (nr_RequestId v) st (w\<lparr>w_asked := asked\<rparr>)
                 (send_reply inp (ReplyCancel ''Blocked by robots.txt''))))"

definition handle_new ::
  "'re regexp_lib \<Rightarrow> 'u url_lib \<Rightarrow> do_input \<Rightarrow> new_request \<Rightarrow> do_state \<Rightarrow> world \<Rightarrow> do_result" where
  "handle_new rx lib inp v st w =
     (if nr_ProxyId v = 0 then
        let a = w_next w;
            s = newDirectSession (nr_Uri v) (nr_CrawlExecutionId v) (nr_JobExecutionId v) (w_options w)
        in send_reply inp (ReplyNew \<lparr>np_CrawlExecutionId = nr_CrawlExecutionId v,
               np_JobExecutionId = nr_JobExecutionId v, np_CollectionRef = nr_CollectionRef v,
               np_ReplacementScript = None\<rparr>)
             (st\<lparr>do_sess := Some a\<rparr>) ((set_session a s w)\<lparr>w_next := Suc a\<rparr>)
      else (case Registry_Get (sint (nr_ProxyId v)) (w_registry w) of
              Panic p \<Rightarrow> (Panicked p, st, w, [])
            | Ret None \<Rightarrow>
                send_reply inp (ReplyCancel ''Cancelled by browser controller'')
                  (st\<lparr>do_sess := None\<rparr>) w
            | Ret (Some a) \<Rightarrow> session_request rx lib inp v a (st\<lparr>do_sess := Some a\<rparr>) w))"

definition handle_notify :: "do_input \<Rightarrow> do_state \<Rightarrow> world \<Rightarrow> do_result" where
  "handle_notify inp st w =
     (case do_sess st of
        None \<Rightarrow> (Returned (Some (GrpcStatus Canceled ''Session is cancelled'')), st, w, [])
      | Some a \<Rightarrow>
          (case do_req st of
             None \<Rightarrow> (Again, st, w, [])
           | Some p \<Rightarrow> then_notify inp a (request_id p w) st w (\<lambda>st1 w1. (Again, st1, w1, []))))"

text \<open>
  Completion of a request that is known. The fields of a nil session are read where the
  code reads them. A cached initial request aborts the fetch, and only then is it marked
  as coming from the cache.
\<close>

definition completed_abort :: "nat \<times> nat \<Rightarrow> do_state \<Rightarrow> world \<Rightarrow> unit go \<times> world" where
  "completed_abort p st w =
     (case do_sess st of
        None \<Rightarrow> (Panic NilDereference, w)
      | Some a \<Rightarrow>
          (case ses_Requests (w_heap w a) of
             None \<Rightarrow> (Panic NilDereference, w)
           | Some r \<Rightarrow>
               (case InitialRequest r of
                  Panic q \<Rightarrow> (Panic q, w)
                | Ret i \<Rightarrow>
                    if rq_RequestId (rr_requests r ! i) = request_id p w
                    then (let (res, s) = AbortFetch (w_heap w a) in (res, set_session a s w))
                    else (Ret (), w))))"

definition completed_finish :: "do_input \<Rightarrow> bool \<Rightarrow> nat \<times> nat \<Rightarrow> do_state \<Rightarrow> world \<Rightarrow> do_result" where
  "completed_finish inp cached p st w =
     (let w1 = (if cached then update_request p (\<lambda>q. q\<lparr>rq_FromCache := True\<rparr>) w else w);
          w2 = update_request p (\<lambda>q. q\<lparr>rq_GotComplete := True\<rparr>) w1
      in case do_sess st of
           None \<Rightarrow> (Panicked NilDereference, st, w2, [])
         | Some a \<Rightarrow> then_notify inp a (request_id p w2) st w2 (\<lambda>st1 w3. (Again, st1, w3, [])))"

definition handle_completed :: "do_input \<Rightarrow> bool \<Rightarrow> crawl_log option \<Rightarrow> do_state \<Rightarrow> world \<Rightarrow> do_result" where
  "handle_completed inp cached crawlLog st w =
     (case crawlLog of
        None \<Rightarrow> (Panicked NilDereference, st, w, [])
      | Some cl \<Rightarrow>
          (case do_req st of
             None \<Rightarrow>
               (case do_sess st of
                  None \<Rightarrow> (Panicked NilDereference, st, w, [])
                | Some a \<Rightarrow>
                    if ses_Id (w_heap w a) = 0 \<and> \<not> cached \<and> cl_WarcId cl \<noteq> []
                    then (Again, st, w\<lparr>w_written := w_written w @ [cl]\<rparr>, [])
                    else (Again, st, w, []))
           | Some p \<Rightarrow>
               let w1 = update_request p (\<lambda>q. q\<lparr>rq_CrawlLog := Some cl\<rparr>) w
               in if cached
                  then (case completed_abort p st w1 of
                          (Panic q, w2) \<Rightarrow> (Panicked q, st, w2, [])
                        | (Ret _, w2) \<Rightarrow> completed_finish inp cached p st w2)
                  else completed_finish inp cached p st w1))"

definition Do_step ::
  "'re regexp_lib \<Rightarrow> 'u url_lib \<Rightarrow> do_input \<Rightarrow> do_state \<Rightarrow> world \<Rightarrow> do_result" where
  "Do_step rx lib inp st w =
     (case in_request inp of
        DoNew v \<Rightarrow> handle_new rx lib inp v st w
      | DoNotify activity \<Rightarrow> handle_notify inp st w
      | DoCompleted cached crawlLog \<Rightarrow> handle_completed inp cached crawlLog st w
      | DoNothing \<Rightarrow> (Again, st, w, []))"

section \<open>The call\<close>

definition recv_error :: "error \<Rightarrow> error option" where
  "recv_error e =
     (if e = EOF then None
      else if errors_Is (Some e) ContextDeadlineExceeded
      then Some (GrpcStatus DeadlineExceeded ''Deadline exceeded while waiting for proxy request'')
      else if errors_Is (Some e) ContextCanceled
      then Some (GrpcStatus Canceled ''Browser controller canceled request'')
      else Some (GrpcStatus Unknown ''Unknown error while waiting for proxy request''))"

text \<open>
  The loop over the messages received, each after a change \<open>others\<close> of the world by other
  goroutines. \<open>None\<close> is a call that still waits for a message.
\<close>

fun Do_loop ::
  "'re regexp_lib \<Rightarrow> 'u url_lib \<Rightarrow> ((world \<Rightarrow> world) \<times> (error + do_input)) list \<Rightarrow> do_state \<Rightarrow> world \<Rightarrow>
     outcome option \<times> do_state \<times> world \<times> do_reply list" where
  "Do_loop rx lib [] st w = (None, st, w, [])"
| "Do_loop rx lib ((others, Inl e) # evs) st w = (Some (Returned (recv_error e)), st, others w, [])"
| "Do_loop rx lib ((others, Inr inp) # evs) st w =
     (case Do_step rx lib inp st (others w) of
        (Again, st1, w1, rs) \<Rightarrow>
          (let (out, st2, w2, rs2) = Do_loop rx lib evs st1 w1 in (out, st2, w2, rs @ rs2))
      | (Returned e, st1, w1, rs) \<Rightarrow> (Some (Returned e), st1, w1, rs)
      | (Panicked p, st1, w1, rs) \<Rightarrow> (Some (Panicked p), st1, w1, rs))"

text \<open>The deferred function: a panic becomes the error with code -5 and the stack trace.\<close>

definition Do_recover :: "(panic \<Rightarrow> string) \<Rightarrow> outcome \<Rightarrow> error option" where
  "Do_recover panic_text out =
     (case out of
        Panicked p \<Rightarrow> Some (FetchError_New (- 5) ''Runtime error'' (panic_text p))
      | Returned e \<Rightarrow> e
      | Again \<Rightarrow> None)"

definition Do ::
  "'re regexp_lib \<Rightarrow> 'u url_lib \<Rightarrow> (panic \<Rightarrow> string) \<Rightarrow>
     ((world \<Rightarrow> world) \<times> (error + do_input)) list \<Rightarrow> world \<Rightarrow>
     error option option \<times> world \<times> do_reply list" where
  "Do rx lib panic_text evs w =
     (case Do_loop rx lib evs \<lparr>do_sess = None, do_req = None\<rparr> w of
        (None, st, w1, rs) \<Rightarrow> (None, w1, rs)
      | (Some out, st, w1, rs) \<Rightarrow> (Some (Do_recover panic_text out), w1, rs))"

text \<open>\<open>HandleRPC\<close> of \<^verbatim>\<open>server/statshandler.go\<close>: the number of open calls.\<close>

datatype rpc_stats = StatsBegin | StatsEnd "error option" | StatsOther

fun HandleRPC :: "rpc_stats \<Rightarrow> int32 \<Rightarrow> int32" where
  "HandleRPC StatsBegin openRPCs = openRPCs + 1"
| "HandleRPC (StatsEnd e) openRPCs = openRPCs - 1"
| "HandleRPC StatsOther openRPCs = openRPCs"

lemmas server_defs [step_defs] =
  send_reply_def then_notify_def claim_request_def claim_options_def reply_new_def
  allowed_request_def session_request_def handle_new_def handle_notify_def
  completed_abort_def completed_finish_def handle_completed_def

end
