(* ===== verification/Server_Props.thy ===== *)
theory Server_Props
  imports Server
begin

text \<open>
  What a call of \<open>Do\<close> promises the proxy and the sessions: how it replies, what it lets
  through, which sessions it touches, what it records, and where it fails.
\<close>

section \<open>Replies\<close>

text \<open>
  \<open>replies_ok n res\<close>: at most \<open>n\<close> replies, and exactly \<open>n\<close> when the call goes on.
\<close>

definition replies_ok :: "nat \<Rightarrow> do_result \<Rightarrow> bool" where
  "replies_ok n res \<longleftrightarrow>
     (case res of (out, st, w, rs) \<Rightarrow> length rs \<le> n \<and> (out = Again \<longrightarrow> length rs = n))"

lemma replies_ok_simps [simp]:
  "replies_ok n (Panicked p, st, w, [])"
  "replies_ok n (Returned e, st, w, [])"
  "replies_ok 0 (Again, st, w, [])"
  by (simp_all add: replies_ok_def)

lemma replies_ok_send [simp]: "replies_ok 1 (send_reply inp r st w)" "replies_ok (Suc 0) (send_reply inp r st w)"
  by (simp_all add: replies_ok_def send_reply_def split: option.splits)

lemma replies_ok_notify [intro]:
  "(\<And>st w. replies_ok n (k st w)) \<Longrightarrow> replies_ok n (then_notify inp a i st w k)"
  by (auto simp: then_notify_def split: prod.splits go.splits option.splits)

lemma replies_ok_claim [intro]:
  "(\<And>st w. replies_ok n (k st w)) \<Longrightarrow> replies_ok n (claim_request inp a i st w k)"
  by (auto simp: claim_request_def Let_def split: option.splits)

lemma replies_ok_options [intro]:
  "(\<And>st w. replies_ok n (k st w)) \<Longrightarrow> replies_ok n (claim_options lib a u st w k)"
  by (auto simp: claim_options_def split: option.splits)

lemma replies_ok_reply [intro, simp]: "replies_ok (Suc 0) (reply_new rx lib inp a u st w)"
  by (auto simp: reply_new_def split: go.splits)

lemma replies_ok_allowed [simp]: "replies_ok (Suc 0) (allowed_request rx lib inp v a st w)"
  by (auto simp: allowed_request_def split: go.splits)

lemma replies_ok_session [simp]: "replies_ok (Suc 0) (session_request rx lib inp v a st w)"
  by (auto simp: session_request_def split: go.splits prod.splits bool.splits)

lemma replies_ok_new: "replies_ok (Suc 0) (handle_new rx lib inp v st w)"
  by (auto simp: handle_new_def Let_def split: go.splits option.splits)

lemma replies_ok_handle_notify: "replies_ok 0 (handle_notify inp st w)"
  by (auto simp: handle_notify_def split: option.splits)

lemma replies_ok_finish [simp]: "replies_ok 0 (completed_finish inp cached p st w)"
  by (auto simp: completed_finish_def Let_def split: option.splits)

lemma replies_ok_completed: "replies_ok 0 (handle_completed inp cached cl st w)"
  by (auto simp: handle_completed_def Let_def split: option.splits prod.splits go.splits)

definition is_new :: "(world \<Rightarrow> world) \<times> (error + do_input) \<Rightarrow> bool" where
  "is_new ev = (case snd ev of Inr inp \<Rightarrow> (case in_request inp of DoNew v \<Rightarrow> True | _ \<Rightarrow> False) | _ \<Rightarrow> False)"

lemma replies_ok_Do_step:
  "replies_ok (if is_new (others, Inr inp) then 1 else 0) (Do_step rx lib inp st w)"
  using replies_ok_new replies_ok_handle_notify replies_ok_completed
  by (auto simp: Do_step_def is_new_def split: do_request.splits)

text \<open>
  C3 (invariant). A call that is still open has answered every new request exactly once, and
  nothing else; one that has ended has answered at most that often.
\<close>

theorem Do_loop_replies:
  assumes "Do_loop rx lib evs st w = (out, st1, w1, rs)"
  shows "length rs \<le> length (filter is_new evs)
    \<and> (out = None \<longrightarrow> length rs = length (filter is_new evs))"
  using assms
proof (induction rx lib evs st w arbitrary: out st1 w1 rs rule: Do_loop.induct)
  case (1 rx lib st w)
  then show ?case by simp
next
  case (2 rx lib others e evs st w)
  then show ?case by auto
next
  case (3 rx lib others inp evs st w)
  obtain out0 st0 w0 rs0 where step: "Do_step rx lib inp st (others w) = (out0, st0, w0, rs0)"
    by (metis prod_cases4)
  have ok: "length rs0 \<le> (if is_new (others, Inr inp) then 1 else 0)"
    "out0 = Again \<longrightarrow> length rs0 = (if is_new (others, Inr inp) then 1 else 0)"
    using replies_ok_Do_step [of others inp rx lib st "others w"] step by (auto simp: replies_ok_def)
  show ?case
  proof (cases out0)
    case Again
    obtain out2 st2 w2 rs2 where rest: "Do_loop rx lib evs st0 w0 = (out2, st2, w2, rs2)"
      by (metis prod_cases4)
    then show ?thesis using 3(1) [OF step [symmetric]] 3(2) step Again ok by auto
  next
    case (Returned e)
    then show ?thesis using 3(2) step ok by auto
  next
    case (Panicked p)
    then show ?thesis using 3(2) step ok by auto
  qed
qed

section \<open>What is let through\<close>

text \<open>A reply that lets a request through comes from \<open>send_reply\<close> of a \<open>ReplyNew\<close>.\<close>

lemma then_notify_replies:
  assumes "then_notify inp a i st w k = (out, st1, w1, rs)" and "rs \<noteq> []"
  shows "\<exists>s. k st (set_session a s w) = (out, st1, w1, rs) \<and> s = snd (Session_Notify (in_now inp) i (w_heap w a))"
  using assms by (auto simp: then_notify_def split: prod.splits go.splits option.splits)

lemma Session_Notify_keeps:
  "ses_RequestedUrl (snd (Session_Notify now i s)) = ses_RequestedUrl s"
  "ses_CrawlConfig (snd (Session_Notify now i s)) = ses_CrawlConfig s"
  "ses_scripts (snd (Session_Notify now i s)) = ses_scripts s"
  "ses_Id (snd (Session_Notify now i s)) = ses_Id s"
  by (auto simp: Session_Notify_def Let_def split: option.splits bool.splits prod.splits go.splits)

lemma update_request_keeps [simp]:
  "ses_RequestedUrl (w_heap (update_request p f w) a) = ses_RequestedUrl (w_heap w a)"
  "ses_CrawlConfig (w_heap (update_request p f w) a) = ses_CrawlConfig (w_heap w a)"
  "ses_Id (w_heap (update_request p f w) a) = ses_Id (w_heap w a)"
  by (auto simp: update_request_def set_session_def Let_def split: option.splits)

lemma new_reply_for_cong:
  "ses_RequestedUrl s = ses_RequestedUrl s' \<Longrightarrow> ses_CrawlConfig s = ses_CrawlConfig s'
   \<Longrightarrow> new_reply_for s = new_reply_for s'"
  by (simp add: new_reply_for_def)

text \<open>Replies made for a session carry its ids and its collection.\<close>

definition reply_from :: "session \<Rightarrow> do_reply list \<Rightarrow> bool" where
  "reply_from s rs \<longleftrightarrow>
     (\<forall>np. ReplyNew np \<in> set rs \<longrightarrow>
        (\<exists>u cc. ses_RequestedUrl s = Some u \<and> ses_CrawlConfig s = Some cc
           \<and> np_CrawlExecutionId np = qu_ExecutionId u
           \<and> np_JobExecutionId np = qu_JobExecutionId u
           \<and> np_CollectionRef np = cc_CollectionRef cc))"

lemma reply_from_Nil [simp]: "reply_from s []"
  by (simp add: reply_from_def)

lemma reply_from_cong:
  "ses_RequestedUrl s = ses_RequestedUrl s' \<Longrightarrow> ses_CrawlConfig s = ses_CrawlConfig s'
   \<Longrightarrow> reply_from s rs = reply_from s' rs"
  by (simp add: reply_from_def)

lemma send_reply_rs [simp]: "snd (snd (snd (send_reply inp r st w))) = [r]"
  by (simp add: send_reply_def split: option.splits)

lemma reply_from_ReplyNew:
  "new_reply_for s = Ret np \<Longrightarrow> reply_from s [ReplyNew (np\<lparr>np_ReplacementScript := x\<rparr>)]"
  "new_reply_for s = Ret np \<Longrightarrow> reply_from s [ReplyNew np]"
  by (auto simp: new_reply_for_def reply_from_def split: option.splits)

lemma reply_from_ReplyCancel [simp]: "reply_from s [ReplyCancel m]"
  by (simp add: reply_from_def)

lemma reply_new_from: "reply_from (w_heap w a) (snd (snd (snd (reply_new rx lib inp a u st w))))"
  by (auto simp: reply_new_def reply_from_ReplyNew split: go.splits)

lemma then_notify_from:
  assumes "\<And>st w. reply_from (w_heap w a) (snd (snd (snd (k st w))))"
  shows "reply_from (w_heap w a) (snd (snd (snd (then_notify inp a i st w k))))"
proof -
  obtain out st1 w1 rs where res: "then_notify inp a i st w k = (out, st1, w1, rs)"
    by (metis prod_cases4)
  show ?thesis
  proof (cases "rs = []")
    case False
    with then_notify_replies [OF res] obtain s where
      s: "k st (set_session a s w) = (out, st1, w1, rs)"
        "s = snd (Session_Notify (in_now inp) i (w_heap w a))" by auto
    have "reply_from s rs"
      using assms [of "set_session a s w" st] s(1) by (simp add: set_session_def)
    then show ?thesis
      using res s(2) reply_from_cong [of s "w_heap w a" rs] by (simp add: Session_Notify_keeps)
  qed (simp add: res)
qed

lemma claim_request_from:
  assumes "\<And>st w. reply_from (w_heap w a) (snd (snd (snd (k st w))))"
  shows "reply_from (w_heap w a) (snd (snd (snd (claim_request inp a i st w k))))"
proof (cases "ses_Requests (w_heap w a)")
  case None
  then show ?thesis by (simp add: claim_request_def)
next
  case (Some r)
  show ?thesis
  proof (cases "GetByRequestId i r")
    case None
    then show ?thesis using Some assms by (simp add: claim_request_def)
  next
    case (Some j)
    let ?w = "update_request (a, j) (\<lambda>q. q\<lparr>rq_GotNew := True\<rparr>) w"
    have "reply_from (w_heap ?w a) (snd (snd (snd (then_notify inp a (request_id (a, j) ?w)
        (st\<lparr>do_req := Some (a, j)\<rparr>) ?w k))))"
      by (rule then_notify_from) (rule assms)
    then show ?thesis
      using Some \<open>ses_Requests (w_heap w a) = Some r\<close> reply_from_cong [of "w_heap ?w a" "w_heap w a"]
      by (simp add: claim_request_def Let_def)
  qed
qed

lemma claim_options_from:
  assumes "\<And>st w. reply_from (w_heap w a) (snd (snd (snd (k st w))))"
  shows "reply_from (w_heap w a) (snd (snd (snd (claim_options lib a u st w k))))"
proof -
  have "reply_from (w_heap w a) (snd (snd (snd (k st' (update_request (a, j) f w)))))" for st' j f
    using assms [of "update_request (a, j) f w" st']
      reply_from_cong [of "w_heap (update_request (a, j) f w) a" "w_heap w a"] by simp
  then show ?thesis using assms by (simp add: claim_options_def split: option.splits)
qed

lemma allowed_request_from:
  "reply_from (w_heap w a) (snd (snd (snd (allowed_request rx lib inp v a st w))))"
  by (auto simp: allowed_request_def reply_from_ReplyNew split: go.splits
      intro!: claim_options_from claim_request_from reply_new_from)

text \<open>
  A request of a session is let through only if robots.txt allows it under
  the session's politeness, asked for the very uri, and the session's fetch has started; the
  reply carries the ids and the collection of the page the session fetches.
\<close>

lemma Do_new_let_through:
  assumes "Do_step rx lib inp st w = (out, st1, w1, [ReplyNew np])"
    and "in_request inp = DoNew v" and "nr_ProxyId v \<noteq> 0"
  shows "\<exists>a u cc req. Registry_Get (sint (nr_ProxyId v)) (w_registry w) = Ret (Some a)
    \<and> ses_ctx (w_heap w a) \<noteq> None
    \<and> robots_request (w_heap w a) v = Ret req \<and> ia_Uri req = nr_Uri v
    \<and> fst (IsAllowed (\<lambda>q asked. (in_robots inp, asked @ [q])) req (w_asked w)) = Ret True
    \<and> ses_RequestedUrl (w_heap w a) = Some u \<and> ses_CrawlConfig (w_heap w a) = Some cc
    \<and> np_CrawlExecutionId np = qu_ExecutionId u \<and> np_JobExecutionId np = qu_JobExecutionId u
    \<and> np_CollectionRef np = cc_CollectionRef cc"
proof -
  have new: "handle_new rx lib inp v st w = (out, st1, w1, [ReplyNew np])"
    using assms by (simp add: Do_step_def)
  obtain a where a: "Registry_Get (sint (nr_ProxyId v)) (w_registry w) = Ret (Some a)"
    and ses: "session_request rx lib inp v a (st\<lparr>do_sess := Some a\<rparr>) w = (out, st1, w1, [ReplyNew np])"
    using new assms(3)
    by (auto simp: handle_new_def send_reply_def split: go.splits option.splits)
  obtain req where req: "ses_ctx (w_heap w a) \<noteq> None" "robots_request (w_heap w a) v = Ret req"
    using ses by (auto simp: session_request_def split: if_splits go.splits)
  obtain r asked where all: "IsAllowed (\<lambda>q asked. (in_robots inp, asked @ [q])) req (w_asked w)
      = (r, asked)" by fastforce
  have True: "r = Ret True"
  proof (rule ccontr)
    assume "r \<noteq> Ret True"
    then have "r = Ret False"
      using ses req all by (cases r) (auto simp: session_request_def)
    then have "claim_request inp a (nr_RequestId v) (st\<lparr>do_sess := Some a\<rparr>) (w\<lparr>w_asked := asked\<rparr>)
        (send_reply inp (ReplyCancel ''Blocked by robots.txt'')) = (out, st1, w1, [ReplyNew np])"
      using ses req all by (simp add: session_request_def)
    then show False
      by (auto simp: claim_request_def then_notify_def send_reply_def Let_def
          split: option.splits prod.splits go.splits)
  qed
  then have "allowed_request rx lib inp v a (st\<lparr>do_sess := Some a\<rparr>) (w\<lparr>w_asked := asked\<rparr>)
      = (out, st1, w1, [ReplyNew np])"
    using ses req all by (simp add: session_request_def)
  then have "reply_from (w_heap w a) [ReplyNew np]"
    using allowed_request_from [of "w\<lparr>w_asked := asked\<rparr>" a rx lib inp v "st\<lparr>do_sess := Some a\<rparr>"]
    by simp
  then show ?thesis
    using a req all True by (auto simp: reply_from_def robots_request_def split: option.splits)
qed

section \<open>Isolation\<close>

text \<open>
  The sessions a message may change: the one the call holds before or after it, the one its
  request belongs to, and a new one.
\<close>

definition untouched :: "nat \<Rightarrow> do_state \<Rightarrow> world \<Rightarrow> bool" where
  "untouched b st w \<longleftrightarrow> do_sess st \<noteq> Some b \<and> (\<forall>i. do_req st \<noteq> Some (b, i)) \<and> b \<noteq> w_next w"

definition leaves :: "nat \<Rightarrow> world \<Rightarrow> do_result \<Rightarrow> bool" where
  "leaves b w res \<longleftrightarrow> w_heap (fst (snd (snd res))) b = w_heap w b"

lemma leaves_simps [simp]:
  "leaves b w (out, st, w, rs)"
  "leaves b w (send_reply inp r st w)"
  "leaves b w (out, st, set_session a s w, rs) \<longleftrightarrow> b = a \<longrightarrow> s = w_heap w b"
  "leaves b w (out, st, w\<lparr>w_asked := q\<rparr>, rs)"
  "leaves b w (out, st, w\<lparr>w_written := l\<rparr>, rs)"
  by (auto simp: leaves_def set_session_def send_reply_def split: option.splits)

lemma update_request_other [simp]:
  "fst p \<noteq> b \<Longrightarrow> w_heap (update_request p f w) b = w_heap w b"
  by (auto simp: update_request_def set_session_def Let_def split: option.splits)

lemma leaves_world: "w_heap w b = w_heap w' b \<Longrightarrow> leaves b w res \<Longrightarrow> leaves b w' res"
  by (simp add: leaves_def)

lemma leaves_notify [intro]:
  assumes "a \<noteq> b" and "\<And>st w. leaves b w (k st w)"
  shows "leaves b w (then_notify inp a i st w k)"
proof -
  have "leaves b w (k st (set_session a s w))" for s
    using assms(2) [of "set_session a s w" st] assms(1) by (simp add: leaves_def set_session_def)
  then show ?thesis
    using assms(1) by (auto simp: then_notify_def split: prod.splits go.splits option.splits)
qed

text \<open>The same from a world that agrees with \<open>w\<close> on the session.\<close>

lemma leaves_at:
  assumes "w_heap w1 b = w_heap w b" and "\<And>st w. leaves b w (k st w)"
  shows "leaves b w (k st w1)"
  by (rule leaves_world [OF assms])

lemma leaves_notify_at:
  assumes "w_heap w1 b = w_heap w b" and "a \<noteq> b" and "\<And>st w. leaves b w (k st w)"
  shows "leaves b w (then_notify inp a i st w1 k)"
  by (rule leaves_world [OF assms(1)]) (rule leaves_notify [OF assms(2,3)])

lemma leaves_claim [intro]:
  assumes "a \<noteq> b" and "\<And>st w. leaves b w (k st w)"
  shows "leaves b w (claim_request inp a i st w k)"
proof -
  have "leaves b w (then_notify inp a n st' (update_request (a, j) f w) k)" for n st' j f
    by (rule leaves_notify_at) (simp_all add: assms)
  then show ?thesis by (simp add: claim_request_def Let_def assms(2) split: option.splits)
qed

lemma leaves_options [intro]:
  assumes "a \<noteq> b" and "\<And>st w. leaves b w (k st w)"
  shows "leaves b w (claim_options lib a u st w k)"
proof -
  have "leaves b w (k st' (update_request (a, j) f w))" for st' j f
    by (rule leaves_at) (simp_all add: assms)
  then show ?thesis by (simp add: claim_options_def assms(2) split: option.splits)
qed

lemma leaves_reply [simp, intro]: "leaves b w (reply_new rx lib inp a u st w)"
  by (auto simp: reply_new_def split: go.splits)

lemma leaves_allowed [intro]: "a \<noteq> b \<Longrightarrow> leaves b w (allowed_request rx lib inp v a st w)"
  by (auto simp: allowed_request_def split: go.splits)

lemma leaves_session [intro]:
  assumes "a \<noteq> b"
  shows "leaves b w (session_request rx lib inp v a st w)"
proof -
  have "leaves b w (allowed_request rx lib inp v a st (w\<lparr>w_asked := q\<rparr>))" for q
    by (rule leaves_world [OF _ leaves_allowed [OF assms]]) simp
  moreover have "leaves b w (claim_request inp a i st (w\<lparr>w_asked := q\<rparr>) (send_reply inp r))" for q i r
    by (rule leaves_world [OF _ leaves_claim [OF assms]]) simp_all
  ultimately show ?thesis by (auto simp: session_request_def split: go.splits prod.splits bool.splits)
qed

text \<open>The session a call holds after a message, as far as the message decides it.\<close>

lemma sess_then_notify:
  assumes "\<And>w. do_sess (fst (snd (k st w))) = do_sess st"
  shows "do_sess (fst (snd (then_notify inp a i st w k))) = do_sess st"
  using assms by (auto simp: then_notify_def split: prod.splits go.splits option.splits)

lemma sess_send [simp]: "do_sess (fst (snd (send_reply inp r st w))) = do_sess st"
  by (simp add: send_reply_def split: option.splits)

lemma sess_reply [simp]: "do_sess (fst (snd (reply_new rx lib inp a u st w))) = do_sess st"
  by (simp add: reply_new_def split: go.splits)

lemma sess_claim:
  assumes "\<And>st w. do_sess (fst (snd (k st w))) = do_sess st"
  shows "do_sess (fst (snd (claim_request inp a i st w k))) = do_sess st"
  using assms sess_then_notify [of k "st\<lparr>do_req := _\<rparr>"]
  by (simp add: claim_request_def Let_def split: option.splits)

lemma sess_options:
  assumes "\<And>st w. do_sess (fst (snd (k st w))) = do_sess st"
  shows "do_sess (fst (snd (claim_options lib a u st w k))) = do_sess st"
  using assms by (simp add: claim_options_def split: option.splits)

lemma sess_allowed [simp]: "do_sess (fst (snd (allowed_request rx lib inp v a st w))) = do_sess st"
  by (simp add: allowed_request_def sess_options sess_claim split: go.splits)

lemma sess_session [simp]: "do_sess (fst (snd (session_request rx lib inp v a st w))) = do_sess st"
  by (simp add: session_request_def sess_claim split: go.splits prod.splits bool.splits)

lemma leaves_new:
  assumes "b \<noteq> w_next w" and "handle_new rx lib inp v st w = res" and "do_sess (fst (snd res)) \<noteq> Some b"
  shows "leaves b w res"
proof (cases "nr_ProxyId v = 0")
  case True
  have "leaves b w (send_reply inp r st' ((set_session (w_next w) s w)\<lparr>w_next := n\<rparr>))" for r st' s n
    using assms(1) by (simp add: leaves_def send_reply_def set_session_def split: option.splits)
  then show ?thesis using True assms(2) by (auto simp: handle_new_def Let_def)
next
  case False
  show ?thesis
  proof (cases "Registry_Get (sint (nr_ProxyId v)) (w_registry w)")
    case (Panic p)
    then show ?thesis using False assms(2) by (auto simp: handle_new_def)
  next
    case (Ret x)
    show ?thesis
    proof (cases x)
      case None
      then show ?thesis using False Ret assms(2) by (auto simp: handle_new_def)
    next
      case (Some a)
      then have "res = session_request rx lib inp v a (st\<lparr>do_sess := Some a\<rparr>) w"
        using False Ret assms(2) by (simp add: handle_new_def)
      then show ?thesis using assms(3) leaves_session [of a b] by auto
    qed
  qed
qed

lemma leaves_abort:
  assumes "do_sess st \<noteq> Some b" and "completed_abort p st w = (r, w1)"
  shows "w_heap w1 b = w_heap w b"
  using assms by (auto simp: completed_abort_def set_session_def Let_def
      split: option.splits go.splits if_splits prod.splits)

lemma leaves_finish:
  assumes "do_sess st \<noteq> Some b" and "fst p \<noteq> b"
  shows "leaves b w (completed_finish inp cached p st w)"
proof -
  let ?w1 = "if cached then update_request p (\<lambda>q. q\<lparr>rq_FromCache := True\<rparr>) w else w"
  let ?w2 = "update_request p (\<lambda>q. q\<lparr>rq_GotComplete := True\<rparr>) ?w1"
  have eq: "w_heap ?w2 b = w_heap w b" using assms(2) by simp
  show ?thesis
  proof (cases "do_sess st")
    case None
    then show ?thesis using assms(2) by (simp add: completed_finish_def Let_def leaves_def)
  next
    case (Some a)
    then have "a \<noteq> b" using assms(1) by simp
    then have "leaves b w (then_notify inp a i st ?w2 (\<lambda>st1 w3. (Again, st1, w3, [])))" for i
      by (rule leaves_notify_at [OF eq]) simp
    then show ?thesis unfolding completed_finish_def Let_def Some option.case .
  qed
qed

lemma leaves_completed:
  assumes "untouched b st w"
  shows "leaves b w (handle_completed inp cached cl st w)"
proof (cases "\<exists>c p. cl = Some c \<and> do_req st = Some p")
  case False
  then show ?thesis by (auto simp: handle_completed_def split: option.splits)
next
  case True
  then obtain c p where cl: "cl = Some c" and p: "do_req st = Some p" by auto
  then have ne: "fst p \<noteq> b" "do_sess st \<noteq> Some b"
    using assms by (auto simp: untouched_def) (metis prod.collapse)
  let ?w1 = "update_request p (\<lambda>q. q\<lparr>rq_CrawlLog := Some c\<rparr>) w"
  obtain r w2 where ab: "completed_abort p st ?w1 = (r, w2)" by fastforce
  have w2: "w_heap w2 b = w_heap w b" using leaves_abort [OF ne(2) ab] ne(1) by simp
  have fin: "leaves b w (completed_finish inp cached p st w')" if "w_heap w' b = w_heap w b" for w'
    using leaves_world [OF that leaves_finish [OF ne(2,1)]] .
  show ?thesis
    using cl p ab w2 fin [of w2] fin [of ?w1] ne
    by (cases r) (auto simp: handle_completed_def Let_def leaves_def [of b w "(_, _, w2, _)"])
qed

text \<open>
  Handling a message changes no session other than the one the call holds,
  before or after it, the one its request was found in, and one it creates.
\<close>

lemma Do_step_isolation:
  assumes "Do_step rx lib inp st w = (out, st1, w1, rs)"
    and "untouched b st w" and "do_sess st1 \<noteq> Some b"
  shows "w_heap w1 b = w_heap w b"
proof -
  have "leaves b w (out, st1, w1, rs)"
  proof (cases "in_request inp")
    case (DoNew v)
    then show ?thesis
      using assms leaves_new [of b w rx lib inp v st] by (simp add: Do_step_def untouched_def)
  next
    case (DoNotify x)
    have "leaves b w (handle_notify inp st w)"
      using assms(2) by (auto simp: handle_notify_def untouched_def split: option.splits)
    then show ?thesis using assms(1) DoNotify by (simp add: Do_step_def)
  next
    case (DoCompleted cached cl)
    then show ?thesis
      using assms leaves_completed [of b st w inp cached cl] by (simp add: Do_step_def)
  next
    case DoNothing
    then show ?thesis using assms(1) by (simp add: Do_step_def)
  qed
  then show ?thesis by (simp add: leaves_def)
qed

section \<open>Completion\<close>

lemma get_update_request:
  "get_request p' (update_request p f w)
     = (if p' = p then map_option f (get_request p w) else get_request p' w)"
proof -
  obtain a i b j where p: "p = (a, i)" "p' = (b, j)" by (metis prod.exhaust)
  show ?thesis
    by (cases "a = b"; cases "i = j")
      (auto simp: p get_request_def update_request_def set_session_def Let_def split: option.splits)
qed

lemma get_set_session:
  assumes "map_option rr_requests (ses_Requests s) = map_option rr_requests (ses_Requests (w_heap w a))"
  shows "get_request p (set_session a s w) = get_request p w"
  using assms by (cases "ses_Requests s"; cases "ses_Requests (w_heap w a)")
    (auto simp: get_request_def set_session_def)

lemma get_notified [simp]:
  "get_request p (set_session a (snd (Session_Notify now i (w_heap w a))) w) = get_request p w"
  by (rule get_set_session) simp

lemma get_asked [simp]: "get_request p (w\<lparr>w_asked := q\<rparr>) = get_request p w"
  by (simp add: get_request_def)

lemma AbortFetch_requests:
  "map_option rr_requests (ses_Requests (snd (AbortFetch s))) = map_option rr_requests (ses_Requests s)"
  by (auto simp: AbortFetch_def Let_def split: option.splits prod.splits)

lemma get_aborted:
  assumes "completed_abort p st w = (r, w1)"
  shows "get_request p' w1 = get_request p' w"
proof -
  have "get_request p' (set_session a (snd (AbortFetch (w_heap w a))) w) = get_request p' w" for a
    by (rule get_set_session) (rule AbortFetch_requests)
  with assms show ?thesis
    by (auto simp: completed_abort_def Let_def case_prod_unfold split: option.splits go.splits if_splits)
qed

lemma get_then_notify:
  assumes "then_notify inp a i st w (\<lambda>st1 w3. (Again, st1, w3, [])) = (Again, st1, w1, rs)"
  shows "get_request p w1 = get_request p w \<and> rs = [] \<and> st1 = st"
proof -
  have "w1 = set_session a (snd (Session_Notify (in_now inp) i (w_heap w a))) w \<and> rs = [] \<and> st1 = st"
    using assms by (auto simp: then_notify_def split: prod.splits go.splits option.splits)
  then show ?thesis by simp
qed

lemma get_finished:
  assumes "completed_finish inp cached p st w = (Again, st1, w1, rs)"
  shows "get_request p' w1 = (if p' = p
      then map_option (\<lambda>q. q\<lparr>rq_FromCache := rq_FromCache q \<or> cached, rq_GotComplete := True\<rparr>)
             (get_request p w) else get_request p' w)"
proof -
  let ?w1 = "if cached then update_request p (\<lambda>q. q\<lparr>rq_FromCache := True\<rparr>) w else w"
  let ?w2 = "update_request p (\<lambda>q. q\<lparr>rq_GotComplete := True\<rparr>) ?w1"
  obtain a where "then_notify inp a (request_id p ?w2) st ?w2 (\<lambda>st1 w3. (Again, st1, w3, []))
      = (Again, st1, w1, rs)"
    using assms unfolding completed_finish_def Let_def by (cases "do_sess st") auto
  then have "get_request p' w1 = get_request p' ?w2" using get_then_notify by blast
  then show ?thesis
    by (cases "get_request p w") (auto simp: get_update_request option.map_comp o_def)
qed

text \<open>
  C13 (functional). A completion that is handled without failure gives the call's request its
  crawl log and marks it complete, and as coming from the cache when the proxy says so; it
  changes no other request and sends nothing.
\<close>

theorem Do_completed:
  assumes "Do_step rx lib inp st w = (Again, st1, w1, rs)"
    and "in_request inp = DoCompleted cached (Some cl)" and "do_req st = Some p"
  shows "rs = [] \<and> get_request p' w1 = (if p' = p
      then map_option (\<lambda>q. q\<lparr>rq_CrawlLog := Some cl, rq_FromCache := rq_FromCache q \<or> cached,
             rq_GotComplete := True\<rparr>) (get_request p w)
      else get_request p' w)"
proof -
  let ?w1 = "update_request p (\<lambda>q. q\<lparr>rq_CrawlLog := Some cl\<rparr>) w"
  have h: "handle_completed inp cached (Some cl) st w = (Again, st1, w1, rs)"
    using assms(1,2) by (simp add: Do_step_def)
  then have "rs = []" using replies_ok_completed [of inp cached "Some cl" st w]
    by (simp add: replies_ok_def)
  moreover obtain w2 where fin: "completed_finish inp cached p st w2 = (Again, st1, w1, rs)"
    and w2: "\<And>p'. get_request p' w2 = get_request p' ?w1"
  proof (cases cached)
    case False
    then show ?thesis using that [of ?w1] h assms(3) by (simp add: handle_completed_def)
  next
    case True
    obtain r w2 where ab: "completed_abort p st ?w1 = (r, w2)" by fastforce
    then show ?thesis
      using that [of w2] h assms(3) True get_aborted [OF ab]
      by (cases r) (simp_all add: handle_completed_def)
  qed
  ultimately show ?thesis
    unfolding get_finished [OF fin] w2 get_update_request
    by (cases "get_request p w") auto
qed

section \<open>Failures\<close>

text \<open>
  A proxy whose session is gone is told to cancel its request; the completion
  it then reports for that request makes the handler dereference the nil session, and the
  call ends with the error -5 instead of going on.
\<close>

lemma Do_cancelled_then_completed:
  assumes "in_request inp1 = DoNew v" and "nr_ProxyId v \<noteq> 0" and "in_send inp1 = None"
    and "Registry_Get (sint (nr_ProxyId v)) (w_registry (o1 w)) = Ret None"
    and "in_request inp2 = DoCompleted cached cl"
  shows "Do rx lib panic_text ((o1, Inr inp1) # (o2, Inr inp2) # evs) w
    = (Some (Some (FetchErr \<lparr>err_Code = - 5, err_Msg = ''Runtime error'',
             err_Detail = panic_text NilDereference\<rparr>)),
       o2 (o1 w), [ReplyCancel ''Cancelled by browser controller''])"
  using assms
  by (simp add: Do_def Do_step_def handle_new_def handle_completed_def send_reply_def
      Do_recover_def FetchError_New_def split: option.splits)

text \<open>
  When the completion of the initial request says it was cached, the page is
  aborted before the request is marked: in between, the wait for the page's frames can
  already return \<open>Cancelled\<close> while the request does not yet count as coming from the cache,
  so the fetch can miss that the page was seen before.
\<close>

lemma abort_before_from_cache:
  assumes "do_sess st = Some (fst p)" and "get_request p w = Some q" and "snd p = 0"
    and "completed_abort p st w = (Ret (), w1)" and "\<not> rq_FromCache q"
  shows "\<exists>r1. ses_Requests (w_heap w1 (fst p)) = Some r1 \<and> InitialRequest r1 = Ret 0
    \<and> Some Cancelled \<in> set (WaitGroup_Wait_select ctxDone (rr_done r1))
    \<and> ses_loadCtx (w_heap w1 (fst p)) = Some True
    \<and> \<not> rq_FromCache (rr_requests r1 ! 0)"
proof -
  obtain r where r: "ses_Requests (w_heap w (fst p)) = Some r" "0 < length (rr_requests r)"
      "rr_requests r ! 0 = q"
    using assms(2,3) by (auto simp: get_request_def split: option.splits if_splits)
  have init: "InitialRequest r = Ret 0" using r(2) by (auto simp: InitialRequest_def)
  have "request_id p w = rq_RequestId q" using assms(2) by (simp add: request_id_def)
  then have ab: "AbortFetch (w_heap w (fst p)) = (Ret (), w_heap w1 (fst p))"
    using assms(1,4) r init
    by (auto simp: completed_abort_def set_session_def split: prod.splits)
  obtain wg where wg: "WaitGroup_Cancel (rr_done r) = (Ret (), wg)"
    using ab r(1) by (auto simp: AbortFetch_def Let_def split: option.splits prod.splits)
  have can: "wg_cancel wg"
    using wg by (auto simp: WaitGroup_Cancel_def close_chan_def split: if_splits go.splits)
  have "w_heap w1 (fst p) = (w_heap w (fst p))
      \<lparr>ses_Requests := Some (r\<lparr>rr_done := wg\<rparr>), ses_loadCtx := Some True\<rparr>"
    using ab r(1) wg by (auto simp: AbortFetch_def Let_def split: option.splits)
  then have "ses_Requests (w_heap w1 (fst p)) = Some (r\<lparr>rr_done := wg\<rparr>)
      \<and> ses_loadCtx (w_heap w1 (fst p)) = Some True"
    by simp
  then show ?thesis
    using can r assms(5) by (auto simp: InitialRequest_def WaitGroup_Wait_select_def)
qed

lemma second_abort_panics:
  assumes "AbortFetch s = (Ret (), s1)"
  shows "fst (AbortFetch s1) = Panic CloseOfClosedChannel"
  using assms
  by (auto simp: AbortFetch_def WaitGroup_Cancel_def close_chan_def Let_def
      split: option.splits prod.splits go.splits if_splits)

section \<open>An example\<close>

text \<open>
  Session 3 of a registry for four fetches a page; its initial request has been sent.
\<close>

definition ex_log :: crawl_log where
  "ex_log = \<lparr>cl_WarcId = ''w'', cl_StatusCode = 200, cl_Size = 3, cl_RequestedUri = ''u'',
     cl_Method = ''GET'', cl_DiscoveryPath = [], cl_Referrer = [], cl_ContentType = [],
     cl_ExecutionId = ''e'', cl_IpAddress = [], cl_CollectionFinalName = [],
     cl_FetchTimeStamp = 0, cl_Error = None\<rparr>"

definition ex_request :: request where
  "ex_request = (example_request ''u'' ''n1'' [])\<lparr>rq_RequestId := ''i1'', rq_CrawlLog := None\<rparr>"

definition ex_session :: session where
  "ex_session = (newDirectSession ''u'' ''e'' ''j'' [])\<lparr>ses_Id := 3, ses_ctx := Some False,
     ses_loadCtx := Some False,
     ses_Requests := Some ((NewRequestRegistry NewWaitGroup)\<lparr>rr_requests := [ex_request]\<rparr>),
     ses_CrawlConfig := Some \<lparr>cc_CollectionRef = None, cc_BrowserConfigRef = None,
        cc_PolitenessRef = None, cc_Extra = None\<rparr>,
     ses_PolitenessConfig := Some \<lparr>co_Id = ''p'', co_Meta = None,
        co_Spec = PolitenessSpec \<lparr>pc_RobotsPolicy = OBEY_ROBOTS_CLASSIC\<rparr>\<rparr>,
     ses_scripts := Some newSessionScripts\<rparr>"

definition ex_world :: world where
  "ex_world = \<lparr>w_heap = (\<lambda>_. ex_session), w_next = 9,
     w_registry = \<lparr>sr_sessions = [None, None, None, Some 5], sr_pool = [2], sr_wg = 1\<rparr>,
     w_options = [], w_written = [], w_asked = []\<rparr>"

definition ex_new :: "int32 \<Rightarrow> do_input" where
  "ex_new proxy = \<lparr>in_request = DoNew \<lparr>nr_ProxyId = proxy, nr_Uri = ''u'', nr_Method = ''CONNECT'',
     nr_RequestId = [], nr_CrawlExecutionId = [], nr_JobExecutionId = [], nr_CollectionRef = None\<rparr>,
     in_send = None, in_robots = Inr True, in_now = 0\<rparr>"

definition ex_completed :: "bool \<Rightarrow> do_input" where
  "ex_completed cached = \<lparr>in_request = DoCompleted cached (Some ex_log), in_send = None,
     in_robots = Inr True, in_now = 0\<rparr>"

lemmas ex_defs = ex_world_def ex_new_def ex_completed_def ex_session_def newDirectSession_def
  newDefaultSession_def Do_step_def handle_new_def send_reply_def Registry_Get_def

lemma ex_connect:
  "\<exists>w1. Do_step prefix_regexps plain_urls (ex_new 3) \<lparr>do_sess = None, do_req = None\<rparr> ex_world
    = (Again, \<lparr>do_sess = Some 5, do_req = None\<rparr>, w1,
       [ReplyNew \<lparr>np_CrawlExecutionId = ''e'', np_JobExecutionId = ''j'', np_CollectionRef = None,
          np_ReplacementScript = None\<rparr>])"
  by (simp add: ex_defs session_request_def robots_request_def allowed_request_def
      new_reply_for_def IsAllowed_def resolvePolicy_def set_policy_def GetPolitenessConfig_def
      GetRobotsPolicy_def)

definition ex_start :: do_state where
  "ex_start = \<lparr>do_sess = None, do_req = None\<rparr>"

definition ex_state :: do_state where
  "ex_state = \<lparr>do_sess = Some 5, do_req = Some (5, 0)\<rparr>"

lemma Do_new_let_through_instance:
  "Registry_Get 3 (w_registry ex_world) = Ret (Some 5)
   \<and> fst (IsAllowed (\<lambda>q asked. (Inr True, asked @ [q])) (case robots_request (w_heap ex_world 5)
        \<lparr>nr_ProxyId = 3, nr_Uri = ''u'', nr_Method = ''CONNECT'', nr_RequestId = [],
         nr_CrawlExecutionId = [], nr_JobExecutionId = [], nr_CollectionRef = None\<rparr> of Ret q \<Rightarrow> q) [])
      = Ret True"
proof -
  obtain w1 where "Do_step prefix_regexps plain_urls (ex_new 3) \<lparr>do_sess = None, do_req = None\<rparr> ex_world
    = (Again, \<lparr>do_sess = Some 5, do_req = None\<rparr>, w1,
       [ReplyNew \<lparr>np_CrawlExecutionId = ''e'', np_JobExecutionId = ''j'', np_CollectionRef = None,
          np_ReplacementScript = None\<rparr>])"
    using ex_connect by blast
  from Do_new_let_through [OF this] show ?thesis
    by (auto simp: ex_new_def Registry_Get_def ex_world_def)
qed

lemma ex_unknown: "Do_step rx lib (ex_new 1) st ex_world
    = (Again, st\<lparr>do_sess := None\<rparr>, ex_world, [ReplyCancel ''Cancelled by browser controller''])"
  by (simp add: ex_defs)

theorem Do_loop_replies_witness:
  "length [ReplyCancel ''Cancelled by browser controller'']
     = length (filter is_new [(id, Inr (ex_new 1))])"
proof -
  have "Do_loop prefix_regexps plain_urls [(id, Inr (ex_new 1))] ex_start ex_world
      = (None, ex_start, ex_world, [ReplyCancel ''Cancelled by browser controller''])"
    by (simp add: ex_unknown ex_start_def)
  from Do_loop_replies [OF this] show ?thesis by blast
qed

lemma Do_step_isolation_instance:
  "w_heap ex_world 7 = ex_session"
proof -
  have "Do_step prefix_regexps plain_urls (ex_new 1) ex_state ex_world
      = (Again, ex_state\<lparr>do_sess := None\<rparr>, ex_world, [ReplyCancel ''Cancelled by browser controller''])"
    by (rule ex_unknown)
  from Do_step_isolation [OF this, of 7] show ?thesis
    by (simp add: untouched_def ex_state_def ex_world_def)
qed

lemma ex_completes:
  "\<exists>w1. Do_step prefix_regexps plain_urls (ex_completed False) ex_state ex_world = (Again, ex_state, w1, [])"
  by (simp add: ex_defs handle_completed_def completed_finish_def then_notify_def Let_def
      Session_Notify_def notify_timer_def update_request_def set_session_def ex_state_def
      NewRequestRegistry_def)

theorem Do_completed_witness:
  "\<exists>w1. map_option rq_CrawlLog (get_request (5, 0) w1) = Some (Some ex_log)"
proof -
  obtain w1 where "Do_step prefix_regexps plain_urls (ex_completed False) ex_state ex_world
      = (Again, ex_state, w1, [])"
    using ex_completes by blast
  from Do_completed [OF this, of False ex_log "(5, 0)" "(5, 0)"]
  have "get_request (5, 0) w1 = map_option (\<lambda>q. q\<lparr>rq_CrawlLog := Some ex_log,
      rq_FromCache := rq_FromCache q \<or> False, rq_GotComplete := True\<rparr>) (get_request (5, 0) ex_world)"
    by (simp add: ex_completed_def ex_state_def)
  moreover have "get_request (5, 0) ex_world = Some ex_request"
    by (simp add: get_request_def ex_world_def ex_session_def newDirectSession_def NewRequestRegistry_def)
  ultimately have "map_option rq_CrawlLog (get_request (5, 0) w1) = Some (Some ex_log)" by simp
  then show ?thesis ..
qed

lemma Do_cancelled_then_completed_instance:
  "fst (Do prefix_regexps plain_urls (\<lambda>_. ''nil'') [(id, Inr (ex_new 1)), (id, Inr (ex_completed True))]
     ex_world) = Some (Some (FetchErr \<lparr>err_Code = - 5, err_Msg = ''Runtime error'', err_Detail = ''nil''\<rparr>))"
  using Do_cancelled_then_completed [of "ex_new 1" _ id ex_world "ex_completed True" True "Some ex_log"
      prefix_regexps plain_urls "\<lambda>_. ''nil''" id "[]"]
  by (simp add: ex_new_def ex_completed_def ex_world_def Registry_Get_def)

lemma abort_before_from_cache_instance:
  "\<exists>(w1 :: world) r1. ses_Requests (w_heap w1 5) = Some r1
     \<and> Some Cancelled \<in> set (WaitGroup_Wait_select False (rr_done r1))
     \<and> \<not> rq_FromCache (rr_requests r1 ! 0)"
proof -
  have req: "get_request (5, 0) ex_world = Some ex_request"
    by (simp add: get_request_def ex_world_def ex_session_def newDirectSession_def NewRequestRegistry_def)
  obtain w1 where w1: "completed_abort (5, 0) ex_state ex_world = (Ret (), w1)"
    using req by (auto simp: completed_abort_def ex_state_def ex_world_def ex_session_def
        newDirectSession_def NewRequestRegistry_def InitialRequest_def AbortFetch_def
        NewWaitGroup_def WaitGroup_Cancel_def request_id_def Let_def)
  have "\<not> rq_FromCache ex_request" by (simp add: ex_request_def example_request_def)
  from abort_before_from_cache [OF _ req _ w1 this, of False] obtain r1 where
    "ses_Requests (w_heap w1 5) = Some r1"
    "Some Cancelled \<in> set (WaitGroup_Wait_select False (rr_done r1))"
    "\<not> rq_FromCache (rr_requests r1 ! 0)"
    by (auto simp: ex_state_def)
  then show ?thesis by blast
qed

end
