(* ===== verification/Page.thy ===== *)
theory Page
  imports Session_Scripts Listeners Frontier Screenshot
begin

text \<open>
  The second half of \<open>Fetch\<close> in \<^verbatim>\<open>session/session.go\<close>: what is taken from a page once it has
  settled. The screenshot, the outlinks, the cookies, the crawl logs, the page log and the
  result for the frontier.
\<close>

section \<open>The environment\<close>

record page_resource =
  pr_Uri :: string
  pr_FromCache :: bool
  pr_Renderable :: bool
  pr_ResourceType :: string
  pr_ContentType :: string
  pr_StatusCode :: int32
  pr_DiscoveryPath :: string
  pr_WarcId :: string
  pr_Referrer :: string
  pr_Error :: "commons_error option"
  pr_Method :: string

record page_log =
  pl_WarcId :: string
  pl_Uri :: string
  pl_ExecutionId :: string
  pl_Referrer :: string
  pl_JobExecutionId :: string
  pl_CollectionFinalName :: string
  pl_Method :: string
  pl_Resource :: "page_resource list"
  pl_Outlink :: "string list"

text \<open>
  What the page, the browser and the writers do, on the session (which browser events may
  change meanwhile) and a state \<open>'w\<close> of everything else.
\<close>

record 'w page_env =
  pg_Evaluate :: "string \<Rightarrow> bool \<Rightarrow> session \<times> 'w \<Rightarrow>
     (error + error option \<times> raw option) \<times> session \<times> 'w"
  pg_GetAllCookies :: "session \<times> 'w \<Rightarrow> (error + cookie list) \<times> session \<times> 'w"
  pg_CaptureScreenshot :: "session \<times> 'w \<Rightarrow> (error + string) \<times> session \<times> 'w"
  pg_WriteScreenshot :: "string \<Rightarrow> metadata \<Rightarrow> session \<times> 'w \<Rightarrow> error option go \<times> session \<times> 'w"
  pg_CloseBrowser :: "session \<times> 'w \<Rightarrow> error option \<times> session \<times> 'w"
  pg_WriteCrawlLogs :: "crawl_log list \<Rightarrow> session \<times> 'w \<Rightarrow> error option \<times> session \<times> 'w"
  pg_WritePageLog :: "page_log \<Rightarrow> session \<times> 'w \<Rightarrow> error option \<times> session \<times> 'w"
  pg_NewUuid :: "session \<times> 'w \<Rightarrow> string \<times> session \<times> 'w"

text \<open>The requests that are read through pointers; the registry and the root may be nil.\<close>

definition root_request :: "session \<Rightarrow> request go" where
  "root_request s =
     (case ses_Requests s of
        None \<Rightarrow> Panic NilDereference
      | Some r \<Rightarrow> (case RootRequest r of None \<Rightarrow> Panic NilDereference
                  | Some i \<Rightarrow> Ret (rr_requests r ! i)))"

definition initial_request :: "session \<Rightarrow> request go" where
  "initial_request s =
     (case ses_Requests s of
        None \<Rightarrow> Panic NilDereference
      | Some r \<Rightarrow> go_bind (InitialRequest r) (\<lambda>i. Ret (rr_requests r ! i)))"

section \<open>The screenshot\<close>

text \<open>The writer is called through the handle of the session, which panics when that is nil.\<close>

definition write_screenshot ::
  "'w page_env \<Rightarrow> string \<Rightarrow> metadata \<Rightarrow> session \<times> 'w \<Rightarrow> error option go \<times> session \<times> 'w" where
  "write_screenshot env data md sw =
     (case ses_screenShotWriter (fst sw) of
        None \<Rightarrow> (Panic NilDereference, sw) | Some h \<Rightarrow> pg_WriteScreenshot env data md sw)"

definition saveScreenshot :: "'w page_env \<Rightarrow> session \<times> 'w \<Rightarrow> unit go \<times> session \<times> 'w" where
  "saveScreenshot env sw =
     (case root_request (fst sw) of
        Panic p \<Rightarrow> (Panic p, sw)
      | Ret root \<Rightarrow>
          if rq_FromCache root then (Ret (), sw)
          else if rq_ResourceType root \<noteq> ''Document'' \<and> rq_ResourceType root \<noteq> ''Image''
          then (Ret (), sw)
          else (case rq_CrawlLog root of
                  None \<Rightarrow> (Ret (), sw)
                | Some cl \<Rightarrow>
                    if cl_WarcId cl = [] then (Ret (), sw)
                    else (case pg_CaptureScreenshot env sw of
                            (Inl err, sw1) \<Rightarrow> (Ret (), sw1)
                          | (Inr data, sw1) \<Rightarrow>
                              (case root_request (fst sw1) of
                                 Panic p \<Rightarrow> (Panic p, sw1)
                               | Ret root1 \<Rightarrow>
                                   (case write_screenshot env data
                                        \<lparr>md_CrawlConfig = ses_CrawlConfig (fst sw1),
                                         md_CrawlLog = rq_CrawlLog root1,
                                         md_BrowserConfig = ses_browserConfig (fst sw1),
                                         md_BrowserVersion = ses_browserVersion (fst sw1)\<rparr> sw1 of
                                      (Panic p, sw2) \<Rightarrow> (Panic p, sw2)
                                    | (Ret e, sw2) \<Rightarrow> (Ret (), sw2))))))"

section \<open>Outlinks\<close>

text \<open>\<open>strings.TrimSpace\<close> (of ASCII white space) and \<open>strings.Trim\<close> of quotes and backslashes.\<close>

definition is_space :: "char \<Rightarrow> bool" where
  "is_space c \<longleftrightarrow> (of_char c :: nat) \<in> {9, 10, 11, 12, 13, 32}"

definition is_quote :: "char \<Rightarrow> bool" where
  "is_quote c \<longleftrightarrow> (of_char c :: nat) \<in> {34, 92}"

definition trim :: "(char \<Rightarrow> bool) \<Rightarrow> string \<Rightarrow> string" where
  "trim P s = rev (dropWhile P (rev (dropWhile P s)))"

definition clean_link :: "string \<Rightarrow> string" where
  "clean_link link = trim is_quote (trim is_space link)"

text \<open>
  \<open>json.Unmarshal\<close> into a nil \<open>[]string\<close>: null is no element, a null element is the empty
  string, anything else than an array of strings and nulls is an error.
\<close>

fun string_elem :: "json \<Rightarrow> string option" where
  "string_elem (JStr s) = Some s"
| "string_elem JNull = Some []"
| "string_elem j = None"

fun unmarshal_strings :: "raw \<Rightarrow> string list option" where
  "unmarshal_strings (RawJson JNull) = Some []"
| "unmarshal_strings (RawJson (JArr js)) =
     (if \<forall>j \<in> set js. string_elem j \<noteq> None then Some (map (\<lambda>j. the (string_elem j)) js) else None)"
| "unmarshal_strings r = None"

text \<open>The links kept; the root request is read only for links that are not empty.\<close>

fun keep_links :: "request go \<Rightarrow> string list \<Rightarrow> string list \<Rightarrow> string list go" where
  "keep_links root [] extracted = Ret extracted"
| "keep_links root (l # ls) extracted =
     (let link = clean_link l in
      if link = [] then keep_links root ls extracted
      else go_bind root (\<lambda>r. keep_links root ls
             (if link \<noteq> rq_Url r then extracted @ [link] else extracted)))"

text \<open>A script that fails, throws, or returns no list of strings contributes nothing.\<close>

fun extract_loop ::
  "'w page_env \<Rightarrow> config_object list \<Rightarrow> string list \<Rightarrow> session \<times> 'w \<Rightarrow>
     string list go \<times> session \<times> 'w" where
  "extract_loop env [] extracted sw = (Ret extracted, sw)"
| "extract_loop env (s # ss) extracted sw =
     (let script = GetScript (GetBrowserScript s);
          awaitPromise = HasPrefix script ''(async ''
      in case pg_Evaluate env script awaitPromise sw of
           (Inl err, sw1) \<Rightarrow> extract_loop env ss extracted sw1
         | (Inr (Some exceptionDetails, v), sw1) \<Rightarrow> extract_loop env ss extracted sw1
         | (Inr (None, None), sw1) \<Rightarrow> extract_loop env ss extracted sw1
         | (Inr (None, Some v), sw1) \<Rightarrow>
             (case unmarshal_strings v of
                None \<Rightarrow> extract_loop env ss extracted sw1
              | Some links \<Rightarrow>
                  (case keep_links (root_request (fst sw1)) links extracted of
                     Panic p \<Rightarrow> (Panic p, sw1)
                   | Ret extracted1 \<Rightarrow> extract_loop env ss extracted1 sw1)))"

definition extractOutlinks ::
  "'w page_env \<Rightarrow> session \<times> 'w \<Rightarrow> string list go \<times> session \<times> 'w" where
  "extractOutlinks env sw =
     (case scripts_Get (ses_scripts (fst sw)) EXTRACT_OUTLINKS of
        Panic p \<Rightarrow> (Panic p, sw)
      | Ret scripts \<Rightarrow> extract_loop env scripts [] sw)"

definition extractCookies :: "'w page_env \<Rightarrow> session \<times> 'w \<Rightarrow> cookie list \<times> session \<times> 'w" where
  "extractCookies env sw =
     (case pg_GetAllCookies env sw of (Inl err, sw1) \<Rightarrow> ([], sw1) | (Inr cookies, sw1) \<Rightarrow> (cookies, sw1))"

section \<open>Crawl logs, page log and result\<close>

record collected =
  col_crawlLogCount :: int32
  col_bytesDownloaded :: int64
  col_resources :: "page_resource list"
  col_crawlLogs :: "crawl_log list"

definition collect_log :: "request \<Rightarrow> collected \<Rightarrow> collected" where
  "collect_log r c =
     (case rq_CrawlLog r of
        None \<Rightarrow> c
      | Some cl \<Rightarrow>
          if cl_WarcId cl \<noteq> []
          then c\<lparr>col_crawlLogs := col_crawlLogs c @ [cl],
                 col_crawlLogCount := col_crawlLogCount c + 1,
                 col_bytesDownloaded := col_bytesDownloaded c + cl_Size cl\<rparr>
          else c)"

definition resource_of :: "request \<Rightarrow> crawl_log \<Rightarrow> page_resource" where
  "resource_of r cl =
     \<lparr>pr_Uri = rq_Url r, pr_FromCache = rq_FromCache r, pr_Renderable = False,
      pr_ResourceType = rq_ResourceType r, pr_ContentType = cl_ContentType cl,
      pr_StatusCode = cl_StatusCode cl, pr_DiscoveryPath = cl_DiscoveryPath cl,
      pr_WarcId = cl_WarcId cl, pr_Referrer = rq_Referrer r, pr_Error = cl_Error cl,
      pr_Method = rq_Method r\<rparr>"

definition collect_request :: "request \<Rightarrow> collected \<Rightarrow> collected" where
  "collect_request r c =
     (let c1 = collect_log r c in
      case rq_CrawlLog r of
        None \<Rightarrow> c1
      | Some cl \<Rightarrow> c1\<lparr>col_resources := col_resources c1 @ [resource_of r cl]\<rparr>)"

definition collect :: "request_registry \<Rightarrow> collected" where
  "collect r = Walk collect_request r
     \<lparr>col_crawlLogCount = 0, col_bytesDownloaded = 0, col_resources = [], col_crawlLogs = []\<rparr>"

definition page_log_of ::
  "string \<Rightarrow> queued_uri \<Rightarrow> request \<Rightarrow> crawl_log \<Rightarrow> page_resource list \<Rightarrow> string list \<Rightarrow> page_log" where
  "page_log_of warcId uri initial cl resources outlinks =
     \<lparr>pl_WarcId = warcId, pl_Uri = qu_Uri uri, pl_ExecutionId = qu_ExecutionId uri,
      pl_Referrer = rq_Referrer initial, pl_JobExecutionId = qu_JobExecutionId uri,
      pl_CollectionFinalName = cl_CollectionFinalName cl, pl_Method = rq_Method initial,
      pl_Resource = resources, pl_Outlink = outlinks\<rparr>"

text \<open>
  The uris reported to the frontier. The discovery path of the root request is read for each
  of them; without a crawl log that panics.
\<close>

definition queued_uris ::
  "queued_uri \<Rightarrow> cookie list \<Rightarrow> request go \<Rightarrow> string list \<Rightarrow> queued_uri list go" where
  "queued_uris requested cookies root outlinks =
     (if outlinks = [] then Ret []
      else go_bind root (\<lambda>r.
        case rq_CrawlLog r of
          None \<Rightarrow> Panic NilDereference
        | Some cl \<Rightarrow>
            Ret (map (\<lambda>uri. \<lparr>qu_Uri = uri, qu_ExecutionId = qu_ExecutionId requested,
                      qu_JobExecutionId = qu_JobExecutionId requested,
                      qu_DiscoveryPath = cl_DiscoveryPath cl @ ''L'', qu_Referrer = rq_Url r,
                      qu_SeedUri = [], qu_Cookies = cookies, qu_Annotation = []\<rparr>) outlinks)))"

text \<open>
  The end of \<open>Fetch\<close>, from the walk over the requests on. Errors of the log writer are
  only logged, a nil one panics; \<open>closeErr\<close> is the error of closing the browser, which the last error wraps.
\<close>

definition write_page_log ::
  "'w page_env \<Rightarrow> queued_uri \<Rightarrow> request \<Rightarrow> crawl_log \<Rightarrow> collected \<Rightarrow> string list \<Rightarrow> session \<times> 'w \<Rightarrow>
     unit go \<times> session \<times> 'w" where
  "write_page_log env requested initial cl c outlinks sw =
     (let (warcId, sw1) = (if cl_WarcId cl = [] then pg_NewUuid env sw else (cl_WarcId cl, sw))
      in case ses_logWriter (fst sw1) of
           None \<Rightarrow> (Panic NilDereference, sw1)
         | Some h \<Rightarrow> (Ret (), snd (pg_WritePageLog env
             (page_log_of warcId requested initial cl (col_resources c) outlinks) sw1)))"

definition write_crawl_logs ::
  "'w page_env \<Rightarrow> crawl_log list \<Rightarrow> session \<times> 'w \<Rightarrow> error option go \<times> session \<times> 'w" where
  "write_crawl_logs env logs sw =
     (case ses_logWriter (fst sw) of
        None \<Rightarrow> (Panic NilDereference, sw)
      | Some h \<Rightarrow> (let (e, sw1) = pg_WriteCrawlLogs env logs sw in (Ret e, sw1)))"

definition report_page ::
  "'w page_env \<Rightarrow> queued_uri \<Rightarrow> string list \<Rightarrow> cookie list \<Rightarrow> error option \<Rightarrow> int64 \<Rightarrow>
     session \<times> 'w \<Rightarrow> (error + render_result) go \<times> session \<times> 'w" where
  "report_page env requested outlinks cookies closeErr fetchMs sw =
     (case ses_Requests (fst sw) of
        None \<Rightarrow> (Panic NilDereference, sw)
      | Some r \<Rightarrow>
          let c = collect r
          in (case write_crawl_logs env (col_crawlLogs c) sw of
                (Panic p, sw1) \<Rightarrow> (Panic p, sw1)
              | (Ret e, sw1) \<Rightarrow>
          (case initial_request (fst sw1) of
                Panic p \<Rightarrow> (Panic p, sw1)
              | Ret initial \<Rightarrow>
                  (case rq_CrawlLog initial of
                     None \<Rightarrow> (Ret (Inl (Wrapped ''missing initial request: '' closeErr)), sw1)
                   | Some cl \<Rightarrow>
                       (case write_page_log env requested initial cl c outlinks sw1 of
                          (Panic p, sw2) \<Rightarrow> (Panic p, sw2)
                        | (Ret e1, sw2) \<Rightarrow>
                            (case queued_uris requested cookies (root_request (fst sw2)) outlinks of
                               Panic p \<Rightarrow> (Panic p, sw2)
                             | Ret qUris \<Rightarrow>
                                 (case initial_request (fst sw2) of
                                    Panic p \<Rightarrow> (Panic p, sw2)
                                  | Ret initial2 \<Rightarrow>
                                      (case rq_CrawlLog initial2 of
                                         None \<Rightarrow> (Panic NilDereference, sw2)
                                       | Some cl2 \<Rightarrow>
                                           (Ret (Inr \<lparr>res_BytesDownloaded = col_bytesDownloaded c,
                                               res_UriCount = col_crawlLogCount c,
                                               res_Outlinks = qUris, res_Error = cl_Error cl2,
                                               res_PageFetchTimeMs = fetchMs\<rparr>), sw2)))))))))"

lemmas page_defs [step_defs] =
  saveScreenshot_def extractOutlinks_def extractCookies_def collect_log_def collect_request_def
  write_screenshot_def write_crawl_logs_def write_page_log_def report_page_def queued_uris_def

section \<open>What is collected\<close>

text \<open>The crawl logs of the requests that were written to a WARC file, in request order.\<close>

definition stored_logs :: "request list \<Rightarrow> crawl_log list" where
  "stored_logs reqs =
     concat (map (\<lambda>r. case rq_CrawlLog r of None \<Rightarrow> []
        | Some cl \<Rightarrow> if cl_WarcId cl = [] then [] else [cl]) reqs)"

definition logged_resources :: "request list \<Rightarrow> page_resource list" where
  "logged_resources reqs =
     concat (map (\<lambda>r. case rq_CrawlLog r of None \<Rightarrow> [] | Some cl \<Rightarrow> [resource_of r cl]) reqs)"

lemma fold_collect:
  "fold collect_request reqs c =
     \<lparr>col_crawlLogCount = col_crawlLogCount c + of_nat (length (stored_logs reqs)),
      col_bytesDownloaded = col_bytesDownloaded c + sum_list (map cl_Size (stored_logs reqs)),
      col_resources = col_resources c @ logged_resources reqs,
      col_crawlLogs = col_crawlLogs c @ stored_logs reqs\<rparr>"
proof (induction reqs arbitrary: c)
  case Nil
  then show ?case by (simp add: stored_logs_def logged_resources_def)
next
  case (Cons r reqs)
  show ?case
    unfolding fold.simps o_apply Cons.IH
    by (cases "rq_CrawlLog r")
      (auto simp: collect_request_def collect_log_def stored_logs_def logged_resources_def Let_def
        algebra_simps)
qed

lemma collect_eq:
  "collect r = \<lparr>col_crawlLogCount = of_nat (length (stored_logs (rr_requests r))),
     col_bytesDownloaded = sum_list (map cl_Size (stored_logs (rr_requests r))),
     col_resources = logged_resources (rr_requests r),
     col_crawlLogs = stored_logs (rr_requests r)\<rparr>"
  by (simp add: collect_def Walk_def fold_collect)

text \<open>
  A writer that records what it is given, in front of any environment.
\<close>

definition recording_logs ::
  "'w page_env \<Rightarrow> ('w \<times> crawl_log list) page_env" where
  "recording_logs env =
     \<lparr>pg_Evaluate = (\<lambda>s p (x, w, l). let (r, x1, w1) = pg_Evaluate env s p (x, w) in (r, x1, w1, l)),
      pg_GetAllCookies = (\<lambda>(x, w, l). let (r, x1, w1) = pg_GetAllCookies env (x, w) in (r, x1, w1, l)),
      pg_CaptureScreenshot =
        (\<lambda>(x, w, l). let (r, x1, w1) = pg_CaptureScreenshot env (x, w) in (r, x1, w1, l)),
      pg_WriteScreenshot =
        (\<lambda>d m (x, w, l). let (r, x1, w1) = pg_WriteScreenshot env d m (x, w) in (r, x1, w1, l)),
      pg_CloseBrowser = (\<lambda>(x, w, l). let (r, x1, w1) = pg_CloseBrowser env (x, w) in (r, x1, w1, l)),
      pg_WriteCrawlLogs =
        (\<lambda>cl (x, w, l). let (r, x1, w1) = pg_WriteCrawlLogs env cl (x, w) in (r, x1, w1, l @ cl)),
      pg_WritePageLog = (\<lambda>p (x, w, l). let (r, x1, w1) = pg_WritePageLog env p (x, w) in (r, x1, w1, l)),
      pg_NewUuid = (\<lambda>(x, w, l). let (r, x1, w1) = pg_NewUuid env (x, w) in (r, x1, w1, l))\<rparr>"

lemma recording_logs_simps [simp]:
  "pg_WriteCrawlLogs (recording_logs env) cl (x, w, l)
     = (let (r, x1, w1) = pg_WriteCrawlLogs env cl (x, w) in (r, x1, w1, l @ cl))"
  "pg_WritePageLog (recording_logs env) p (x, w, l)
     = (let (r, x1, w1) = pg_WritePageLog env p (x, w) in (r, x1, w1, l))"
  "pg_NewUuid (recording_logs env) (x, w, l)
     = (let (r, x1, w1) = pg_NewUuid env (x, w) in (r, x1, w1, l))"
  by (simp_all add: recording_logs_def)

lemma write_page_log_recorded:
  "\<exists>r x1 w1. write_page_log (recording_logs env) q i cl c outlinks (x, w, l) = (r, x1, w1, l)"
  by (auto simp: write_page_log_def Let_def split: prod.splits option.splits)

text \<open>
  C12 (functional). What \<open>Fetch\<close> reports about a page that settled: the number and the
  total size (modulo the width of the counters) of exactly those crawl logs that have a
  WARC id, which are the ones written, in the order of the requests.
\<close>

theorem report_page_counts:
  assumes "ses_Requests s = Some r"
    and "report_page (recording_logs env) q outlinks cookies closeErr fetchMs (s, w, [])
      = (Ret (Inr res), s1, w1, written)"
  shows "written = stored_logs (rr_requests r)
    \<and> res_UriCount res = of_nat (length written)
    \<and> res_BytesDownloaded res = sum_list (map cl_Size written)
    \<and> length (res_Outlinks res) = length outlinks"
proof -
  obtain h where h: "ses_logWriter s = Some h"
    using assms by (auto simp: report_page_def write_crawl_logs_def Let_def split: option.splits)
  obtain e x2 w2 where wr: "pg_WriteCrawlLogs env (col_crawlLogs (collect r)) (s, w) = (e, x2, w2)"
    by (metis prod_cases3)
  then have wr: "write_crawl_logs (recording_logs env) (col_crawlLogs (collect r)) (s, w, [])
      = (Ret e, x2, w2, col_crawlLogs (collect r))"
    using h by (simp add: write_crawl_logs_def)
  obtain initial cl where ini: "initial_request x2 = Ret initial" "rq_CrawlLog initial = Some cl"
    using assms wr by (auto simp: report_page_def Let_def split: go.splits option.splits)
  obtain lr x3 w3 where pl: "write_page_log (recording_logs env) q initial cl (collect r) outlinks
      (x2, w2, col_crawlLogs (collect r)) = (lr, x3, w3, col_crawlLogs (collect r))"
    using write_page_log_recorded [of env q initial cl "collect r" outlinks x2 w2
        "col_crawlLogs (collect r)"] by (elim exE)
  obtain qs where qs: "queued_uris q cookies (root_request x3) outlinks = Ret qs"
      "res_Outlinks res = qs" "written = col_crawlLogs (collect r)"
      "res_UriCount res = col_crawlLogCount (collect r)"
      "res_BytesDownloaded res = col_bytesDownloaded (collect r)"
    using assms wr ini pl
    by (auto simp: report_page_def Let_def split: go.splits option.splits)
  have "length qs = length outlinks"
    using qs(1) by (auto simp: queued_uris_def split: if_splits option.splits)
  then show ?thesis using qs by (simp add: collect_eq)
qed

section \<open>Outlinks\<close>

lemma dropWhile_not_hd: "dropWhile P s \<noteq> [] \<Longrightarrow> \<not> P (hd (dropWhile P s))"
  by (rule hd_dropWhile)

lemma trim_ends:
  assumes "trim P s \<noteq> []"
  shows "\<not> P (hd (trim P s)) \<and> \<not> P (last (trim P s))"
proof -
  let ?t = "dropWhile P s"
  let ?u = "dropWhile P (rev ?t)"
  have u: "?u \<noteq> []" using assms by (simp add: trim_def)
  then have lastP: "\<not> P (hd ?u)" by (rule hd_dropWhile)
  have t: "?t \<noteq> []" using u by (metis dropWhile.simps(1) rev.simps(1))
  then have hdt: "\<not> P (hd ?t)" by (rule hd_dropWhile)
  obtain p where "rev ?t = p @ ?u" by (metis takeWhile_dropWhile_id)
  then have "?t = rev ?u @ rev p" by (metis rev_append rev_rev_ident)
  then have "hd (rev ?u) = hd ?t" using u by (metis hd_append rev_is_Nil_conv)
  then show ?thesis using lastP hdt u by (simp add: trim_def last_rev)
qed

lemma keep_links_ok:
  assumes "keep_links root ls acc = Ret out" and "\<forall>r. root = Ret r \<longrightarrow> u = rq_Url r"
  shows "\<forall>l \<in> set out. l \<in> set acc \<or> (l \<noteq> [] \<and> l \<noteq> u \<and> (\<exists>x \<in> set ls. l = clean_link x))"
  using assms(1)
proof (induction ls arbitrary: acc)
  case Nil
  then show ?case by simp
next
  case (Cons x ls)
  show ?case
  proof (cases "clean_link x = []")
    case True
    then show ?thesis using Cons by (auto simp: Let_def)
  next
    case False
    then obtain r where root: "root = Ret r"
      and rest: "keep_links root ls (if clean_link x \<noteq> rq_Url r then acc @ [clean_link x] else acc)
        = Ret out"
      using Cons.prems by (auto simp: Let_def)
    from Cons.IH [OF rest] show ?thesis using assms(2) root False by (auto split: if_splits)
  qed
qed

text \<open>The outlinks do not move the root request, as browser events never do.\<close>

definition root_stable :: "'w page_env \<Rightarrow> request \<Rightarrow> bool" where
  "root_stable env root \<longleftrightarrow>
     (\<forall>s p x w r x1 w1. root_request x = Ret root \<longrightarrow> pg_Evaluate env s p (x, w) = (r, x1, w1)
        \<longrightarrow> root_request x1 = Ret root)"

lemma extract_loop_ok:
  assumes "root_stable env root" and "root_request (fst sw) = Ret root"
    and "extract_loop env ss acc sw = (res, sw1)"
    and "\<forall>l \<in> set acc. l \<noteq> [] \<and> l \<noteq> rq_Url root \<and> (\<exists>x. l = clean_link x)"
  shows "\<exists>out. res = Ret out
    \<and> (\<forall>l \<in> set out. l \<noteq> [] \<and> l \<noteq> rq_Url root \<and> (\<exists>x. l = clean_link x))"
  using assms(2-4)
proof (induction ss arbitrary: acc sw)
  case Nil
  then show ?case by auto
next
  case (Cons s ss)
  let ?ok = "\<lambda>out. \<forall>l \<in> set out. l \<noteq> [] \<and> l \<noteq> rq_Url root \<and> (\<exists>x. l = clean_link x)"
  obtain ev x2 w2 where ev: "pg_Evaluate env (GetScript (GetBrowserScript s))
      (HasPrefix (GetScript (GetBrowserScript s)) ''(async '') sw = (ev, x2, w2)"
    by (metis prod_cases3)
  have root: "root_request (fst (x2, w2)) = Ret root"
    using assms(1) Cons.prems(1) ev unfolding root_stable_def by (metis fst_conv prod.collapse)
  have skip: ?case if "extract_loop env ss acc (x2, w2) = (res, sw1)"
    using Cons.IH [OF root that Cons.prems(3)] .
  show ?case
  proof (cases "\<exists>v links. ev = Inr (None, Some v) \<and> unmarshal_strings v = Some links")
    case False
    then have "extract_loop env ss acc (x2, w2) = (res, sw1)"
      using Cons.prems(2) ev by (auto simp: Let_def split: sum.splits prod.splits option.splits)
    then show ?thesis by (rule skip)
  next
    case True
    then obtain v links where v: "ev = Inr (None, Some v)" "unmarshal_strings v = Some links" by auto
    obtain acc1 where acc1: "keep_links (Ret root) links acc = Ret acc1"
    proof -
      have "\<exists>acc1. keep_links (Ret root) links acc = Ret acc1"
        by (induction links arbitrary: acc) (auto simp: Let_def)
      then show ?thesis using that by blast
    qed
    have "?ok acc1" using keep_links_ok [OF acc1] Cons.prems(3) by fastforce
    moreover have "extract_loop env ss acc1 (x2, w2) = (res, sw1)"
      using Cons.prems(2) ev v acc1 root by (simp add: Let_def)
    ultimately show ?thesis using Cons.IH [OF root] by blast
  qed
qed

text \<open>
  C40 (functional). Every outlink found is a cleaned-up string: not empty, without a quote or
  backslash at either end, and different from the url of the page itself; whatever the
  outlink scripts return, extraction never fails.
\<close>

theorem extractOutlinks_clean:
  assumes "root_stable env root" and "root_request s = Ret root"
    and "ses_scripts s = Some bs" and "extractOutlinks env (s, w) = (res, sw1)"
  shows "\<exists>out. res = Ret out \<and> (\<forall>l \<in> set out. l \<noteq> [] \<and> l \<noteq> rq_Url root
      \<and> \<not> is_quote (hd l) \<and> \<not> is_quote (last l))"
proof -
  have "extract_loop env (scr_scripts bs EXTRACT_OUTLINKS) [] (s, w) = (res, sw1)"
    using assms(3,4) by (simp add: extractOutlinks_def scripts_Get_def)
  from extract_loop_ok [OF assms(1) _ this] assms(2) obtain out where
    "res = Ret out" "\<forall>l \<in> set out. l \<noteq> [] \<and> l \<noteq> rq_Url root \<and> (\<exists>x. l = clean_link x)" by auto
  moreover have "\<not> is_quote (hd (clean_link x)) \<and> \<not> is_quote (last (clean_link x))"
    if "clean_link x \<noteq> []" for x
    using that unfolding clean_link_def by (rule trim_ends)
  ultimately show ?thesis by auto
qed

section \<open>Failures of the report\<close>

text \<open>
  When the last request of the initial redirect chain has no crawl log, a page
  on which outlinks were found is not reported: the crawl logs and the page log have been
  written, but building the uris dereferences nil.
\<close>

lemma report_page_root_without_log:
  assumes "ses_Requests s = Some r" and "outlinks \<noteq> []"
    and "\<And>x w. fst (snd (pg_WriteCrawlLogs env (col_crawlLogs (collect r)) (x, w))) = x"
    and "\<And>p x w. fst (snd (pg_WritePageLog env p (x, w))) = x"
    and "\<And>x w. fst (snd (pg_NewUuid env (x, w))) = x"
    and "initial_request s = Ret initial" and "rq_CrawlLog initial \<noteq> None"
    and "root_request s = Ret root" and "rq_CrawlLog root = None" and "ses_logWriter s \<noteq> None"
  shows "\<exists>w1. report_page (recording_logs env) q outlinks cookies closeErr fetchMs (s, w, [])
    = (Panic NilDereference, s, w1, stored_logs (rr_requests r))"
proof -
  obtain cl where cl: "rq_CrawlLog initial = Some cl" using assms(7) by auto
  obtain e w2 where wr: "pg_WriteCrawlLogs env (col_crawlLogs (collect r)) (s, w) = (e, s, w2)"
    using assms(3) [of s w] by (metis prod.collapse)
  then have logs: "write_crawl_logs (recording_logs env) (col_crawlLogs (collect r)) (s, w, [])
      = (Ret e, s, w2, col_crawlLogs (collect r))"
    using assms(10) by (auto simp: write_crawl_logs_def)
  obtain u wu where u: "pg_NewUuid env (s, w2) = (u, s, wu)"
    using assms(5) [of s w2] by (metis prod.collapse)
  let ?warc = "if cl_WarcId cl = [] then u else cl_WarcId cl"
  let ?log = "page_log_of ?warc q initial cl (col_resources (collect r)) outlinks"
  obtain e1 w3 where "pg_WritePageLog env ?log (s, if cl_WarcId cl = [] then wu else w2) = (e1, s, w3)"
    using assms(4) [of ?log s "if cl_WarcId cl = [] then wu else w2"] by (metis prod.collapse)
  then have "write_page_log (recording_logs env) q initial cl (collect r) outlinks
      (s, w2, col_crawlLogs (collect r)) = (Ret (), s, w3, col_crawlLogs (collect r))"
    using u assms(10) by (cases "cl_WarcId cl = []") (auto simp: write_page_log_def)
  moreover have "queued_uris q cookies (root_request s) outlinks = Panic NilDereference"
    using assms(2,8,9) by (simp add: queued_uris_def)
  ultimately have "report_page (recording_logs env) q outlinks cookies closeErr fetchMs (s, w, [])
      = (Panic NilDereference, s, w3, stored_logs (rr_requests r))"
    using assms(1,6) cl logs by (simp add: report_page_def collect_eq)
  then show ?thesis ..
qed

section \<open>Screenshots\<close>

text \<open>An environment whose screenshots go to the writer of \<^verbatim>\<open>screenshotwriter\<close>.\<close>

definition writes_to ::
  "'w page_env \<Rightarrow> ('w, write_request, 'r) client_stream \<Rightarrow> (string \<Rightarrow> string) \<Rightarrow> bool" where
  "writes_to env st sha1 \<longleftrightarrow>
     (\<forall>d md x w. pg_WriteScreenshot env d md (x, w)
        = (let (r, w1) = Screenshot_Write st sha1 d md w in (r, x, w1)))"

definition capture_stable :: "'w page_env \<Rightarrow> bool" where
  "capture_stable env \<longleftrightarrow>
     (\<forall>x w d x1 w1. pg_CaptureScreenshot env (x, w) = (d, x1, w1)
        \<longrightarrow> root_request x1 = root_request x \<and> ses_screenShotWriter x1 = ses_screenShotWriter x)"

lemma Screenshot_Write_with_log:
  "md_CrawlLog md \<noteq> None \<Longrightarrow> \<exists>e. fst (Screenshot_Write st sha1 d md w) = Ret e"
  by (auto simp: Screenshot_Write_def split: option.splits prod.splits sum.splits)

definition worth_a_screenshot :: "request \<Rightarrow> bool" where
  "worth_a_screenshot root \<longleftrightarrow> \<not> rq_FromCache root
     \<and> rq_ResourceType root \<in> {''Document'', ''Image''}
     \<and> (\<exists>cl. rq_CrawlLog root = Some cl \<and> cl_WarcId cl \<noteq> [])"

text \<open>
  C37 (safety). Saving a screenshot never panics in a session that has a screenshot writer: the
  writer, which dereferences the crawl log, is only reached for a page fetched from the web that is a document or an image and
  has a crawl log with a WARC id; for any other page nothing is captured or written.
\<close>

theorem saveScreenshot_safe:
  assumes "root_request s = Ret root" and "ses_screenShotWriter s \<noteq> None"
    and "capture_stable env" and "writes_to env st sha1"
    and "saveScreenshot env (s, w) = (res, s1, w1)"
  shows "res = Ret () \<and> (\<not> worth_a_screenshot root \<longrightarrow> s1 = s \<and> w1 = w)"
proof (cases "worth_a_screenshot root")
  case False
  then show ?thesis
    using assms(1,5)
    by (auto simp: saveScreenshot_def worth_a_screenshot_def split: option.splits if_splits)
next
  case True
  then obtain cl where cl: "rq_CrawlLog root = Some cl" "cl_WarcId cl \<noteq> []"
    by (auto simp: worth_a_screenshot_def)
  obtain d x2 w2 where cap: "pg_CaptureScreenshot env (s, w) = (d, x2, w2)" by (metis prod_cases3)
  show ?thesis
  proof (cases d)
    case (Inl err)
    then show ?thesis
      using True assms(1,5) cap cl
      by (auto simp: saveScreenshot_def worth_a_screenshot_def split: if_splits)
  next
    case (Inr img)
    let ?md = "\<lparr>md_CrawlConfig = ses_CrawlConfig x2, md_CrawlLog = Some cl,
        md_BrowserConfig = ses_browserConfig x2, md_BrowserVersion = ses_browserVersion x2\<rparr>"
    have "root_request x2 = root_request s \<and> ses_screenShotWriter x2 = ses_screenShotWriter s"
      using assms(3) cap unfolding capture_stable_def by blast
    then have "root_request x2 = Ret root" "ses_screenShotWriter x2 \<noteq> None" using assms(1,2) by simp_all
    moreover obtain e w3 where "Screenshot_Write st sha1 img ?md w2 = (Ret e, w3)"
      using Screenshot_Write_with_log [of ?md st sha1 img w2] by (metis metadata.select_convs(2)
          option.distinct(1) prod.collapse)
    ultimately show ?thesis
      using True assms cap cl Inr
      by (auto simp: saveScreenshot_def write_screenshot_def worth_a_screenshot_def writes_to_def split: if_splits)
  qed
qed

section \<open>An example\<close>

text \<open>
  A page whose environment only answers: scripts return two links, one of them the page
  itself, the browser has no cookies, and the writers accept everything.
\<close>

definition quiet_env :: "error option list page_env" where
  "quiet_env =
     \<lparr>pg_Evaluate = (\<lambda>s p sw. (Inr (None, Some (RawJson (JArr [JStr '' a '', JStr ''u'']))), sw)),
      pg_GetAllCookies = (\<lambda>sw. (Inr [], sw)),
      pg_CaptureScreenshot = (\<lambda>sw. (Inr ''png'', sw)),
      pg_WriteScreenshot = (\<lambda>d md (x, w).
         let (r, w1) = Screenshot_Write (scripted_stream (Inr ())) id d md w in (r, x, w1)),
      pg_CloseBrowser = (\<lambda>sw. (None, sw)),
      pg_WriteCrawlLogs = (\<lambda>cl sw. (None, sw)),
      pg_WritePageLog = (\<lambda>p sw. (None, sw)),
      pg_NewUuid = (\<lambda>sw. (''uuid'', sw))\<rparr>"

definition settled_page :: "request list \<Rightarrow> nat \<Rightarrow> session" where
  "settled_page reqs root = (newDefaultSession handle_options)\<lparr>
     ses_Requests := Some ((NewRequestRegistry NewWaitGroup)
        \<lparr>rr_requests := reqs, rr_rootRequest := Some root\<rparr>),
     ses_scripts := Some (newSessionScripts\<lparr>scr_scripts := (\<lambda>t. if t = EXTRACT_OUTLINKS
        then [\<lparr>co_Id = ''x'', co_Meta = None, co_Spec = NoSpec\<rparr>] else [])\<rparr>)\<rparr>"

definition page_request :: request where
  "page_request = (example_request ''u'' ''n'' [])\<lparr>rq_ResourceType := ''Document''\<rparr>"

lemma settled_page_handles [simp]:
  "ses_logWriter (settled_page reqs root) = Some 3" "ses_screenShotWriter (settled_page reqs root) = Some 2"
  by (simp_all add: settled_page_def)

lemma settled_page_requests [simp]:
  "ses_Requests (settled_page reqs root) = Some ((NewRequestRegistry NewWaitGroup)
     \<lparr>rr_requests := reqs, rr_rootRequest := Some root\<rparr>)"
  by (simp add: settled_page_def)

lemma settled_page_root [simp]: "root_request (settled_page reqs root) = Ret (reqs ! root)"
  by (simp add: root_request_def RootRequest_def)

lemma settled_page_initial [simp]:
  "reqs \<noteq> [] \<Longrightarrow> initial_request (settled_page reqs root) = Ret (reqs ! 0)"
  by (simp add: initial_request_def InitialRequest_def)

lemma page_request_simps [simp]:
  "rq_Url page_request = ''u''" "rq_FromCache page_request = False"
  "rq_ResourceType page_request = ''Document''"
  "\<exists>cl. rq_CrawlLog page_request = Some cl \<and> cl_WarcId cl = ''u'' \<and> cl_Size cl = 1"
  by (simp_all add: page_request_def example_request_def)

lemma stored_page [simp]: "length (stored_logs [page_request]) = 1"
    "map cl_Size (stored_logs [page_request]) = [1]"
  by (simp_all add: stored_logs_def page_request_def example_request_def)

theorem report_page_counts_witness:
  "\<exists>(res :: render_result). res_UriCount res = (1::int32) \<and> res_BytesDownloaded res = (1::int64)
    \<and> length (res_Outlinks res) = 1"
proof -
  let ?s = "settled_page [page_request] 0"
  obtain cl where cl: "rq_CrawlLog page_request = Some cl" "cl_WarcId cl = ''u''"
    using page_request_simps(4) by blast
  obtain res s1 w1 written where rep: "report_page (recording_logs quiet_env) example_uri [''a''] []
      None 7 (?s, [], []) = (Ret (Inr res), s1, w1, written)"
    using cl by (auto simp: report_page_def write_crawl_logs_def write_page_log_def queued_uris_def quiet_env_def Let_def)
  have req: "ses_Requests ?s = Some ((NewRequestRegistry NewWaitGroup)
      \<lparr>rr_requests := [page_request], rr_rootRequest := Some 0\<rparr>)" by simp
  from report_page_counts [OF req rep] have "written = stored_logs [page_request]"
    "res_UriCount res = of_nat (length written)"
    "res_BytesDownloaded res = sum_list (map cl_Size written)" "length (res_Outlinks res) = 1"
    by simp_all
  then have "res_UriCount res = 1 \<and> res_BytesDownloaded res = 1 \<and> length (res_Outlinks res) = 1"
    by simp
  then show ?thesis by blast
qed

lemma quiet_env_stable: "root_stable quiet_env root" "capture_stable quiet_env"
    "writes_to quiet_env (scripted_stream (Inr ())) id"
  by (auto simp: root_stable_def capture_stable_def writes_to_def quiet_env_def)

theorem extractOutlinks_clean_witness:
  "\<exists>out. fst (extractOutlinks quiet_env (settled_page [page_request] 0, [])) = Ret out
    \<and> (\<forall>l \<in> set out. l \<noteq> [] \<and> l \<noteq> ''u'' \<and> \<not> is_quote (hd l) \<and> \<not> is_quote (last l))"
proof -
  let ?s = "settled_page [page_request] 0"
  obtain res sw1 where out: "extractOutlinks quiet_env (?s, []) = (res, sw1)"
    by (rule prod.exhaust)
  have root: "root_request ?s = Ret page_request" by simp
  obtain bs where "ses_scripts ?s = Some bs" by (auto simp: settled_page_def)
  from extractOutlinks_clean [OF quiet_env_stable(1) root this out] show ?thesis
    using out by simp
qed

text \<open>The link of the page itself is dropped, the other one is trimmed.\<close>

lemma quiet_outlinks:
  "fst (extractOutlinks quiet_env (settled_page [page_request] 0, [])) = Ret [''a'']"
  by (simp add: extractOutlinks_def scripts_Get_def settled_page_def newSessionScripts_def
      quiet_env_def clean_link_def trim_def is_space_def is_quote_def Let_def root_request_def
      RootRequest_def page_request_def example_request_def)

lemma report_page_root_without_log_instance:
  "\<exists>w1. report_page (recording_logs quiet_env) example_uri [''a''] [] None 7
      (settled_page [page_request, page_request\<lparr>rq_CrawlLog := None\<rparr>] 1, [], [])
    = (Panic NilDereference, settled_page [page_request, page_request\<lparr>rq_CrawlLog := None\<rparr>] 1, w1,
       stored_logs [page_request, page_request\<lparr>rq_CrawlLog := None\<rparr>])"
proof -
  let ?reqs = "[page_request, page_request\<lparr>rq_CrawlLog := None\<rparr>]"
  have req: "ses_Requests (settled_page ?reqs 1) = Some ((NewRequestRegistry NewWaitGroup)
      \<lparr>rr_requests := ?reqs, rr_rootRequest := Some 1\<rparr>)" by simp
  have log: "rq_CrawlLog page_request \<noteq> None" by (simp add: page_request_def example_request_def)
  from report_page_root_without_log [OF req, of "[''a'']" quiet_env page_request
      "page_request\<lparr>rq_CrawlLog := None\<rparr>" example_uri "[]" None 7 "[]"] log
  show ?thesis by (simp add: quiet_env_def)
qed

theorem saveScreenshot_safe_witness:
  "fst (saveScreenshot quiet_env (settled_page [page_request] 0, [])) = Ret ()"
proof -
  have root: "root_request (settled_page [page_request] 0) = Ret page_request" by simp
  obtain res s1 w1 where shot: "saveScreenshot quiet_env (settled_page [page_request] 0, [])
      = (res, s1, w1)" by (metis prod_cases3)
  from saveScreenshot_safe [OF root _ quiet_env_stable(2,3) shot] show ?thesis using shot by simp
qed

end
