(* ===== verification/Fetch.thy ===== *)
theory Fetch
  imports Page
begin

text \<open>
  \<open>Fetch\<close> of \<^verbatim>\<open>session/session.go\<close> as a whole: load the configuration, start a browser, open
  the page, run the scripts, wait for the page to settle, and report it.
\<close>

section \<open>Computations that fail, panic, or do not return\<close>

datatype 'a fetched = Done 'a | Fail error | Crash panic

type_synonym ('a, 's) fetcher = "'s \<Rightarrow> ('a fetched \<times> 's) option"

definition fbind :: "('a, 's) fetcher \<Rightarrow> ('a \<Rightarrow> ('b, 's) fetcher) \<Rightarrow> ('b, 's) fetcher" where
  "fbind m k s =
     (case m s of
        None \<Rightarrow> None
      | Some (Done a, s1) \<Rightarrow> k a s1
      | Some (Fail e, s1) \<Rightarrow> Some (Fail e, s1)
      | Some (Crash p, s1) \<Rightarrow> Some (Crash p, s1))"

lemma fbind_simps [simp]:
  "m s = Some (Done a, s1) \<Longrightarrow> fbind m k s = k a s1"
  "m s = Some (Fail e, s1) \<Longrightarrow> fbind m k s = Some (Fail e, s1)"
  "m s = Some (Crash p, s1) \<Longrightarrow> fbind m k s = Some (Crash p, s1)"
  "m s = None \<Longrightarrow> fbind m k s = None"
  by (simp_all add: fbind_def)

definition lift_go :: "('s \<Rightarrow> 'a go \<times> 's) \<Rightarrow> ('a, 's) fetcher" where
  "lift_go m s = (case m s of (Ret a, s1) \<Rightarrow> Some (Done a, s1) | (Panic p, s1) \<Rightarrow> Some (Crash p, s1))"

definition act :: "('s \<Rightarrow> 'a \<times> 's) \<Rightarrow> ('a, 's) fetcher" where
  "act m s = (let (a, s1) = m s in Some (Done a, s1))"

definition set_sess :: "(session \<Rightarrow> session) \<Rightarrow> (unit, session \<times> 'w) fetcher" where
  "set_sess f sw = Some (Done (), (f (fst sw), snd sw))"

section \<open>The environment\<close>

record device_info =
  dev_UserAgent :: string
  dev_Width :: int64
  dev_Height :: int64

text \<open>
  The configuration cache, the browser, and what happens while \<open>Fetch\<close> waits. A wait
  changes the session as the events and the proxy's messages that arrive meanwhile do.
\<close>

record 'w fetch_env =
  fe_page :: "'w page_env"
  fe_browser :: "(session \<times> 'w) browser"
  fe_GetConfigObject :: "config_ref \<Rightarrow> session \<times> 'w \<Rightarrow> (error + config_object) \<times> session \<times> 'w"
  fe_GetScripts :: "browser_config \<Rightarrow> session \<times> 'w \<Rightarrow> (error + config_object list) go \<times> session \<times> 'w"
  fe_GetVersion :: "session \<times> 'w \<Rightarrow> (error + string \<times> string) \<times> session \<times> 'w"
  fe_InitBrowser :: "device_info \<Rightarrow> cookie_param list \<Rightarrow> session \<times> 'w \<Rightarrow> error option \<times> session \<times> 'w"
  fe_Navigate :: "string \<Rightarrow> session \<times> 'w \<Rightarrow> error option \<times> session \<times> 'w"
  fe_WaitNetwork :: "session \<times> 'w \<Rightarrow> session \<times> 'w"
  fe_WaitFrames :: "session \<times> 'w \<Rightarrow> syncx_error option \<times> session \<times> 'w"
  fe_WaitRequests :: "session \<times> 'w \<Rightarrow> syncx_error option \<times> session \<times> 'w"
  fe_NewRequest :: "string \<Rightarrow> error option"
  fe_CleanWorkspace :: "string \<Rightarrow> session \<times> 'w \<Rightarrow> session \<times> 'w"
  fe_FetchMs :: "session \<times> 'w \<Rightarrow> int64"
  fe_ErrorText :: "error \<Rightarrow> string"

section \<open>Configuration\<close>

definition GetCrawlConfig :: "config_object option \<Rightarrow> crawl_config option" where
  "GetCrawlConfig c =
     (case c of None \<Rightarrow> None
      | Some co \<Rightarrow> (case co_Spec co of CrawlConfigSpec cc \<Rightarrow> Some cc | _ \<Rightarrow> None))"

definition GetBrowserConfig :: "config_object \<Rightarrow> browser_config option" where
  "GetBrowserConfig c = (case co_Spec c of BrowserConfigSpec b \<Rightarrow> Some b | _ \<Rightarrow> None)"

text \<open>
  \<open>configCache.GetConfigObject(ctx, ref)\<close> is called through the handle of the session and
  reads the id of the reference, which both panic when they are nil; its error is formatted
  into a new one.
\<close>

definition get_config ::
  "'w fetch_env \<Rightarrow> string \<Rightarrow> config_ref option \<Rightarrow> (config_object, session \<times> 'w) fetcher" where
  "get_config env what ref sw =
     (case (ses_configCache (fst sw), ref) of
        (None, _) \<Rightarrow> Some (Crash NilDereference, sw)
      | (Some h, None) \<Rightarrow> Some (Crash NilDereference, sw)
      | (Some h, Some r) \<Rightarrow>
          (case fe_GetConfigObject env r sw of
             (Inl err, sw1) \<Rightarrow> Some (Fail (PlainError (what @ fe_ErrorText env err)), sw1)
           | (Inr c, sw1) \<Rightarrow> Some (Done c, sw1)))"

definition get_crawl_config :: "(crawl_config, session \<times> 'w) fetcher" where
  "get_crawl_config sw =
     (case ses_CrawlConfig (fst sw) of
        None \<Rightarrow> Some (Crash NilDereference, sw) | Some cc \<Rightarrow> Some (Done cc, sw))"

definition get_browser_config :: "(browser_config, session \<times> 'w) fetcher" where
  "get_browser_config sw =
     (case ses_browserConfig (fst sw) of
        None \<Rightarrow> Some (Crash NilDereference, sw) | Some b \<Rightarrow> Some (Done b, sw))"

text \<open>The politeness config is assigned also when the lookup fails, and is then nil.\<close>

definition get_politeness ::
  "'w fetch_env \<Rightarrow> config_ref option \<Rightarrow> (unit, session \<times> 'w) fetcher" where
  "get_politeness env ref sw =
     (case get_config env ''failed to get politeness config: '' ref sw of
        None \<Rightarrow> None
      | Some (Done c, sw1) \<Rightarrow> set_sess (\<lambda>s. s\<lparr>ses_PolitenessConfig := Some c\<rparr>) sw1
      | Some (Fail e, s1, w1) \<Rightarrow> Some (Fail e, s1\<lparr>ses_PolitenessConfig := None\<rparr>, w1)
      | Some (Crash p, sw1) \<Rightarrow> Some (Crash p, sw1))"

definition get_scripts ::
  "'w fetch_env \<Rightarrow> browser_config \<Rightarrow> session \<times> 'w \<Rightarrow>
     (error + config_object list) go \<times> session \<times> 'w" where
  "get_scripts env b sw =
     (case ses_configCache (fst sw) of
        None \<Rightarrow> (Panic NilDereference, sw) | Some h \<Rightarrow> fe_GetScripts env b sw)"

definition load_scripts ::
  "'re regexp_lib \<Rightarrow> 'u url_lib \<Rightarrow> 'w fetch_env \<Rightarrow> browser_config \<Rightarrow> (unit, session \<times> 'w) fetcher" where
  "load_scripts rx lib env b sw =
     (case loadScripts (get_scripts env b) rx lib (ses_RequestedUrl (fst sw)) sw of
        (Panic p, sw1) \<Rightarrow> Some (Crash p, sw1)
      | (Ret (Inl err), sw1) \<Rightarrow> Some (Fail (Wrapped ''failed to load scripts: '' (Some err)), sw1)
      | (Ret (Inr ss), sw1) \<Rightarrow> set_sess (\<lambda>s. s\<lparr>ses_scripts := Some ss\<rparr>) sw1)"

definition fetch_config ::
  "'re regexp_lib \<Rightarrow> 'u url_lib \<Rightarrow> 'w fetch_env \<Rightarrow> page_harvest_spec \<Rightarrow>
     (browser_config, session \<times> 'w) fetcher" where
  "fetch_config rx lib env phs =
     fbind (set_sess (\<lambda>s. s\<lparr>ses_RequestedUrl := phs_QueuedUri phs,
                           ses_CrawlConfig := GetCrawlConfig (phs_CrawlConfig phs)\<rparr>)) (\<lambda>_.
     fbind get_crawl_config (\<lambda>cc.
     fbind (get_config env ''failed to get browser config: '' (cc_BrowserConfigRef cc)) (\<lambda>bConf.
     fbind (set_sess (\<lambda>s. s\<lparr>ses_browserConfig := GetBrowserConfig bConf\<rparr>)) (\<lambda>_.
     fbind get_crawl_config (\<lambda>cc1.
     fbind (get_politeness env (cc_PolitenessRef cc1)) (\<lambda>_.
     fbind get_browser_config (\<lambda>b.
     fbind (load_scripts rx lib env b) (\<lambda>_.
     (\<lambda>sw. Some (Done b, sw))))))))))"

section \<open>Opening the page\<close>

text \<open>\<open>strings.ReplaceAll(s, old, new)\<close> for a non-empty \<open>old\<close>.\<close>

function ReplaceAll :: "string \<Rightarrow> string \<Rightarrow> string \<Rightarrow> string" where
  "ReplaceAll old new [] = []"
| "ReplaceAll old new (c # cs) =
     (if HasPrefix (c # cs) old then new @ ReplaceAll old new (drop (length old - 1) cs)
      else c # ReplaceAll old new cs)"
  by pat_completeness auto
termination by (relation "measure (\<lambda>(old, new, s). length s)") auto

definition max_total :: "browser_config \<Rightarrow> int" where
  "max_total b = sint (bc_PageLoadTimeoutMs b * 1000000)"

definition max_idle :: "browser_config \<Rightarrow> int" where
  "max_idle b = sint (bc_MaxInactivityTimeMs b * 1000000)"

text \<open>
  The first tab, the contexts, the registry and its wait group, the timers, and the user
  agent: that of the configuration, or the browser's own without the mark of a headless one.
\<close>

definition start_browser ::
  "'w fetch_env \<Rightarrow> browser_config \<Rightarrow> (unit, session \<times> 'w) fetcher" where
  "start_browser env b =
     fbind (set_sess (\<lambda>s. s\<lparr>ses_ctx := Some False\<rparr>)) (\<lambda>_.
     fbind (act (fe_GetVersion env)) (\<lambda>v.
     (case v of
        Inl err \<Rightarrow> (\<lambda>sw. Some (Fail (Wrapped ''failed to start browser: '' (Some err)), sw))
      | Inr (version, userAgent) \<Rightarrow>
          set_sess (\<lambda>s. s\<lparr>ses_browserVersion := version, ses_loadCtx := Some False,
             ses_Requests := Some (NewRequestRegistry NewWaitGroup),
             ses_netActivityTimer := Some (NewCompletionTimer 1000000000 (max_total b)),
             ses_timer := Some (NewCompletionTimer (max_idle b) (max_total b)),
             ses_UserAgent := (if bc_UserAgent b = [] then ReplaceAll ''HeadlessChrome'' ''Chrome'' userAgent
                               else bc_UserAgent b)\<rparr>))))"

definition init_browser ::
  "'w fetch_env \<Rightarrow> browser_config \<Rightarrow> (unit, session \<times> 'w) fetcher" where
  "init_browser env b sw =
     (let device = \<lparr>dev_UserAgent = ses_UserAgent (fst sw), dev_Width = scast (bc_WindowWidth b),
                    dev_Height = scast (bc_WindowHeight b)\<rparr>
      in case fe_InitBrowser env device (getCookieParams (ses_RequestedUrl (fst sw))) sw of
           (Some err, sw1) \<Rightarrow> Some (Fail (Wrapped ''failed initializing browser: '' (Some err)), sw1)
         | (None, sw1) \<Rightarrow> Some (Done (), sw1))"

definition already_seen :: "string \<Rightarrow> error" where
  "already_seen uri = FetchError_New (- 4100) ''Already seen''
     (''Initial request was found in cache. Url: '' @ uri)"

definition runtime_exceeded :: "string \<Rightarrow> error" where
  "runtime_exceeded uri = FetchError_New (- 5004) ''Runtime exceeded''
     (''Pageload timed out. Url: '' @ uri)"

text \<open>What a navigation error means; the initial request is looked at for a cancelled one.\<close>

definition navigation_result :: "string \<Rightarrow> error option \<Rightarrow> session \<Rightarrow> unit fetched" where
  "navigation_result uri err s =
     (case err of
        None \<Rightarrow> Done ()
      | Some e \<Rightarrow>
          if e = ContextCanceled then
            (case initial_request s of
               Panic p \<Rightarrow> Crash p
             | Ret q \<Rightarrow> if rq_FromCache q then Fail (already_seen uri)
                        else Fail (Wrapped ''failed navigation: '' (Some e)))
          else if e = ContextDeadlineExceeded then Fail (runtime_exceeded uri)
          else Fail (Wrapped ''failed navigation: '' (Some e)))"

definition navigate :: "'w fetch_env \<Rightarrow> (unit, session \<times> 'w) fetcher" where
  "navigate env sw =
     (case ses_RequestedUrl (fst sw) of
        None \<Rightarrow> Some (Crash NilDereference, sw)
      | Some u \<Rightarrow>
          (let (err, sw1) = fe_Navigate env (qu_Uri u) sw
           in Some (navigation_result (qu_Uri u) err (fst sw1), sw1)))"

section \<open>Scripts and waiting\<close>

definition annotations :: "session \<Rightarrow> annotation list" where
  "annotations s = (case ses_RequestedUrl s of None \<Rightarrow> [] | Some u \<Rightarrow> qu_Annotation u)"

definition run_scripts :: "'w fetch_env \<Rightarrow> script_type \<Rightarrow> (error option, session \<times> 'w) fetcher" where
  "run_scripts env t sw =
     (case executeScripts (fe_browser env) (fe_WaitNetwork env) (ses_scripts (fst sw))
             (annotations (fst sw)) t sw of
        None \<Rightarrow> None
      | Some (Ret e, sw1) \<Rightarrow> Some (Done e, sw1)
      | Some (Panic p, sw1) \<Rightarrow> Some (Crash p, sw1))"

text \<open>A failing script ends the fetch in the first phase and is only logged in the second.\<close>

definition script_phases :: "'w fetch_env \<Rightarrow> (unit, session \<times> 'w) fetcher" where
  "script_phases env =
     fbind (run_scripts env ON_NEW_DOCUMENT) (\<lambda>e.
     (case e of
        Some err \<Rightarrow> (\<lambda>sw. Some (Fail (Wrapped ''failed executing scripts in ON_NEW_DOCUMENT phase: ''
                                 (Some err)), sw))
      | None \<Rightarrow>
          fbind (run_scripts env ON_LOAD) (\<lambda>e1. (\<lambda>sw. Some (Done (), sw)))))"

definition frames_result :: "string \<Rightarrow> syncx_error option \<Rightarrow> session \<Rightarrow> unit fetched" where
  "frames_result uri err s =
     (case err of
        Some Cancelled \<Rightarrow>
          (case initial_request s of
             Panic p \<Rightarrow> Crash p
           | Ret q \<Rightarrow> if rq_FromCache q then Fail (already_seen uri) else Done ())
      | Some ExceededMaxTime \<Rightarrow>
          (case initial_request s of
             Panic p \<Rightarrow> Crash p
           | Ret q \<Rightarrow> if rq_CrawlLog q = None then Fail (runtime_exceeded uri) else Done ())
      | _ \<Rightarrow> Done ())"

definition wait_frames :: "'w fetch_env \<Rightarrow> string \<Rightarrow> (unit, session \<times> 'w) fetcher" where
  "wait_frames env uri sw =
     (let (err, sw1) = fe_WaitFrames env sw in Some (frames_result uri err (fst sw1), sw1))"

text \<open>The responses are finalized whether or not the wait for them timed out.\<close>

definition finalize :: "queued_uri \<Rightarrow> (unit, session \<times> 'w) fetcher" where
  "finalize u sw =
     (case ses_Requests (fst sw) of
        None \<Rightarrow> Some (Crash NilDereference, sw)
      | Some r \<Rightarrow>
          (let (res, r1) = FinalizeResponses u r; s1 = (fst sw)\<lparr>ses_Requests := Some r1\<rparr>
           in case res of Ret _ \<Rightarrow> Some (Done (), s1, snd sw) | Panic p \<Rightarrow> Some (Crash p, s1, snd sw)))"

text \<open>
  \<open>sess.CrawlConfig.GetExtra().CreateScreenshot\<close>: the getter is nil-safe, the field access
  after it is not.
\<close>

definition wants_screenshot :: "session \<Rightarrow> bool go" where
  "wants_screenshot s =
     (case ses_CrawlConfig s of
        None \<Rightarrow> Panic NilDereference
      | Some cc \<Rightarrow> (case cc_Extra cc of None \<Rightarrow> Panic NilDereference
                   | Some x \<Rightarrow> Ret (ex_CreateScreenshot x)))"

definition screenshot_phase :: "'w fetch_env \<Rightarrow> (unit, session \<times> 'w) fetcher" where
  "screenshot_phase env sw =
     (case wants_screenshot (fst sw) of
        Panic p \<Rightarrow> Some (Crash p, sw)
      | Ret wanted \<Rightarrow> if wanted then lift_go (saveScreenshot (fe_page env)) sw else Some (Done (), sw))"

definition report_phase ::
  "'w fetch_env \<Rightarrow> queued_uri \<Rightarrow> int64 \<Rightarrow> (render_result, session \<times> 'w) fetcher" where
  "report_phase env u fetchMs =
     fbind (lift_go (extractOutlinks (fe_page env))) (\<lambda>outlinks.
     fbind (act (extractCookies (fe_page env))) (\<lambda>cookies.
     fbind (act (pg_CloseBrowser (fe_page env))) (\<lambda>closeErr.
     fbind (lift_go (report_page (fe_page env) u outlinks cookies closeErr fetchMs)) (\<lambda>r.
     (\<lambda>sw. case r of Inl e \<Rightarrow> Some (Fail e, sw) | Inr res \<Rightarrow> Some (Done res, sw))))))"

section \<open>Fetch\<close>

text \<open>The part of the fetch in which the browser runs.\<close>

definition with_browser ::
  "'w fetch_env \<Rightarrow> browser_config \<Rightarrow> (render_result, session \<times> 'w) fetcher" where
  "with_browser env b =
     fbind (start_browser env b) (\<lambda>_.
     fbind (init_browser env b) (\<lambda>_.
     fbind (navigate env) (\<lambda>_.
     fbind (act (\<lambda>sw. ((), fe_WaitNetwork env sw))) (\<lambda>_.
     fbind (script_phases env) (\<lambda>_.
     (\<lambda>sw. case ses_RequestedUrl (fst sw) of
        None \<Rightarrow> Some (Crash NilDereference, sw)
      | Some u \<Rightarrow>
          fbind (wait_frames env (qu_Uri u)) (\<lambda>_.
          fbind (act (fe_WaitRequests env)) (\<lambda>_.
          fbind (\<lambda>sw1. Some (Done (fe_FetchMs env sw1), sw1)) (\<lambda>fetchMs.
          fbind (finalize u) (\<lambda>_.
          fbind (screenshot_phase env) (\<lambda>_.
          report_phase env u fetchMs))))) sw))))))"

text \<open>
  The deferred calls, run however the browser part ends: the loading context and the
  browser's context are cancelled and the workspace of the session is cleaned.
\<close>

definition workspace_url :: "session \<Rightarrow> string" where
  "workspace_url s = ses_workspaceEndpoint s @ ''/'' @ Itoa (int (ses_Id s))"

definition end_contexts :: "session \<Rightarrow> session" where
  "end_contexts s = s\<lparr>ses_loadCtx := map_option (\<lambda>_. True) (ses_loadCtx s),
     ses_ctx := map_option (\<lambda>_. True) (ses_ctx s)\<rparr>"

text \<open>
  \<open>cleanWorkspace\<close>: the request to delete the workspace is made and sent. An error of either is
  only logged, so a request that could not be made is sent all the same, which dereferences nil.
\<close>

definition cleanWorkspace :: "'w fetch_env \<Rightarrow> session \<times> 'w \<Rightarrow> unit go \<times> session \<times> 'w" where
  "cleanWorkspace env sw =
     (let url = workspace_url (fst sw)
      in case fe_NewRequest env url of
           Some err \<Rightarrow> (Panic NilDereference, sw)
         | None \<Rightarrow> (Ret (), fe_CleanWorkspace env url sw))"

definition cleanup :: "'w fetch_env \<Rightarrow> session \<times> 'w \<Rightarrow> unit go \<times> session \<times> 'w" where
  "cleanup env sw = cleanWorkspace env (end_contexts (fst sw), snd sw)"

text \<open>The outcome of the body, and whether its deferred calls have panicked.\<close>

definition fetch_body ::
  "'re regexp_lib \<Rightarrow> 'u url_lib \<Rightarrow> 'w fetch_env \<Rightarrow> page_harvest_spec \<Rightarrow> session \<times> 'w \<Rightarrow>
     ((render_result fetched \<times> unit go) \<times> session \<times> 'w) option" where
  "fetch_body rx lib env phs sw =
     (case fetch_config rx lib env phs sw of
        None \<Rightarrow> None
      | Some (Done b, sw1) \<Rightarrow>
          (case with_browser env b sw1 of
             None \<Rightarrow> None
           | Some (out, sw2) \<Rightarrow> (let (p, sw3) = cleanup env sw2 in Some ((out, p), sw3)))
      | Some (Fail e, sw1) \<Rightarrow> Some ((Fail e, Ret ()), sw1)
      | Some (Crash p, sw1) \<Rightarrow> Some ((Crash p, Ret ()), sw1))"

text \<open>
  The results of \<open>Fetch\<close> are named, and its first deferred call sets only the error: a result
  that has been returned stays when a later deferred call panics.
\<close>

definition returned :: "render_result fetched \<Rightarrow> render_result option \<times> error option" where
  "returned out = (case out of Done r \<Rightarrow> (Some r, None) | Fail e \<Rightarrow> (None, Some e) | Crash p \<Rightarrow> (None, None))"

definition fetch_recover ::
  "(panic \<Rightarrow> string) \<Rightarrow> render_result fetched \<times> unit go \<Rightarrow> render_result option \<times> error option" where
  "fetch_recover panic_text outcome =
     (let (out, deferred) = outcome;
          (result, err) = returned out;
          runtime_error = (\<lambda>p. (result, Some (FetchError_New (- 5) ''Runtime error'' (panic_text p))))
      in case deferred of
           Panic p \<Rightarrow> runtime_error p
         | Ret _ \<Rightarrow> (case out of Crash p \<Rightarrow> runtime_error p | _ \<Rightarrow> (result, err)))"

definition Fetch ::
  "'re regexp_lib \<Rightarrow> 'u url_lib \<Rightarrow> (panic \<Rightarrow> string) \<Rightarrow> 'w fetch_env \<Rightarrow> page_harvest_spec \<Rightarrow>
     session \<times> 'w \<Rightarrow> ((render_result option \<times> error option) \<times> session \<times> 'w) option" where
  "Fetch rx lib panic_text env phs sw =
     (case fetch_body rx lib env phs sw of
        None \<Rightarrow> None
      | Some (out, sw1) \<Rightarrow> Some (fetch_recover panic_text out, sw1))"

lemma fetch_recover_simps [simp]:
  "fetch_recover panic_text (Done r, Ret u) = (Some r, None)"
  "fetch_recover panic_text (Fail e, Ret u) = (None, Some e)"
  "fetch_recover panic_text (Crash p, Ret u)
     = (None, Some (FetchError_New (- 5) ''Runtime error'' (panic_text p)))"
  "fetch_recover panic_text (out, Panic p)
     = (fst (returned out), Some (FetchError_New (- 5) ''Runtime error'' (panic_text p)))"
  by (simp_all add: fetch_recover_def returned_def split: prod.splits)

lemma fetch_recover_error:
  "fetch_recover panic_text (out, d) = (res, err) \<Longrightarrow> err = None \<Longrightarrow> d = Ret () \<and> (\<exists>r. out = Done r \<and> res = Some r)"
  by (cases d; cases out) auto

section \<open>How a fetch can fail\<close>

text \<open>
  An outcome is accounted for if its error is none of the numbered ones, or the page was
  seen before, or its time is up. Each phase only has such outcomes, and so has a sequence
  of phases.
\<close>

definition accounted :: "'a fetched \<Rightarrow> session \<times> 'w \<Rightarrow> bool" where
  "accounted out sw \<longleftrightarrow>
     (\<forall>ce. out = Fail (FetchErr ce) \<longrightarrow>
        (err_Code ce = - 4100 \<and> (\<exists>q. initial_request (fst sw) = Ret q \<and> rq_FromCache q))
        \<or> err_Code ce = - 5004)"

definition all_accounted :: "('a, session \<times> 'w) fetcher \<Rightarrow> bool" where
  "all_accounted m \<longleftrightarrow> (\<forall>sw out sw1. m sw = Some (out, sw1) \<longrightarrow> accounted out sw1)"

lemma accounted_simps [simp]:
  "accounted (Done a) sw" "accounted (Crash p) sw"
  "accounted (Fail (Wrapped x e)) sw" "accounted (Fail (PlainError x)) sw"
  "accounted (Fail (runtime_exceeded u)) sw"
  "accounted (Fail (already_seen u)) sw
     \<longleftrightarrow> (\<exists>q. initial_request (fst sw) = Ret q \<and> rq_FromCache q)"
  by (auto simp: accounted_def runtime_exceeded_def already_seen_def FetchError_New_def)

lemma accounted_fbind [intro]:
  assumes "all_accounted m" and "\<And>a. all_accounted (k a)"
  shows "all_accounted (fbind m k)"
  unfolding all_accounted_def
proof (intro allI impI)
  fix sw out sw1
  assume run: "fbind m k sw = Some (out, sw1)"
  show "accounted out sw1"
  proof (cases "m sw")
    case None
    with run show ?thesis by (simp add: fbind_def)
  next
    case (Some r)
    obtain x sw2 where r: "r = (x, sw2)" by (cases r)
    then have x: "accounted x sw2" using assms(1) Some unfolding all_accounted_def by blast
    show ?thesis
    proof (cases x)
      case (Done a)
      then have "k a sw2 = Some (out, sw1)" using run Some r by (simp add: fbind_def)
      then show ?thesis using assms(2) [of a] unfolding all_accounted_def by blast
    qed (use x run Some r in \<open>auto simp: fbind_def accounted_def\<close>)
  qed
qed

lemma accounted_lift [simp, intro]:
  "all_accounted (lift_go m)" "all_accounted (act a)" "all_accounted (set_sess f)"
  "all_accounted (\<lambda>sw. Some (Done x, sw))" "all_accounted (\<lambda>sw. Some (Fail (Wrapped y e), sw))"
  "all_accounted (\<lambda>sw. Some (Done (g sw), sw))"
  by (auto simp: all_accounted_def lift_go_def act_def set_sess_def split: prod.splits go.splits)

lemma accounted_config [intro]:
  "all_accounted (get_config env what ref)" "all_accounted get_crawl_config"
  "all_accounted get_browser_config" "all_accounted (load_scripts rx lib env b)"
  by (auto simp: all_accounted_def get_config_def get_crawl_config_def get_browser_config_def
      load_scripts_def set_sess_def split: option.splits prod.splits sum.splits go.splits)

lemma get_config_error: "get_config env x ref sw = Some (Fail e, sw1) \<Longrightarrow> \<exists>y. e = PlainError y"
  by (auto simp: get_config_def split: option.splits prod.splits sum.splits)

lemma accounted_politeness [intro]: "all_accounted (get_politeness env ref)"
  by (auto simp: all_accounted_def get_politeness_def set_sess_def
      split: option.splits prod.splits fetched.splits dest: get_config_error)

lemma accounted_fetch_config [intro]: "all_accounted (fetch_config rx lib env phs)"
  unfolding fetch_config_def by (intro accounted_fbind accounted_config accounted_politeness accounted_lift)

lemma accounted_start [intro]: "all_accounted (start_browser env b)"
  unfolding start_browser_def
  by (intro accounted_fbind accounted_lift) (auto split: sum.splits prod.splits)

lemma accounted_init [intro]: "all_accounted (init_browser env b)"
  by (auto simp: all_accounted_def init_browser_def Let_def split: option.splits prod.splits)

lemma accounted_navigate [intro]: "all_accounted (navigate env)"
  by (auto simp: all_accounted_def navigate_def navigation_result_def Let_def
      split: option.splits prod.splits go.splits if_splits)

lemma accounted_frames [intro]: "all_accounted (wait_frames env u)"
  by (auto simp: all_accounted_def wait_frames_def frames_result_def Let_def
      split: option.splits prod.splits go.splits if_splits syncx_error.splits)

lemma accounted_run_scripts [intro]: "all_accounted (run_scripts env t)"
  by (auto simp: all_accounted_def run_scripts_def split: option.splits prod.splits go.splits)

lemma accounted_script_phases [intro]: "all_accounted (script_phases env)"
  unfolding script_phases_def
  by (intro accounted_fbind accounted_run_scripts) (auto split: option.splits)

lemma accounted_finalize [intro]: "all_accounted (finalize u)"
  by (auto simp: all_accounted_def finalize_def Let_def split: option.splits prod.splits go.splits)

lemma accounted_screenshot [intro]: "all_accounted (screenshot_phase env)"
  by (auto simp: all_accounted_def screenshot_phase_def lift_go_def
      split: option.splits prod.splits go.splits if_splits)

lemma report_page_errors:
  "report_page env u outlinks cookies closeErr ms sw = (Ret (Inl e), sw1) \<Longrightarrow> \<exists>x. e = Wrapped x closeErr"
  by (auto simp: report_page_def Let_def split: option.splits prod.splits go.splits)

lemma accounted_report [intro]: "all_accounted (report_phase env u ms)"
  unfolding all_accounted_def
proof (intro allI impI)
  fix sw out sw1
  assume "report_phase env u ms sw = Some (out, sw1)"
  then show "accounted out sw1"
    by (auto simp: report_phase_def fbind_def lift_go_def act_def Let_def
        split: option.splits prod.splits go.splits fetched.splits sum.splits dest: report_page_errors)
qed

lemma accounted_with_url:
  assumes "\<And>u. all_accounted (m u)"
  shows "all_accounted (\<lambda>sw. case ses_RequestedUrl (fst sw) of
    None \<Rightarrow> Some (Crash NilDereference, sw) | Some u \<Rightarrow> m u sw)"
  using assms unfolding all_accounted_def
  by (intro allI impI) (auto split: option.splits)

lemma accounted_body [intro]: "all_accounted (with_browser env b)"
  unfolding with_browser_def
  by (rule accounted_fbind accounted_start accounted_init accounted_navigate accounted_script_phases
      accounted_lift accounted_with_url accounted_frames accounted_finalize accounted_screenshot
      accounted_report)+

text \<open>Cleaning the workspace is a request to another server; it leaves the session alone.\<close>

definition clean_keeps :: "'w fetch_env \<Rightarrow> bool" where
  "clean_keeps env \<longleftrightarrow> (\<forall>u s w. fst (fe_CleanWorkspace env u (s, w)) = s)"

lemma cleanup_session:
  "clean_keeps env \<Longrightarrow> cleanup env sw = (p, sw1) \<Longrightarrow> fst sw1 = end_contexts (fst sw)"
  by (cases sw) (auto simp: cleanup_def cleanWorkspace_def clean_keeps_def Let_def split: option.splits
      dest!: spec [of _ "workspace_url (end_contexts (fst sw))"])

lemma initial_end_contexts [simp]: "initial_request (end_contexts s) = initial_request s"
  by (simp add: initial_request_def end_contexts_def)

text \<open>Where the outcome of a fetch comes from.\<close>

lemma fetch_body_cases:
  assumes "fetch_body rx lib env phs sw = Some ((out, d), sw1)"
  obtains (config) "d = Ret ()" "\<And>r. out \<noteq> Done r" "accounted out sw1"
  | (browser) b sw2 sw3 where "fetch_config rx lib env phs sw = Some (Done b, sw2)"
      "with_browser env b sw2 = Some (out, sw3)" "cleanup env sw3 = (d, sw1)"
proof (cases "fetch_config rx lib env phs sw")
  case None
  then show ?thesis using assms by (simp add: fetch_body_def)
next
  case (Some r)
  obtain x sw2 where r: "r = (x, sw2)" by (cases r)
  have "accounted x sw2" using accounted_fetch_config Some r unfolding all_accounted_def by blast
  then show ?thesis
    using assms Some r config browser
    by (cases x) (auto simp: fetch_body_def accounted_def split: option.splits prod.splits)
qed

lemma accounted_fetch:
  assumes "fetch_body rx lib env phs sw = Some ((out, d), sw1)" and "clean_keeps env"
  shows "accounted out sw1"
  using assms(1)
proof (cases rule: fetch_body_cases)
  case (browser b sw2 sw3)
  then have "accounted out sw3" using accounted_body unfolding all_accounted_def by blast
  then show ?thesis using cleanup_session [OF assms(2) browser(3)] by (simp add: accounted_def)
qed

lemma fetch_body_panic:
  assumes "fetch_body rx lib env phs sw = Some ((out, Panic p), sw1)"
  shows "p = NilDereference \<and> (\<exists>url. fe_NewRequest env url \<noteq> None)"
  using assms
  by (cases rule: fetch_body_cases) (auto simp: cleanup_def cleanWorkspace_def Let_def split: option.splits)

lemma fetch_recover_some: "fetch_recover panic_text (out, d) = (res, err) \<Longrightarrow> res \<noteq> None \<or> err \<noteq> None"
  by (cases d; cases out) auto

text \<open>
  C1 (error). A fetch always returns a result or an error. It returns both only when the request
  that cleans the workspace cannot be made, and then the error is -5, that of a nil dereference.
  Of the numbered errors it returns only three: -5 for a panic, -5004 when the time is up, and
  -4100, which means that the page's initial request did come from the cache.
\<close>

theorem Fetch_error_codes:
  assumes "Fetch rx lib panic_text env phs sw = Some ((res, err), sw1)" and "clean_keeps env"
  shows "(res \<noteq> None \<or> err \<noteq> None)
    \<and> (res \<noteq> None \<and> err \<noteq> None \<longrightarrow> (\<exists>url. fe_NewRequest env url \<noteq> None)
         \<and> err = Some (FetchError_New (- 5) ''Runtime error'' (panic_text NilDereference)))
    \<and> (\<forall>ce. err = Some (FetchErr ce) \<longrightarrow> err_Code ce \<in> {- 5, - 4100, - 5004}
        \<and> (err_Code ce = - 4100 \<longrightarrow> (\<exists>q. initial_request (fst sw1) = Ret q \<and> rq_FromCache q)))"
proof -
  obtain out d where body: "fetch_body rx lib env phs sw = Some ((out, d), sw1)"
    and out: "fetch_recover panic_text (out, d) = (res, err)"
    using assms(1) by (auto simp: Fetch_def split: option.splits)
  have acc: "accounted out sw1" by (rule accounted_fetch [OF body assms(2)])
  have some: "res \<noteq> None \<or> err \<noteq> None" by (rule fetch_recover_some [OF out])
  show ?thesis
  proof (cases d)
    case (Panic p)
    then show ?thesis
      using fetch_body_panic [OF body [unfolded Panic]] out some by (auto simp: FetchError_New_def)
  next
    case (Ret u)
    then show ?thesis using acc out some by (cases out) (auto simp: accounted_def FetchError_New_def)
  qed
qed

text \<open>
  When \<open>Fetch\<close> has started a browser, its session takes no more notifications
  once it has returned, however it ended: its context is done, so the proxies are told that
  the session is cancelled.
\<close>

lemma Fetch_closes_session:
  assumes "fetch_config rx lib env phs sw = Some (Done b, sw0)"
    and "Fetch rx lib panic_text env phs sw = Some (out, s1, w1)" and "clean_keeps env"
  shows "fst (Session_Notify now i s1) \<noteq> Ret None"
proof -
  obtain out2 d sw3 where "with_browser env b sw0 = Some (out2, sw3)" "cleanup env sw3 = (d, s1, w1)"
    using assms(1,2) by (auto simp: Fetch_def fetch_body_def split: option.splits prod.splits)
  then have "s1 = end_contexts (fst sw3)"
    using cleanup_session [OF assms(3)] by (metis fst_conv)
  then have "ses_ctx s1 \<noteq> Some False" by (auto simp: end_contexts_def)
  then show ?thesis by (auto simp: Session_Notify_def split: option.splits bool.splits)
qed

text \<open>
  A page whose time is up before the browser has sent any request is not
  reported as -5004, as the code intends: asking for the initial request of an empty
  registry panics, and the fetch ends with -5.
\<close>

lemma wait_frames_without_request:
  assumes "fe_WaitFrames env sw = (Some ExceededMaxTime, sw1)"
    and "ses_Requests (fst sw1) = Some r" and "rr_requests r = []"
  shows "\<exists>p. wait_frames env uri sw = Some (Crash p, sw1)
    \<and> fetch_recover panic_text (Crash p, Ret ())
      = (None, Some (FetchError_New (- 5) ''Runtime error'' (panic_text IndexOutOfRange)))"
  using assms
  by (simp add: wait_frames_def frames_result_def initial_request_def InitialRequest_def)

section \<open>A fetch that succeeds\<close>

text \<open>
  The whole fetch in an environment that answers everything: the configuration is there, the
  browser sends one request, which the proxy completes, and nothing times out.
\<close>

definition no_world :: "(session \<times> error option list) browser" where
  "no_world =
     \<lparr>br_GetFrameTree = (\<lambda>sw. (Inr ''root'', sw)),
      br_CreateIsolatedWorld = (\<lambda>f sw. (Inr 1, sw)),
      br_CallFunctionOn = (\<lambda>f a eci p sw. (Inr (None, None), sw))\<rparr>"

definition one_request :: "session \<Rightarrow> session" where
  "one_request s = s\<lparr>ses_Requests :=
     Some ((NewRequestRegistry NewWaitGroup)\<lparr>rr_requests := [page_request]\<rparr>)\<rparr>"

definition ok_config :: "config_ref \<Rightarrow> config_object" where
  "ok_config r = (if ref_Id r = ''b''
     then \<lparr>co_Id = ''b'', co_Meta = None, co_Spec = BrowserConfigSpec \<lparr>bc_UserAgent = [],
             bc_WindowWidth = 1280, bc_WindowHeight = 1024, bc_PageLoadTimeoutMs = 60000,
             bc_MaxInactivityTimeMs = 1000, bc_ScriptRef = [], bc_ScriptSelector = []\<rparr>\<rparr>
     else \<lparr>co_Id = ref_Id r, co_Meta = None,
             co_Spec = PolitenessSpec \<lparr>pc_RobotsPolicy = IGNORE_ROBOTS\<rparr>\<rparr>)"

definition ok_env :: "error option list fetch_env" where
  "ok_env =
     \<lparr>fe_page = quiet_env, fe_browser = no_world,
      fe_GetConfigObject = (\<lambda>r sw. (Inr (ok_config r), sw)),
      fe_GetScripts = (\<lambda>b sw. (Ret (Inr []), sw)),
      fe_GetVersion = (\<lambda>sw. (Inr (''1'', ''HeadlessChrome/1''), sw)),
      fe_InitBrowser = (\<lambda>d c sw. (None, sw)),
      fe_Navigate = (\<lambda>u sw. (None, one_request (fst sw), snd sw)),
      fe_WaitNetwork = id,
      fe_WaitFrames = (\<lambda>sw. (None, sw)),
      fe_WaitRequests = (\<lambda>sw. (None, sw)),
      fe_NewRequest = (\<lambda>u. None), fe_CleanWorkspace = (\<lambda>u sw. sw),
      fe_FetchMs = (\<lambda>sw. 7),
      fe_ErrorText = (\<lambda>e. [])\<rparr>"

definition ok_phs :: page_harvest_spec where
  "ok_phs = \<lparr>phs_QueuedUri = Some example_uri,
     phs_CrawlConfig = Some \<lparr>co_Id = ''c'', co_Meta = None, co_Spec = CrawlConfigSpec
        \<lparr>cc_CollectionRef = None, cc_BrowserConfigRef = Some \<lparr>ref_Id = ''b''\<rparr>,
         cc_PolitenessRef = Some \<lparr>ref_Id = ''p''\<rparr>,
         cc_Extra = Some \<lparr>ex_CreateScreenshot = False\<rparr>\<rparr>\<rparr>,
     phs_SessionToken = ''t''\<rparr>"

lemma ok_env_simps [simp]:
  "fe_page ok_env = quiet_env" "fe_browser ok_env = no_world"
  "fe_GetConfigObject ok_env r sw = (Inr (ok_config r), sw)"
  "fe_GetScripts ok_env b sw = (Ret (Inr []), sw)"
  "fe_GetVersion ok_env sw = (Inr (''1'', ''HeadlessChrome/1''), sw)"
  "fe_InitBrowser ok_env d c sw = (None, sw)"
  "fe_Navigate ok_env u sw = (None, one_request (fst sw), snd sw)"
  "fe_WaitNetwork ok_env = id" "fe_WaitFrames ok_env sw = (None, sw)"
  "fe_WaitRequests ok_env sw = (None, sw)" "fe_CleanWorkspace ok_env url sw = sw"
  "fe_NewRequest ok_env url = None"
  "fe_FetchMs ok_env sw = 7"
  by (simp_all add: ok_env_def)

lemma ok_clean [simp]: "clean_keeps ok_env"
  by (simp add: clean_keeps_def)

lemma user_agent: "ReplaceAll ''HeadlessChrome'' ''Chrome'' ''HeadlessChrome/1'' = ''Chrome/1''"
  by simp

definition ok_browser_config :: browser_config where
  "ok_browser_config = \<lparr>bc_UserAgent = [], bc_WindowWidth = 1280, bc_WindowHeight = 1024,
     bc_PageLoadTimeoutMs = 60000, bc_MaxInactivityTimeMs = 1000, bc_ScriptRef = [],
     bc_ScriptSelector = []\<rparr>"

definition ok_session :: "session \<Rightarrow> session" where
  "ok_session s = s\<lparr>ses_RequestedUrl := Some example_uri,
     ses_CrawlConfig := GetCrawlConfig (phs_CrawlConfig ok_phs),
     ses_browserConfig := Some ok_browser_config,
     ses_PolitenessConfig := Some (ok_config \<lparr>ref_Id = ''p''\<rparr>),
     ses_scripts := Some newSessionScripts\<rparr>"

lemma ok_fetch_config:
  "equipped s \<Longrightarrow> fetch_config prefix_regexps plain_urls ok_env ok_phs (s, w)
     = Some (Done ok_browser_config, ok_session s, w)"
  by (auto simp: equipped_def get_scripts_def fetch_config_def fbind_def set_sess_def get_crawl_config_def get_config_def
      get_politeness_def get_browser_config_def load_scripts_def loadScripts_def ok_config_def
      GetBrowserConfig_def GetCrawlConfig_def ok_phs_def ok_session_def ok_browser_config_def)

lemma ok_scripts:
  "ses_scripts (fst sw) = Some newSessionScripts \<Longrightarrow> t \<in> {ON_NEW_DOCUMENT, ON_LOAD} \<Longrightarrow>
   run_scripts ok_env t sw = Some (Done None, sw)"
  by (auto simp: run_scripts_def executeScripts_def scripts_Get_def newSessionScripts_def
      getExecutionContextID_def no_world_def)

lemma ok_script_phases:
  "ses_scripts (fst sw) = Some newSessionScripts \<Longrightarrow> script_phases ok_env sw = Some (Done (), sw)"
  by (simp add: script_phases_def fbind_def ok_scripts)

text \<open>The session once the page has been opened and its one request is finalized.\<close>

lemma ok_finalized:
  "\<exists>r. FinalizeResponses example_uri ((NewRequestRegistry NewWaitGroup)\<lparr>rr_requests := [page_request]\<rparr>)
     = (Ret (), r) \<and> rr_rootRequest r = Some 0
     \<and> (\<exists>q cl. rr_requests r = [q] \<and> rq_CrawlLog q = Some cl)"
  by (simp add: FinalizeResponses_def finalize_loop_def finalize_one_def finalize_log_def Let_def
      page_request_def example_request_def log_of_def)

lemma ok_report:
  assumes "ses_Requests (fst sw) = Some r" "rr_rootRequest r = Some 0" "rr_requests r = [q]"
    and "rq_CrawlLog q = Some cl" and "ses_scripts (fst sw) = Some newSessionScripts"
    and "ses_logWriter (fst sw) \<noteq> None"
  shows "\<exists>res. report_phase ok_env u ms sw = Some (Done res, sw)"
  using assms
  by (cases sw) (auto simp: report_phase_def fbind_def lift_go_def act_def extractOutlinks_def
      write_crawl_logs_def scripts_Get_def newSessionScripts_def extractCookies_def quiet_env_def report_page_def
      initial_request_def InitialRequest_def write_page_log_def queued_uris_def Let_def)

lemma ok_with_browser:
  "equipped s \<Longrightarrow> \<exists>res sw1. with_browser ok_env ok_browser_config (ok_session s, w) = Some (Done res, sw1)"
proof -
  assume s: "equipped s"
  obtain r q cl where r: "FinalizeResponses example_uri
      ((NewRequestRegistry NewWaitGroup)\<lparr>rr_requests := [page_request]\<rparr>) = (Ret (), r)"
      "rr_rootRequest r = Some 0" "rr_requests r = [q]" "rq_CrawlLog q = Some cl"
    using ok_finalized by blast
  obtain s2 where s2: "start_browser ok_env ok_browser_config (ok_session s, w) = Some (Done (), s2, w)"
      "ses_scripts s2 = Some newSessionScripts" "ses_RequestedUrl s2 = Some example_uri"
      "ses_CrawlConfig s2 = GetCrawlConfig (phs_CrawlConfig ok_phs)" "equipped s2"
    using s by (simp add: equipped_def start_browser_def fbind_def set_sess_def act_def ok_session_def)
  let ?s3 = "one_request s2"
  let ?s4 = "?s3\<lparr>ses_Requests := Some r\<rparr>"
  have init: "init_browser ok_env ok_browser_config (s2, w) = Some (Done (), s2, w)"
    by (simp add: init_browser_def)
  have nav: "navigate ok_env (s2, w) = Some (Done (), ?s3, w)"
    using s2 by (simp add: navigate_def navigation_result_def)
  have scr: "script_phases ok_env (?s3, w) = Some (Done (), ?s3, w)"
    using s2(2) by (simp add: ok_script_phases one_request_def)
  have fr: "wait_frames ok_env (qu_Uri example_uri) (?s3, w) = Some (Done (), ?s3, w)"
    by (simp add: wait_frames_def frames_result_def)
  have fin: "finalize example_uri (?s3, w) = Some (Done (), ?s4, w)"
    using r by (simp add: finalize_def one_request_def)
  have shot: "screenshot_phase ok_env (?s4, w) = Some (Done (), ?s4, w)"
    using s2 by (simp add: screenshot_phase_def wants_screenshot_def one_request_def ok_phs_def
        GetCrawlConfig_def)
  obtain res where rep: "report_phase ok_env example_uri 7 (?s4, w) = Some (Done res, ?s4, w)"
    using ok_report [of "(?s4, w)" r q cl example_uri 7] r s2(2,5) by (auto simp: one_request_def equipped_def)
  have "ses_RequestedUrl ?s3 = Some example_uri" using s2(3) by (simp add: one_request_def)
  then have "with_browser ok_env ok_browser_config (ok_session s, w) = Some (Done res, ?s4, w)"
    using s2(1) init nav scr fr fin shot rep
    by (simp add: with_browser_def fbind_def act_def)
  then show ?thesis by blast
qed

lemma ok_fetch:
  "equipped s \<Longrightarrow> \<exists>res sw1. Fetch prefix_regexps plain_urls (\<lambda>_. []) ok_env ok_phs (s, w) = Some ((Some res, None), sw1)"
  using ok_with_browser [of s w] by (auto simp: Fetch_def fetch_body_def ok_fetch_config cleanup_def cleanWorkspace_def)

theorem Fetch_error_codes_witness:
  "\<exists>res err. map_option fst (Fetch prefix_regexps plain_urls (\<lambda>_. []) ok_env ok_phs (newDefaultSession handle_options, []))
     = Some (res, err) \<and> (res \<noteq> None \<or> err \<noteq> None)"
proof -
  obtain res sw1 where run: "Fetch prefix_regexps plain_urls (\<lambda>_. []) ok_env ok_phs
      (newDefaultSession handle_options, []) = Some ((Some res, None), sw1)"
    using ok_fetch [OF equipped_handles] by blast
  from Fetch_error_codes [OF run ok_clean] run show ?thesis by simp
qed

lemma Fetch_closes_session_instance:
  "\<exists>out s1 w1. Fetch prefix_regexps plain_urls (\<lambda>_. []) ok_env ok_phs (newDefaultSession handle_options, [])
     = Some (out, s1, w1) \<and> fst (Session_Notify 0 ''i'' s1) \<noteq> Ret None"
proof -
  obtain res s1 w1 where run: "Fetch prefix_regexps plain_urls (\<lambda>_. []) ok_env ok_phs
      (newDefaultSession handle_options, []) = Some ((Some res, None), s1, w1)"
    using ok_fetch [OF equipped_handles] by force
  from Fetch_closes_session [OF ok_fetch_config [OF equipped_handles] run ok_clean] run show ?thesis by blast
qed

lemma wait_frames_without_request_instance:
  "fst (the (wait_frames (ok_env\<lparr>fe_WaitFrames := (\<lambda>sw. (Some ExceededMaxTime, sw))\<rparr>) ''u''
      ((newDefaultSession handle_options)\<lparr>ses_Requests := Some (NewRequestRegistry NewWaitGroup)\<rparr>, [])))
    \<noteq> Fail (runtime_exceeded ''u'')"
proof -
  let ?s = "(newDefaultSession handle_options)\<lparr>ses_Requests := Some (NewRequestRegistry NewWaitGroup)\<rparr>"
  let ?env = "ok_env\<lparr>fe_WaitFrames := (\<lambda>sw. (Some ExceededMaxTime, sw))\<rparr>"
  have w: "fe_WaitFrames ?env (?s, []) = (Some ExceededMaxTime, ?s, [])" by simp
  have r: "ses_Requests (fst (?s, [] :: error option list)) = Some (NewRequestRegistry NewWaitGroup)"
    by simp
  have e: "rr_requests (NewRequestRegistry NewWaitGroup) = []" by (simp add: NewRequestRegistry_def)
  obtain p where "wait_frames ?env ''u'' (?s, []) = Some (Crash p, ?s, [])"
    using wait_frames_without_request [OF w r e, of "''u''" "\<lambda>_. []"] by (elim exE conjE)
  then show ?thesis by simp
qed

end
