(* ===== verification/Api_Server.thy ===== *)
theory Api_Server
  imports Server
begin

text \<open>
  \<^verbatim>\<open>server/server.go\<close>: making, starting and closing the API server. Listening on an address
  and the gRPC server are outside; the latter is whether it has been made.
\<close>

record api_server =
  as_addr :: string
  as_ln :: "string option"
  as_listenAddr :: "string option"
  as_grpcServer :: bool

definition NewApiServer :: "string \<Rightarrow> int \<Rightarrow> api_server" where
  "NewApiServer listenInterface listenPort =
     \<lparr>as_addr = listenInterface @ '':'' @ Itoa listenPort, as_ln = None, as_listenAddr = None,
      as_grpcServer = False\<rparr>"

text \<open>
  \<open>Start\<close> up to \<open>Serve\<close>, whose result is then that of \<open>Start\<close>. \<open>listen\<close> stands for
  \<open>net.Listen\<close>; a listener is its address.
\<close>

definition ApiServer_Start ::
  "(string \<Rightarrow> error + string) \<Rightarrow> api_server \<Rightarrow> error option \<times> api_server" where
  "ApiServer_Start listen a =
     (case listen (as_addr a) of
        Inl err \<Rightarrow> (Some (Wrapped ''failed to start API server: '' (Some err)), a)
      | Inr ln \<Rightarrow> (None, a\<lparr>as_ln := Some ln, as_listenAddr := Some ln, as_grpcServer := True\<rparr>))"

text \<open>
  \<open>Close\<close> stops the gRPC server, which \<open>Start\<close> may not have made: \<open>GracefulStop\<close> reads the
  fields of its receiver.
\<close>

definition ApiServer_Close :: "api_server \<Rightarrow> unit go" where
  "ApiServer_Close a = (if as_grpcServer a then Ret () else Panic NilDereference)"

lemmas api_server_defs [step_defs] = ApiServer_Start_def ApiServer_Close_def NewApiServer_def

lemma Start_then_Close:
  "ApiServer_Start listen (NewApiServer i p) = (e, a) \<Longrightarrow>
     ApiServer_Close a = (if e = None then Ret () else Panic NilDereference)"
  by (auto simp: step_defs split: sum.splits)

end
