(* ===== verification/Controller.thy ===== *)
theory Controller
  imports Fetch Server_Props Api_Server
begin

text \<open>
  \<^verbatim>\<open>controller/\<close>: the options of the browser controller and its main loop, which takes a
  session from the registry, a page from the frontier, and starts a fetch. The loop, the
  fetches it has started, the API server and \<open>Shutdown\<close> run against each other as a step
  relation.
\<close>

section \<open>Options\<close>

text \<open>
  The handles of the frontier, the robots evaluator, the log writer and the options of the
  sessions are values of types of their own; a handle that is not set is nil.
\<close>

record ('f, 'r, 'l, 'so) controller_options =
  bco_listenInterface :: string
  bco_listenPort :: int
  bco_frontier :: "'f option"
  bco_robotsEvaluator :: "'r option"
  bco_logWriter :: "'l option"
  bco_sessionOpts :: "'so list"
  bco_maxSessions :: int
  bco_closeTimeout :: int

type_synonym ('f, 'r, 'l, 'so) controller_option =
  "('f, 'r, 'l, 'so) controller_options \<Rightarrow> ('f, 'r, 'l, 'so) controller_options"

definition defaultBrowserControllerOptions :: "('f, 'r, 'l, 'so) controller_options" where
  "defaultBrowserControllerOptions =
     \<lparr>bco_listenInterface = [], bco_listenPort = 8080, bco_frontier = None,
      bco_robotsEvaluator = None, bco_logWriter = None, bco_sessionOpts = [],
      bco_maxSessions = 2, bco_closeTimeout = 5 * 60 * 1000000000\<rparr>"

definition WithListenInterface :: "string \<Rightarrow> ('f, 'r, 'l, 'so) controller_option" where
  "WithListenInterface listenInterface c = c\<lparr>bco_listenInterface := listenInterface\<rparr>"

definition WithListenPort :: "int \<Rightarrow> ('f, 'r, 'l, 'so) controller_option" where
  "WithListenPort port c = c\<lparr>bco_listenPort := port\<rparr>"

definition WithFrontier :: "'f \<Rightarrow> ('f, 'r, 'l, 'so) controller_option" where
  "WithFrontier frontier c = c\<lparr>bco_frontier := Some frontier\<rparr>"

definition WithRobotsEvaluator :: "'r \<Rightarrow> ('f, 'r, 'l, 'so) controller_option" where
  "WithRobotsEvaluator robotsevaluator c = c\<lparr>bco_robotsEvaluator := Some robotsevaluator\<rparr>"

definition WithLogWriter :: "'l \<Rightarrow> ('f, 'r, 'l, 'so) controller_option" where
  "WithLogWriter logWriter c = c\<lparr>bco_logWriter := Some logWriter\<rparr>"

definition WithSessionOptions :: "'so list \<Rightarrow> ('f, 'r, 'l, 'so) controller_option" where
  "WithSessionOptions opts c = c\<lparr>bco_sessionOpts := opts\<rparr>"

definition WithMaxConcurrentSessions :: "int \<Rightarrow> ('f, 'r, 'l, 'so) controller_option" where
  "WithMaxConcurrentSessions maxSessions c = c\<lparr>bco_maxSessions := maxSessions\<rparr>"

definition WithCloseTimeout :: "int \<Rightarrow> ('f, 'r, 'l, 'so) controller_option" where
  "WithCloseTimeout d c = c\<lparr>bco_closeTimeout := d\<rparr>"

definition NewBrowserController ::
  "('f, 'r, 'l, 'so) controller_option list \<Rightarrow> ('f, 'r, 'l, 'so) controller_options" where
  "NewBrowserController opts = apply_options opts defaultBrowserControllerOptions"

lemmas controller_option_defs [step_defs] =
  WithListenInterface_def WithListenPort_def WithFrontier_def WithRobotsEvaluator_def
  WithLogWriter_def WithSessionOptions_def WithMaxConcurrentSessions_def WithCloseTimeout_def

section \<open>The main loop\<close>

text \<open>
  Where \<open>Run\<close> is: at its select, acquiring a session, asking for a page for the session it
  has got, about to signal that there is no page, backing off, done with the loop (waiting for
  the sessions in its first deferred call), about to close the API server in the last one, or
  gone, with its result or a panic.
\<close>

datatype run_pc =
    AtSelect
  | Acquiring
  | GotSession nat
  | SendBackoff
  | BackingOff
  | LoopReturned "error option"
  | ClosingServer "error option"
  | Exited "error option go"

text \<open>
  The goroutine of the API server: starting it, serving, its start failed with an error,
  having sent its error, having cancelled.
\<close>

datatype api_pc = Starting | Serving | StartFailed error | ErrorSent | ContextCancelled

definition api_running :: "api_pc \<Rightarrow> bool" where
  "api_running pc \<longleftrightarrow> pc \<noteq> ErrorSent \<and> pc \<noteq> ContextCancelled"

definition api_started :: "error option \<Rightarrow> api_pc" where
  "api_started err = (case err of None \<Rightarrow> Serving | Some e \<Rightarrow> StartFailed e)"

lemma api_running_simps [simp]:
  "api_running Starting" "api_running Serving" "api_running (StartFailed e)"
  "\<not> api_running ErrorSent" "\<not> api_running ContextCancelled" "api_running (api_started err)"
  by (auto simp: api_running_def api_started_def split: option.splits)

text \<open>
  \<open>rs_done\<close> is the content of the channel \<open>done\<close>, of capacity one; \<open>rs_backoff\<close> whether the
  channel \<open>backoff\<close>, also of capacity one, holds a value; \<open>rs_fetching\<close> the sessions of the
  fetches under way. \<open>rs_late\<close> counts, for a statement only, the fetches started while a
  message was waiting in \<open>done\<close>.
\<close>

record 's run_state =
  rs_registry :: "'s session_registry"
  rs_done :: "error option list"
  rs_cancelled :: bool
  rs_backoff :: bool
  rs_pc :: run_pc
  rs_fetching :: "nat list"
  rs_api :: api_pc
  rs_server :: api_server
  rs_late :: nat

definition run_start :: "api_server \<Rightarrow> 's session_registry \<Rightarrow> 's run_state" where
  "run_start server sr = \<lparr>rs_registry = sr, rs_done = [], rs_cancelled = False, rs_backoff = False,
     rs_pc = AtSelect, rs_fetching = [], rs_api = Starting, rs_server = server,
     rs_late = 0\<rparr>"

text \<open>The result of asking for a session: a cancelled context goes back to the select.\<close>

definition acquired :: "(error + nat \<times> 's) \<Rightarrow> run_pc" where
  "acquired r =
     (case r of
        Inl e \<Rightarrow> (if e = ContextCanceled then AtSelect
                 else LoopReturned (Some (Wrapped ''failed to get next session: '' (Some e))))
      | Inr (i, sess) \<Rightarrow> GotSession i)"

definition no_page :: "error \<Rightarrow> run_pc" where
  "no_page err =
     (case err of
        GrpcStatus NotFound msg \<Rightarrow> SendBackoff
      | _ \<Rightarrow> LoopReturned (Some (Wrapped ''failed to get next page: '' (Some err))))"

text \<open>
  One step of one of the goroutines. \<open>New\<close> makes a session. A release that does not succeed
  is no step: that this never keeps a goroutine from going on is a theorem.
\<close>

inductive run_step :: "(nat \<Rightarrow> error + 's) \<Rightarrow> 's run_state \<Rightarrow> 's run_state \<Rightarrow> bool"
  for New :: "nat \<Rightarrow> error + 's" where
  select_done:
    "rs_pc s = AtSelect \<Longrightarrow> rs_done s = e # rest
     \<Longrightarrow> run_step New s (s\<lparr>rs_done := rest, rs_pc := LoopReturned e\<rparr>)"
| select_backoff:
    "rs_pc s = AtSelect \<Longrightarrow> rs_backoff s
     \<Longrightarrow> run_step New s (s\<lparr>rs_backoff := False, rs_pc := BackingOff\<rparr>)"
| select_default:
    "rs_pc s = AtSelect \<Longrightarrow> rs_done s = [] \<Longrightarrow> \<not> rs_backoff s
     \<Longrightarrow> run_step New s (s\<lparr>rs_pc := Acquiring\<rparr>)"
| wake_up:
    "rs_pc s = BackingOff \<Longrightarrow> run_step New s (s\<lparr>rs_pc := AtSelect\<rparr>)"
| acquire:
    "rs_pc s = Acquiring \<Longrightarrow> ctxErr = None \<or> (rs_cancelled s \<and> ctxErr = Some ContextCanceled)
     \<Longrightarrow> GetNextAvailable New ctxErr (rs_registry s) = (Some r, sr)
     \<Longrightarrow> run_step New s (s\<lparr>rs_registry := sr, rs_pc := acquired r\<rparr>)"
| got_page:
    "rs_pc s = GotSession i
     \<Longrightarrow> run_step New s (s\<lparr>rs_pc := AtSelect, rs_fetching := i # rs_fetching s,
           rs_late := (if rs_done s = [] then rs_late s else Suc (rs_late s))\<rparr>)"
| got_no_page:
    "rs_pc s = GotSession i \<Longrightarrow> Registry_Release i (rs_registry s) = (Ret True, sr)
     \<Longrightarrow> run_step New s (s\<lparr>rs_registry := sr, rs_pc := no_page err\<rparr>)"
| send_backoff:
    "rs_pc s = SendBackoff \<Longrightarrow> \<not> rs_backoff s
     \<Longrightarrow> run_step New s (s\<lparr>rs_backoff := True, rs_pc := AtSelect\<rparr>)"
| fetched:
    "i \<in> set (rs_fetching s) \<Longrightarrow> Registry_Release i (rs_registry s) = (Ret True, sr)
     \<Longrightarrow> run_step New s (s\<lparr>rs_registry := sr, rs_fetching := remove1 i (rs_fetching s)\<rparr>)"
| api_start:
    "rs_api s = Starting \<Longrightarrow> ApiServer_Start listen (rs_server s) = (err, a)
     \<Longrightarrow> run_step New s (s\<lparr>rs_server := a, rs_api := api_started err\<rparr>)"
| api_start_error:
    "rs_api s = StartFailed e \<Longrightarrow> rs_done s = []
     \<Longrightarrow> run_step New s (s\<lparr>rs_done := [Some (Wrapped ''API server stopped: '' (Some e))], rs_api := ErrorSent\<rparr>)"
| api_error:
    "rs_api s = Serving \<Longrightarrow> rs_done s = []
     \<Longrightarrow> run_step New s (s\<lparr>rs_done := [Some (Wrapped ''API server stopped: '' e)], rs_api := ErrorSent\<rparr>)"
| api_cancel:
    "rs_api s = ErrorSent
     \<Longrightarrow> run_step New s (s\<lparr>rs_cancelled := True, rs_api := ContextCancelled\<rparr>)"
| shutdown:
    "rs_done s = [] \<Longrightarrow> run_step New s (s\<lparr>rs_done := [None]\<rparr>)"
| close_wait:
    "rs_pc s = LoopReturned e \<Longrightarrow> CloseWait timeoutPassed (rs_registry s) \<noteq> []
     \<Longrightarrow> run_step New s (s\<lparr>rs_pc := ClosingServer e\<rparr>)"
| close_server:
    "rs_pc s = ClosingServer e
     \<Longrightarrow> run_step New s (s\<lparr>rs_pc := Exited (go_bind (ApiServer_Close (rs_server s)) (\<lambda>_. Ret e))\<rparr>)"

inductive_cases run_stepE: "run_step New s s'"

text \<open>What \<open>New\<close> answers may be different at each call.\<close>

inductive run_reachable :: "'s run_state \<Rightarrow> bool" where
  run_init: "NewRegistry maxSessions = Ret sr
     \<Longrightarrow> run_reachable (run_start (NewApiServer listenInterface listenPort) sr)"
| run_next: "run_reachable s \<Longrightarrow> run_step New s s' \<Longrightarrow> run_reachable s'"

section \<open>Invariants\<close>

text \<open>
  Every session in use has exactly one owner, the loop or one of the fetches.
\<close>

definition held :: "'s run_state \<Rightarrow> nat list" where
  "held s = (case rs_pc s of GotSession i \<Rightarrow> i # rs_fetching s | _ \<Rightarrow> rs_fetching s)"

definition owner_inv :: "'s run_state \<Rightarrow> bool" where
  "owner_inv s \<longleftrightarrow> pool_inv (rs_registry s) \<and> distinct (held s) \<and> set (held s) = used (rs_registry s)"

text \<open>
  The loop leaves its select for a session only with nothing in its channels, and nobody
  else sends to \<open>backoff\<close>; what is sent to \<open>done\<close> stays there until the loop takes it and ends.
\<close>

definition looping :: "run_pc \<Rightarrow> bool" where
  "looping pc \<longleftrightarrow> pc \<in> {AtSelect, Acquiring, SendBackoff, BackingOff} \<or> (\<exists>i. pc = GotSession i)"

definition channel_inv :: "'s run_state \<Rightarrow> bool" where
  "channel_inv s \<longleftrightarrow>
     (rs_backoff s \<longrightarrow> rs_pc s = AtSelect \<or> \<not> looping (rs_pc s))
     \<and> (looping (rs_pc s) \<and> \<not> api_running (rs_api s) \<longrightarrow> rs_done s \<noteq> [])
     \<and> (rs_cancelled s \<longrightarrow> \<not> api_running (rs_api s))"

definition late_inv :: "'s run_state \<Rightarrow> bool" where
  "late_inv s \<longleftrightarrow> rs_late s \<le> 1
     \<and> (looping (rs_pc s) \<and> rs_done s = [] \<longrightarrow> rs_late s = 0)
     \<and> (rs_pc s = Acquiring \<or> (\<exists>i. rs_pc s = GotSession i) \<longrightarrow> rs_late s = 0)"

lemma GetNextAvailable_acquired:
  assumes "GetNextAvailable New ctxErr sr = (Some (Inr (i, sess)), sr1)" and "pool_inv sr"
  shows "i \<notin> used sr \<and> used sr1 = insert i (used sr)"
proof -
  obtain rest where pool: "sr_pool sr = i # rest" "New i = Inr sess" "ctxErr = None"
    using assms(1) by (auto simp: GetNextAvailable_def Let_def split: option.splits list.splits sum.splits)
  then have "i \<notin> used sr" "i < length (sr_sessions sr)" using assms(2) by (auto simp: pool_inv_def)
  with assms(1) pool show ?thesis by (auto simp: GetNextAvailable_def Let_def)
qed

lemma GetNextAvailable_failed:
  assumes "GetNextAvailable New ctxErr sr = (Some (Inl e), sr1)"
  shows "used sr1 = used sr"
  using assms by (auto simp: GetNextAvailable_def Let_def split: option.splits list.splits sum.splits)

lemma held_simps:
  "rs_pc s = GotSession i \<Longrightarrow> held s = i # rs_fetching s"
  "(\<And>i. rs_pc s \<noteq> GotSession i) \<Longrightarrow> held s = rs_fetching s"
  by (auto simp: held_def split: run_pc.splits)

lemma owner_inv_release:
  assumes "owner_inv s" and "i \<in> set (held s)" and "Registry_Release i (rs_registry s) = (Ret True, sr)"
  shows "pool_inv sr \<and> used sr = used (rs_registry s) - {i}"
  using assms Release_in_use [of "rs_registry s" i] by (auto simp: owner_inv_def)

lemma owner_inv_cong:
  "rs_registry s' = rs_registry s \<Longrightarrow> held s' = held s \<Longrightarrow> owner_inv s \<Longrightarrow> owner_inv s'"
  by (simp add: owner_inv_def)

lemma owner_inv_step [inv_intros]:
  assumes "owner_inv s" and "run_step New s s'"
  shows "owner_inv s'"
  using assms(2)
proof cases
  case (acquire ctxErr r sr)
  then have pool: "pool_inv sr" using pool_inv_Get assms(1) by (auto simp: owner_inv_def)
  have h: "held s = rs_fetching s" using acquire by (simp add: held_def)
  show ?thesis
  proof (cases r)
    case (Inl e)
    then show ?thesis
      using acquire assms(1) pool h GetNextAvailable_failed [of New ctxErr "rs_registry s" e sr]
      by (auto simp: owner_inv_def held_def acquired_def)
  next
    case (Inr q)
    obtain i sess where "q = (i, sess)" by (cases q)
    then show ?thesis
      using acquire assms(1) pool h Inr
        GetNextAvailable_acquired [of New ctxErr "rs_registry s" i sess sr]
      by (auto simp: owner_inv_def held_def acquired_def)
  qed
next
  case (got_no_page i sr err)
  have "held s = i # rs_fetching s" using got_no_page by (simp add: held_def)
  moreover have "held s' = rs_fetching s"
    using got_no_page by (auto simp: held_def no_page_def split: error.splits grpc_code.splits)
  ultimately show ?thesis
    using owner_inv_release [OF assms(1) _ got_no_page(3)] assms(1) got_no_page
    by (auto simp: owner_inv_def)
next
  case (fetched i sr)
  have "set (held s') = set (held s) - {i}" "distinct (held s')"
    using assms(1) fetched by (auto simp: owner_inv_def held_def split: run_pc.splits)
  moreover have "i \<in> set (held s)" using fetched by (auto simp: held_def split: run_pc.splits)
  ultimately show ?thesis
    using owner_inv_release [OF assms(1) _ fetched(3)] assms(1) fetched by (auto simp: owner_inv_def)
qed (auto intro!: owner_inv_cong [OF _ _ assms(1)] simp: held_def cong: run_pc.case_cong)

lemma channel_inv_step [inv_intros]:
  assumes "channel_inv s" and "run_step New s s'"
  shows "channel_inv s'"
  using assms(2)
proof cases
  case (acquire ctxErr r sr)
  then show ?thesis using assms(1)
    by (auto simp: channel_inv_def looping_def acquired_def split: sum.splits if_splits)
next
  case (got_no_page i sr err)
  then show ?thesis using assms(1)
    by (auto simp: channel_inv_def looping_def no_page_def split: error.splits grpc_code.splits)
qed (use assms(1) in \<open>auto simp: channel_inv_def looping_def\<close>)

lemma late_inv_step [inv_intros]:
  assumes "late_inv s" and "run_step New s s'"
  shows "late_inv s'"
  using assms(2)
proof cases
  case (acquire ctxErr r sr)
  then show ?thesis using assms(1)
    by (auto simp: late_inv_def looping_def acquired_def split: sum.splits if_splits)
next
  case (got_no_page i sr err)
  then show ?thesis using assms(1)
    by (auto simp: late_inv_def looping_def no_page_def split: error.splits grpc_code.splits)
qed (use assms(1) in \<open>auto simp: late_inv_def looping_def\<close>)

lemma run_inv:
  "run_reachable s \<Longrightarrow> owner_inv s \<and> channel_inv s \<and> late_inv s"
proof (induction rule: run_reachable.induct)
  case (run_init maxSessions sr listenInterface listenPort)
  then show ?case
    using pool_inv_New [of maxSessions sr]
    by (auto simp: owner_inv_def channel_inv_def late_inv_def run_start_def held_def looping_def)
next
  case (run_next s New s')
  then show ?case by (auto intro: inv_intros)
qed

section \<open>Properties\<close>

text \<open>
  C2 (invariant). In every state the controller can reach, the sessions in use are exactly
  those of the fetches under way and the one the loop holds, each once; so every owner can
  release its session, without a panic and without blocking.
\<close>

theorem sessions_have_owners:
  assumes "run_reachable s"
  shows "distinct (held s) \<and> set (held s) = used (rs_registry s)
    \<and> (\<forall>i \<in> set (held s). \<exists>sr. Registry_Release i (rs_registry s) = (Ret True, sr))"
proof -
  have inv: "owner_inv s" using run_inv [OF assms] by simp
  then have "\<exists>sr. Registry_Release i (rs_registry s) = (Ret True, sr)" if "i \<in> set (held s)" for i
    using Release_in_use [of "rs_registry s" i] that by (auto simp: owner_inv_def)
  with inv show ?thesis by (auto simp: owner_inv_def)
qed

definition own_step :: "(nat \<Rightarrow> error + 's) \<Rightarrow> 's run_state \<Rightarrow> bool" where
  "own_step New s \<longleftrightarrow> (\<exists>s'. run_step New s s' \<and> rs_pc s' \<noteq> rs_pc s)"

text \<open>Acquiring a session goes on once there is an id in the pool, or the context is cancelled.\<close>

lemma acquire_progress:
  assumes "rs_pc s = Acquiring" and "sr_pool (rs_registry s) \<noteq> [] \<or> rs_cancelled s"
  shows "\<exists>s'. run_step New s s' \<and> rs_pc s' \<noteq> Acquiring"
proof -
  obtain ctxErr r sr where get: "GetNextAvailable New ctxErr (rs_registry s) = (Some r, sr)"
    and ok: "ctxErr = None \<or> (rs_cancelled s \<and> ctxErr = Some ContextCanceled)"
  proof (cases "rs_cancelled s")
    case True
    then show ?thesis using that [of "Some ContextCanceled"] by (simp add: GetNextAvailable_def)
  next
    case False
    then obtain i rest where pool: "sr_pool (rs_registry s) = i # rest"
      using assms by (cases "sr_pool (rs_registry s)") auto
    show ?thesis
      by (cases "New i") (use that [of None] pool in \<open>auto simp: GetNextAvailable_def Let_def\<close>)
  qed
  have "acquired r \<noteq> Acquiring" by (auto simp: acquired_def split: sum.splits prod.splits)
  with run_step.acquire [OF assms(1) ok get] show ?thesis by fastforce
qed

text \<open>
  C30 (liveness). The loop blocks only on an empty pool: in every reachable state in which
  it has not returned, it can take its next step unless it waits for a session that a fetch
  will release. In particular its send to \<open>backoff\<close> finds room.
\<close>

theorem loop_blocks_only_on_pool:
  assumes "run_reachable s" and "looping (rs_pc s)" and "\<not> own_step New s"
  shows "rs_pc s = Acquiring \<and> sr_pool (rs_registry s) = [] \<and> \<not> rs_cancelled s"
proof -
  have inv: "owner_inv s" "channel_inv s" using run_inv [OF assms(1)] by simp_all
  note blocked = assms(3) [unfolded own_step_def, simplified not_ex, rule_format]
  have no: "\<not> run_step New s s'" if "rs_pc s' \<noteq> rs_pc s" for s' using blocked that by blast
  show ?thesis
  proof (cases "rs_pc s")
    case AtSelect
    have "run_step New s (s\<lparr>rs_done := tl (rs_done s), rs_pc := LoopReturned (hd (rs_done s))\<rparr>)
        \<or> run_step New s (s\<lparr>rs_backoff := False, rs_pc := BackingOff\<rparr>)
        \<or> run_step New s (s\<lparr>rs_pc := Acquiring\<rparr>)"
      using AtSelect select_done [of s "hd (rs_done s)" "tl (rs_done s)" New]
        select_backoff [of s New] select_default [of s New]
      by (cases "rs_done s"; cases "rs_backoff s") auto
    then show ?thesis using no AtSelect by fastforce
  next
    case Acquiring
    with no acquire_progress [OF Acquiring, of New] show ?thesis by fastforce
  next
    case (GotSession i)
    then show ?thesis using no [of "s\<lparr>rs_pc := AtSelect, rs_fetching := i # rs_fetching s,
           rs_late := (if rs_done s = [] then rs_late s else Suc (rs_late s))\<rparr>"]
        got_page [OF GotSession, of New] by simp
  next
    case SendBackoff
    then have "\<not> rs_backoff s" using inv(2) by (auto simp: channel_inv_def looping_def)
    then show ?thesis
      using no [of "s\<lparr>rs_backoff := True, rs_pc := AtSelect\<rparr>"] send_backoff [OF SendBackoff, of New]
        SendBackoff by simp
  next
    case BackingOff
    then show ?thesis using no [of "s\<lparr>rs_pc := AtSelect\<rparr>"] wake_up [OF BackingOff, of New] by simp
  qed (use assms(2) in \<open>simp_all add: looping_def\<close>)
qed

text \<open>
  After \<open>Shutdown\<close>, or the failure of the API server, has sent its message, at
  most one more fetch is started before the loop sees it.
\<close>

lemma at_most_one_late_fetch:
  assumes "run_reachable s"
  shows "rs_late s \<le> 1"
  using run_inv [OF assms] by (simp add: late_inv_def)

text \<open>
  Once the context is cancelled a message waits in \<open>done\<close>, so \<open>continue\<close> after a cancelled
  acquisition leads to a select that ends the loop, not to a busy loop.
\<close>

lemma cancelled_ends_loop:
  assumes "run_reachable s" and "rs_cancelled s" and "looping (rs_pc s)"
  shows "rs_done s \<noteq> []"
  using run_inv [OF assms(1)] assms(2,3) by (auto simp: channel_inv_def)

section \<open>Fetch and report\<close>

text \<open>The goroutine of one page: fetch it and report the outcome to the frontier.\<close>

definition fetch_and_report ::
  "'re regexp_lib \<Rightarrow> 'u url_lib \<Rightarrow> (panic \<Rightarrow> string) \<Rightarrow> (error \<Rightarrow> string) \<Rightarrow> 'w fetch_env \<Rightarrow>
     ('p, page_harvest, 'r) client_stream \<Rightarrow> page_harvest_spec \<Rightarrow> session \<times> 'w \<Rightarrow> 'p \<Rightarrow>
     ((error option go \<times> 'p) \<times> session \<times> 'w) option" where
  "fetch_and_report rx lib panic_text err_text env st phs sw p =
     (case Fetch rx lib panic_text env phs sw of
        None \<Rightarrow> None
      | Some ((result, fetchErr), sw1) \<Rightarrow>
          Some (PageCompleted st err_text phs result fetchErr p, sw1))"

lemma PageCompleted_total:
  "renderResult \<noteq> None \<or> fetchErr \<noteq> None \<Longrightarrow>
   \<exists>e. fst (PageCompleted st err_text phs renderResult fetchErr s) = Ret e"
  by (auto simp: PageCompleted_def Let_def split: option.splits prod.splits)

text \<open>
  C29 (safety). The goroutine of a page never panics while reporting: whatever the page did,
  \<open>Fetch\<close> hands over either an error or a result, so \<open>PageCompleted\<close> never reads a nil
  result and the session is released.
\<close>

theorem fetch_and_report_no_panic:
  assumes "fetch_and_report rx lib panic_text err_text env st phs sw p = Some ((r, p1), sw1)"
  shows "\<exists>e. r = Ret e"
proof -
  obtain result fetchErr where run: "Fetch rx lib panic_text env phs sw = Some ((result, fetchErr), sw1)"
    and rep: "PageCompleted st err_text phs result fetchErr p = (r, p1)"
    using assms by (auto simp: fetch_and_report_def split: option.splits)
  obtain out d where "fetch_recover panic_text (out, d) = (result, fetchErr)"
    using run by (auto simp: Fetch_def split: option.splits)
  from fetch_recover_some [OF this] have "result \<noteq> None \<or> fetchErr \<noteq> None" .
  then show ?thesis using PageCompleted_total [of result fetchErr st err_text phs p] rep by simp
qed

theorem fetch_and_report_no_panic_witness:
  "\<exists>e. map_option (fst \<circ> fst) (fetch_and_report prefix_regexps plain_urls (\<lambda>_. []) (\<lambda>_. []) ok_env
     (scripted_stream (Inr ())) ok_phs (newDefaultSession handle_options, []) []) = Some (Ret e)"
proof -
  obtain res sw1 where run: "Fetch prefix_regexps plain_urls (\<lambda>_. []) ok_env ok_phs
      (newDefaultSession handle_options, []) = Some ((Some res, None), sw1)"
    using ok_fetch [OF equipped_handles] by blast
  obtain r p1 where pc: "PageCompleted (scripted_stream (Inr ())) (\<lambda>_. []) ok_phs (Some res) None []
      = (r, p1)" by fastforce
  have "fetch_and_report prefix_regexps plain_urls (\<lambda>_. []) (\<lambda>_. []) ok_env
      (scripted_stream (Inr ())) ok_phs (newDefaultSession handle_options, []) [] = Some ((r, p1), sw1)"
    by (simp add: fetch_and_report_def run pc)
  from fetch_and_report_no_panic [OF this] this show ?thesis by simp
qed

section \<open>A controller for one session\<close>

text \<open>
  With \<open>maxSessions\<close> 2, the default, one session can run; with 1 there is none, and the
  loop waits for ever.
\<close>

lemma ex_run: "run_reachable (run_start (NewApiServer [] 8080) \<lparr>sr_sessions = [None], sr_pool = [], sr_wg = 0\<rparr>)"
  by (rule run_init [of 1]) (simp add: NewRegistry_def)

lemma ex_run_acquiring:
  "run_reachable ((run_start (NewApiServer [] 8080) \<lparr>sr_sessions = [None], sr_pool = [], sr_wg = 0\<rparr>)\<lparr>rs_pc := Acquiring\<rparr>)"
  by (rule run_next [OF ex_run select_default]) (simp_all add: run_start_def)

theorem loop_blocks_only_on_pool_witness:
  "sr_pool (rs_registry ((run_start (NewApiServer [] 8080) \<lparr>sr_sessions = [None], sr_pool = [], sr_wg = 0\<rparr>)
     \<lparr>rs_pc := Acquiring\<rparr> :: unit run_state)) = []"
proof -
  let ?s = "(run_start (NewApiServer [] 8080) \<lparr>sr_sessions = [None], sr_pool = [], sr_wg = 0\<rparr>)\<lparr>rs_pc := Acquiring\<rparr> :: unit run_state"
  have "\<not> own_step (\<lambda>i. Inr ()) ?s"
    by (auto simp: own_step_def run_start_def GetNextAvailable_def elim!: run_stepE)
  from loop_blocks_only_on_pool [OF ex_run_acquiring _ this] show ?thesis
    by (simp add: looping_def)
qed

text \<open>One session is taken and a page is fetched; then \<open>Shutdown\<close> is called.\<close>

definition ex_registry :: "unit session_registry" where
  "ex_registry = \<lparr>sr_sessions = [None, None], sr_pool = [1], sr_wg = 0\<rparr>"

definition ex_taken :: "unit session_registry" where
  "ex_taken = \<lparr>sr_sessions = [None, Some ()], sr_pool = [], sr_wg = 1\<rparr>"

lemma ex_run_taken:
  "run_reachable ((run_start (NewApiServer [] 8080) ex_taken)\<lparr>rs_pc := GotSession 1\<rparr>)"
proof -
  have "run_reachable (run_start (NewApiServer [] 8080) ex_registry)"
    by (rule run_init [of 2]) (simp add: NewRegistry_def ex_registry_def numeral_2_eq_2)
  then have "run_reachable ((run_start (NewApiServer [] 8080) ex_registry)\<lparr>rs_pc := Acquiring\<rparr>)"
    by (rule run_next [OF _ select_default]) (simp_all add: run_start_def)
  moreover have "GetNextAvailable (\<lambda>i. Inr ()) None
      (rs_registry ((run_start (NewApiServer [] 8080) ex_registry)\<lparr>rs_pc := Acquiring\<rparr>)) = (Some (Inr (1, ())), ex_taken)"
    by (simp add: GetNextAvailable_def run_start_def ex_registry_def ex_taken_def)
  ultimately have "run_reachable ((run_start (NewApiServer [] 8080) ex_registry)\<lparr>rs_pc := Acquiring\<rparr>
      \<lparr>rs_registry := ex_taken, rs_pc := acquired (Inr (1, ()))\<rparr>)"
    by (intro run_next [OF _ acquire [of _ None]]) simp_all
  then show ?thesis by (simp add: acquired_def run_start_def)
qed

theorem sessions_have_owners_witness:
  "\<exists>sr. Registry_Release 1 ex_taken = (Ret True, sr)"
  using sessions_have_owners [OF ex_run_taken] by (simp add: held_def run_start_def)

lemma at_most_one_late_fetch_instance:
  "\<exists>s :: unit run_state. run_reachable s \<and> rs_late s = 1 \<and> rs_late s \<le> 1"
proof -
  let ?s = "(run_start (NewApiServer [] 8080) ex_taken)\<lparr>rs_pc := GotSession 1\<rparr>"
  have shut: "run_reachable (?s\<lparr>rs_done := [None]\<rparr>)"
    by (rule run_next [OF ex_run_taken shutdown]) (simp add: run_start_def)
  obtain s' where s': "run_step (\<lambda>i. Inr ()) (?s\<lparr>rs_done := [None]\<rparr>) s'" "rs_late s' = 1"
    using got_page [of "?s\<lparr>rs_done := [None]\<rparr>" 1 "\<lambda>i. Inr ()"] by (auto simp: run_start_def)
  from run_next [OF shut s'(1)] have "run_reachable s'" .
  with at_most_one_late_fetch [OF this] s'(2) show ?thesis by blast
qed

section \<open>What Run returns\<close>

text \<open>The errors \<open>Run\<close> ends with, \<open>None\<close> after \<open>Shutdown\<close>.\<close>

definition run_error :: "error option \<Rightarrow> bool" where
  "run_error e \<longleftrightarrow> e = None
     \<or> (\<exists>err. e = Some (Wrapped ''API server stopped: '' err))
     \<or> (\<exists>err. e = Some (Wrapped ''failed to get next session: '' (Some err)) \<and> err \<noteq> ContextCanceled)
     \<or> (\<exists>err. e = Some (Wrapped ''failed to get next page: '' (Some err))
          \<and> (\<forall>msg. err \<noteq> GrpcStatus NotFound msg))"

fun ended_with :: "run_pc \<Rightarrow> error option option" where
  "ended_with (LoopReturned e) = Some e"
| "ended_with (ClosingServer e) = Some e"
| "ended_with (Exited (Ret e)) = Some e"
| "ended_with pc = None"

text \<open>
  What ends the loop is one of these errors; the server exists once it has been started, and
  \<open>Run\<close> has returned a result only if it does.
\<close>

definition result_of_run_inv :: "'s run_state \<Rightarrow> bool" where
  "result_of_run_inv s \<longleftrightarrow>
     (\<forall>e. ended_with (rs_pc s) = Some e \<longrightarrow> run_error e)
     \<and> (\<forall>e \<in> set (rs_done s). run_error e)
     \<and> (\<forall>e. rs_pc s = Exited (Ret e) \<longrightarrow> as_grpcServer (rs_server s))
     \<and> (\<forall>p. rs_pc s = Exited (Panic p) \<longrightarrow> p = NilDereference)"

lemma ended_with_acquired: "ended_with (acquired r) = Some e \<Longrightarrow> run_error e"
  by (auto simp: acquired_def run_error_def split: sum.splits if_splits)

lemma ended_with_no_page: "ended_with (no_page err) = Some e \<Longrightarrow> run_error e"
  by (auto simp: no_page_def run_error_def split: error.splits grpc_code.splits)

lemma not_exited [simp]: "acquired r \<noteq> Exited x" "no_page err \<noteq> Exited x"
  by (auto simp: acquired_def no_page_def split: sum.splits error.splits grpc_code.splits)

lemma Start_keeps_server:
  "ApiServer_Start listen a = (err, a1) \<Longrightarrow> as_grpcServer a \<Longrightarrow> as_grpcServer a1"
  by (auto simp: ApiServer_Start_def split: sum.splits)

lemma result_of_run_step [inv_intros]:
  assumes "result_of_run_inv s" and "run_step New s s'"
  shows "result_of_run_inv s'"
  using assms(2)
proof cases
  case (acquire ctxErr r sr)
  then show ?thesis using assms(1) ended_with_acquired by (auto simp: result_of_run_inv_def)
next
  case (got_no_page i sr err)
  then show ?thesis using assms(1) ended_with_no_page by (auto simp: result_of_run_inv_def)
next
  case (api_start listen err a)
  then show ?thesis
    using assms(1) Start_keeps_server [OF api_start(3)] by (auto simp: result_of_run_inv_def)
next
  case (close_server e)
  then show ?thesis
    using assms(1) by (auto simp: result_of_run_inv_def ApiServer_Close_def)
qed (use assms(1) in \<open>auto simp: result_of_run_inv_def run_error_def\<close>)

lemma result_of_run: "run_reachable s \<Longrightarrow> result_of_run_inv s"
proof (induction rule: run_reachable.induct)
  case (run_init maxSessions sr listenInterface listenPort)
  then show ?case by (simp add: result_of_run_inv_def run_start_def)
qed (auto intro: inv_intros)

text \<open>
  C26 (error). \<open>Run\<close> returns nil or one of three errors: the API server stopped, no session
  could be had, or the frontier failed other than by having no page. It returns only when the API
  server had begun to listen; otherwise its last deferred call panics, and when listening has
  failed the error that ended the loop is lost.
\<close>

theorem Run_result:
  assumes "run_reachable s" and "rs_pc s = Exited r"
  shows "(\<forall>e. r = Ret e \<longrightarrow> run_error e \<and> as_grpcServer (rs_server s))
    \<and> (\<forall>p. r = Panic p \<longrightarrow> p = NilDereference)"
  using result_of_run [OF assms(1)] assms(2) by (auto simp: result_of_run_inv_def)

text \<open>A port that is taken: the loop ends with the error of listening, and \<open>Run\<close> panics.\<close>

lemma listen_failure_panics:
  "\<exists>s :: unit run_state. run_reachable s \<and> rs_pc s = Exited (Panic NilDereference)
     \<and> \<not> as_grpcServer (rs_server s) \<and> rs_api s = ErrorSent"
proof -
  let ?e = "Wrapped ''failed to start API server: '' (Some EOF)"
  let ?err = "Some (Wrapped ''API server stopped: '' (Some ?e))"
  let ?s0 = "run_start (NewApiServer [] 8080) \<lparr>sr_sessions = [None], sr_pool = [], sr_wg = 0\<rparr> :: unit run_state"
  let ?s1 = "?s0\<lparr>rs_api := StartFailed ?e\<rparr>"
  let ?s2 = "?s1\<lparr>rs_done := [?err], rs_api := ErrorSent\<rparr>"
  let ?s3 = "?s2\<lparr>rs_done := [], rs_pc := LoopReturned ?err\<rparr>"
  let ?s4 = "?s3\<lparr>rs_pc := ClosingServer ?err\<rparr>"
  have "run_reachable ?s0" by (rule run_init [of 1]) (simp add: NewRegistry_def)
  moreover have "run_step New ?s0 ?s1"
    using api_start [of ?s0 "\<lambda>a. Inl EOF" "Some ?e" "NewApiServer [] 8080" New]
    by (simp add: run_start_def ApiServer_Start_def api_started_def)
  ultimately have "run_reachable ?s1" by (rule run_next)
  moreover have "run_step New ?s1 ?s2" by (rule api_start_error) (simp_all add: run_start_def)
  ultimately have "run_reachable ?s2" by (rule run_next)
  moreover have "run_step New ?s2 ?s3" by (rule select_done) (simp_all add: run_start_def)
  ultimately have "run_reachable ?s3" by (rule run_next)
  moreover have "run_step New ?s3 ?s4"
    by (rule close_wait [of _ _ False]) (simp_all add: run_start_def CloseWait_def)
  ultimately have "run_reachable ?s4" by (rule run_next)
  moreover have "run_step New ?s4 (?s4\<lparr>rs_pc := Exited (Panic NilDereference)\<rparr>)"
    using close_server [of ?s4 ?err New] by (simp add: run_start_def ApiServer_Close_def NewApiServer_def)
  ultimately have "run_reachable (?s4\<lparr>rs_pc := Exited (Panic NilDereference)\<rparr>)" by (rule run_next)
  then show ?thesis
    by (intro exI [of _ "?s4\<lparr>rs_pc := Exited (Panic NilDereference)\<rparr>"])
      (simp add: run_start_def NewApiServer_def)
qed

theorem Run_result_witness:
  "\<exists>(s :: unit run_state) p. run_reachable s \<and> rs_pc s = Exited (Panic p)
     \<and> p = NilDereference"
  using listen_failure_panics Run_result by fast

section \<open>The sessions of a run\<close>

text \<open>The session in a slot is the one \<open>New\<close> makes for the id of the slot.\<close>

definition slots_made :: "(nat \<Rightarrow> error + 's) \<Rightarrow> nat \<Rightarrow> 's run_state \<Rightarrow> bool" where
  "slots_made New n s \<longleftrightarrow> length (sr_sessions (rs_registry s)) = n
     \<and> (\<forall>i < n. \<forall>sess. sr_sessions (rs_registry s) ! i = Some sess \<longrightarrow> New i = Inr sess)"

lemma GetNextAvailable_made:
  assumes "GetNextAvailable New ctxErr sr = (r, sr1)" and "i < length (sr_sessions sr)"
    and "sr_sessions sr1 ! i = Some sess"
  shows "sr_sessions sr ! i = Some sess \<or> New i = Inr sess"
  using assms
  by (auto simp: GetNextAvailable_def Let_def split: option.splits list.splits sum.splits)
    (metis nth_list_update_eq nth_list_update_neq option.inject)

lemma Release_made:
  assumes "Registry_Release j sr = (r, sr1)"
  shows "length (sr_sessions sr1) = length (sr_sessions sr)
    \<and> (i < length (sr_sessions sr) \<longrightarrow> sr_sessions sr1 ! i = Some sess \<longrightarrow> sr_sessions sr ! i = Some sess)"
  using assms by (auto simp: Registry_Release_def Let_def nth_list_update split: if_splits)

lemma slots_made_step:
  assumes "slots_made New n s" and "run_step New s s'"
  shows "slots_made New n s'"
  using assms(2)
proof cases
  case (acquire ctxErr r sr)
  then show ?thesis
    using assms(1) GetNextAvailable_made [OF acquire(4)] GetNextAvailable_frame [OF acquire(4)]
    by (auto simp: slots_made_def)
next
  case (got_no_page i sr err)
  then show ?thesis using assms(1) Release_made [OF got_no_page(3)] by (auto simp: slots_made_def)
next
  case (fetched i sr)
  then show ?thesis using assms(1) Release_made [OF fetched(3)] by (auto simp: slots_made_def)
qed (use assms(1) in \<open>auto simp: slots_made_def\<close>)

lemma slots_made_run:
  assumes "(run_step New)\<^sup>*\<^sup>* (run_start server sr) s" and "NewRegistry maxSessions = Ret sr"
  shows "slots_made New (nat maxSessions) s"
  using assms(1)
proof (induction rule: rtranclp_induct)
  case base
  then show ?case
    using assms(2) by (auto simp: slots_made_def run_start_def NewRegistry_def split: if_splits)
qed (rule slots_made_step)

lemma run_reachable_from:
  assumes "(run_step New)\<^sup>*\<^sup>* (run_start (NewApiServer i p) sr) s" and "NewRegistry maxSessions = Ret sr"
  shows "run_reachable s"
  using assms(1)
  by (induction rule: rtranclp_induct) (auto intro: run_init [OF assms(2)] run_next)

end
