(* ===== verification/Go_Time.thy ===== *)
theory Go_Time
  imports Prelude "HOL-Library.Monad_Syntax"
begin

text \<open>
  What the database codec uses of Go's package \<open>time\<close>: \<open>time.Parse\<close> with the layout
  \<open>time.RFC3339Nano\<close> and the text that \<open>json.Marshal\<close> gives a time. A time is its civil date
  and clock in a zone that is an offset from UTC in minutes, as both functions treat it.
\<close>

section \<open>Times\<close>

record gotime =
  t_year :: nat
  t_month :: nat
  t_day :: nat
  t_hour :: nat
  t_minute :: nat
  t_second :: nat
  t_nsec :: nat
  t_offset :: int

definition leap_year :: "nat \<Rightarrow> bool" where
  "leap_year y \<longleftrightarrow> 4 dvd y \<and> (\<not> 100 dvd y \<or> 400 dvd y)"

definition days_in :: "nat \<Rightarrow> nat \<Rightarrow> nat" where
  "days_in month year =
     (if month = 2 then (if leap_year year then 29 else 28)
      else if month \<in> {4, 6, 9, 11} then 30 else 31)"

text \<open>The fields of a time that a text can stand for.\<close>

definition civil :: "gotime \<Rightarrow> bool" where
  "civil t \<longleftrightarrow> t_year t < 10000 \<and> 1 \<le> t_month t \<and> t_month t \<le> 12
     \<and> 1 \<le> t_day t \<and> t_day t \<le> days_in (t_month t) (t_year t)
     \<and> t_hour t < 24 \<and> t_minute t < 60 \<and> t_second t < 60 \<and> t_nsec t < 1000000000"

text \<open>A zone whose hours a text of RFC 3339 can hold.\<close>

definition strict_zone :: "gotime \<Rightarrow> bool" where
  "strict_zone t \<longleftrightarrow> \<bar>t_offset t\<bar> < 24 * 60"

section \<open>Numbers of a fixed width\<close>

definition digit :: "nat \<Rightarrow> char" where
  "digit d = char_of (48 + d)"

definition digit_value :: "char \<Rightarrow> nat" where
  "digit_value c = of_char c - 48"

definition is_digit :: "char \<Rightarrow> bool" where
  "is_digit c \<longleftrightarrow> 48 \<le> (of_char c :: nat) \<and> (of_char c :: nat) \<le> 57"

lemma digit_simps [simp]:
  "d < 10 \<Longrightarrow> is_digit (digit d)"
  "d < 10 \<Longrightarrow> digit_value (digit d) = d"
  by (simp_all add: is_digit_def digit_def digit_value_def)

lemma digit_zero [simp]: "d < 10 \<Longrightarrow> digit d = CHR ''0'' \<longleftrightarrow> d = 0"
proof -
  have "(48 + 0 :: nat) = of_char (CHR ''0'')" by simp
  then have "CHR ''0'' = char_of (48 + 0 :: nat)" by (simp only: char_of_char)
  then show "d < 10 \<Longrightarrow> digit d = CHR ''0'' \<longleftrightarrow> d = 0"
    using digit_inject [of d 0] by (simp only: digit_def)
qed

lemma digit_eq: "of_char c = 48 + d \<Longrightarrow> digit d = c"
  unfolding digit_def by (metis char_of_char)

lemma digit_table [simp]:
  "digit 0 = CHR ''0''" "digit 1 = CHR ''1''" "digit (Suc 0) = CHR ''1''" "digit 2 = CHR ''2''"
  "digit 3 = CHR ''3''" "digit 4 = CHR ''4''" "digit 5 = CHR ''5''" "digit 6 = CHR ''6''"
  "digit 7 = CHR ''7''" "digit 8 = CHR ''8''" "digit 9 = CHR ''9''"
  by (rule digit_eq, simp)+

fun digits :: "nat \<Rightarrow> nat \<Rightarrow> string" where
  "digits 0 n = []"
| "digits (Suc k) n = digits k (n div 10) @ [digit (n mod 10)]"

fun number :: "nat \<Rightarrow> string \<Rightarrow> nat" where
  "number acc [] = acc"
| "number acc (c # cs) = number (10 * acc + digit_value c) cs"

text \<open>The first \<open>k\<close> characters, which must be digits, as a number, and the rest.\<close>

definition take_digits :: "nat \<Rightarrow> string \<Rightarrow> (nat \<times> string) option" where
  "take_digits k s =
     (if k \<le> length s \<and> list_all is_digit (take k s) then Some (number 0 (take k s), drop k s)
      else None)"

lemma digits_numeral:
  "digits (numeral k) n = digits (pred_numeral k) (n div 10) @ [digit (n mod 10)]"
  by (simp only: numeral_eq_Suc [of k] digits.simps)

lemma length_digits [simp]: "length (digits k n) = k"
  by (induction k arbitrary: n) auto

lemma digits_are_digits [simp]: "list_all is_digit (digits k n)"
  by (induction k arbitrary: n) auto

lemma number_append [simp]: "number acc (s @ [c]) = 10 * number acc s + digit_value c"
  by (induction s arbitrary: acc) auto

lemma number_digits: "n < 10 ^ k \<Longrightarrow> number 0 (digits k n) = n"
proof (induction k arbitrary: n)
  case 0
  then show ?case by simp
next
  case (Suc k)
  then have "number 0 (digits k (n div 10)) = n div 10" by (intro Suc.IH) auto
  then show ?case by simp
qed

lemma take_digits_digits [simp]:
  "n < 10 ^ k \<Longrightarrow> take_digits k (digits k n @ s) = Some (n, s)"
  by (simp add: take_digits_def number_digits)

lemma take_digits_Some:
  "take_digits k s = Some (n, r) \<Longrightarrow> length r = length s - k"
  by (auto simp: take_digits_def split: if_splits)

section \<open>Fractions of a second\<close>

text \<open>Nine digits without the zeros at the end; up to nine digits as nanoseconds.\<close>

definition trim_zeros :: "string \<Rightarrow> string" where
  "trim_zeros s = rev (dropWhile (\<lambda>c. c = CHR ''0'') (rev s))"

definition nanos :: "string \<Rightarrow> nat" where
  "nanos ds = number 0 (take 9 ds) * 10 ^ (9 - length (take 9 ds))"

lemma trim_zeros_split: "\<exists>z. s = trim_zeros s @ replicate z (CHR ''0'')"
proof -
  let ?P = "\<lambda>c. c = CHR ''0''"
  have "takeWhile ?P (rev s) = replicate (length (takeWhile ?P (rev s))) (CHR ''0'')"
    by (intro replicate_eqI) (auto dest: set_takeWhileD)
  then have "rev s = replicate (length (takeWhile ?P (rev s))) (CHR ''0'') @ dropWhile ?P (rev s)"
    by (metis takeWhile_dropWhile_id)
  then have "s = trim_zeros s @ replicate (length (takeWhile ?P (rev s))) (CHR ''0'')"
    unfolding trim_zeros_def by (metis rev_append rev_replicate rev_rev_ident)
  then show ?thesis ..
qed

lemma number_zeros: "number 0 (s @ replicate z (CHR ''0'')) = number 0 s * 10 ^ z"
proof (induction z)
  case 0
  then show ?case by simp
next
  case (Suc z)
  have "number 0 (s @ replicate (Suc z) (CHR ''0'')) = 10 * number 0 (s @ replicate z (CHR ''0''))"
    using number_append [of 0 "s @ replicate z (CHR ''0'')" "CHR ''0''"]
    by (simp add: digit_value_def replicate_append_same)
  then show ?case using Suc by simp
qed

lemma nanos_trimmed:
  assumes "n < 10 ^ 9"
  shows "nanos (trim_zeros (digits 9 n)) = n"
proof -
  obtain z where z: "digits 9 n = trim_zeros (digits 9 n) @ replicate z (CHR ''0'')"
    using trim_zeros_split by blast
  then have len: "length (trim_zeros (digits 9 n)) + z = 9"
    by (metis length_append length_digits length_replicate)
  have "n = number 0 (trim_zeros (digits 9 n) @ replicate z (CHR ''0''))"
    using z number_digits [OF assms] by simp
  also have "\<dots> = number 0 (trim_zeros (digits 9 n)) * 10 ^ z" by (rule number_zeros)
  finally have "n = number 0 (trim_zeros (digits 9 n)) * 10 ^ z" .
  moreover have "take 9 (trim_zeros (digits 9 n)) = trim_zeros (digits 9 n)"
    "9 - length (trim_zeros (digits 9 n)) = z"
    using len by simp_all
  ultimately show ?thesis unfolding nanos_def by metis
qed

section \<open>Parsing\<close>

fun skip_char :: "char \<Rightarrow> string \<Rightarrow> string option" where
  "skip_char c [] = None"
| "skip_char c (d # s) = (if c = d then Some s else None)"

text \<open>An hour may have one digit; the other numbers have all theirs.\<close>

definition take_hour :: "string \<Rightarrow> (nat \<times> string) option" where
  "take_hour s = (case take_digits 2 s of Some r \<Rightarrow> Some r | None \<Rightarrow> take_digits 1 s)"

text \<open>
  A fraction, after a point or a comma, may be left out and have any number of digits, of
  which nine count.
\<close>

definition take_fraction :: "string \<Rightarrow> nat \<times> string" where
  "take_fraction s =
     (case s of
        c # d # r \<Rightarrow>
          if (c = CHR ''.'' \<or> c = CHR '','') \<and> is_digit d
          then (nanos (takeWhile is_digit (d # r)), dropWhile is_digit (d # r))
          else (0, s)
      | _ \<Rightarrow> (0, s))"

text \<open>\<open>Z\<close>, or a sign, hours up to 24 and minutes up to 60.\<close>

definition take_zone :: "string \<Rightarrow> (int \<times> string) option" where
  "take_zone s =
     (case s of
        [] \<Rightarrow> None
      | c # r \<Rightarrow>
          if c = CHR ''Z'' then Some (0, r)
          else if c = CHR ''+'' \<or> c = CHR ''-'' then do {
            (h, r1) \<leftarrow> take_digits 2 r;
            r2 \<leftarrow> skip_char (CHR '':'') r1;
            (m, r3) \<leftarrow> take_digits 2 r2;
            (if h \<le> 24 \<and> m \<le> 60
             then Some ((if c = CHR ''-'' then - 1 else 1) * int (h * 60 + m), r3) else None)
          } else None)"

definition take_date :: "string \<Rightarrow> ((nat \<times> nat \<times> nat) \<times> string) option" where
  "take_date s = do {
     (y, s1) \<leftarrow> take_digits 4 s;
     s2 \<leftarrow> skip_char (CHR ''-'') s1;
     (mo, s3) \<leftarrow> take_digits 2 s2;
     s4 \<leftarrow> skip_char (CHR ''-'') s3;
     (d, s5) \<leftarrow> take_digits 2 s4;
     Some ((y, mo, d), s5) }"

definition take_clock :: "string \<Rightarrow> ((nat \<times> nat \<times> nat) \<times> string) option" where
  "take_clock s = do {
     (h, s1) \<leftarrow> take_hour s;
     s2 \<leftarrow> skip_char (CHR '':'') s1;
     (mi, s3) \<leftarrow> take_digits 2 s2;
     s4 \<leftarrow> skip_char (CHR '':'') s3;
     (sec, s5) \<leftarrow> take_digits 2 s4;
     Some ((h, mi, sec), s5) }"

definition ParseRFC3339Nano :: "string \<Rightarrow> gotime option" where
  "ParseRFC3339Nano s = do {
     ((y, mo, d), s1) \<leftarrow> take_date s;
     s2 \<leftarrow> skip_char (CHR ''T'') s1;
     ((h, mi, sec), s3) \<leftarrow> take_clock s2;
     (off, s4) \<leftarrow> take_zone (snd (take_fraction s3));
     (let t = \<lparr>t_year = y, t_month = mo, t_day = d, t_hour = h, t_minute = mi, t_second = sec,
               t_nsec = fst (take_fraction s3), t_offset = off\<rparr>
      in if s4 = [] \<and> civil t then Some t else None) }"

section \<open>Printing\<close>

definition format_fraction :: "nat \<Rightarrow> string" where
  "format_fraction n = (if n = 0 then [] else CHR ''.'' # trim_zeros (digits 9 n))"

definition format_zone :: "int \<Rightarrow> string" where
  "format_zone off =
     (if off = 0 then ''Z''
      else (if off < 0 then CHR ''-'' else CHR ''+'')
        # digits 2 (nat \<bar>off\<bar> div 60) @ CHR '':'' # digits 2 (nat \<bar>off\<bar> mod 60))"

definition FormatRFC3339Nano :: "gotime \<Rightarrow> string" where
  "FormatRFC3339Nano t =
     digits 4 (t_year t) @ CHR ''-'' # digits 2 (t_month t) @ CHR ''-'' # digits 2 (t_day t)
     @ CHR ''T'' # digits 2 (t_hour t) @ CHR '':'' # digits 2 (t_minute t) @ CHR '':''
     # digits 2 (t_second t) @ format_fraction (t_nsec t) @ format_zone (t_offset t)"

text \<open>\<open>Time.MarshalJSON\<close>: the text, or \<open>None\<close> for an error when the zone has too many hours.\<close>

definition time_MarshalJSON :: "gotime \<Rightarrow> string option" where
  "time_MarshalJSON t = (if strict_zone t then Some (FormatRFC3339Nano t) else None)"

section \<open>Round trip\<close>

lemma days_in_le: "days_in m y \<le> 31"
  by (simp add: days_in_def)

lemma take_date_format:
  assumes "civil t"
  shows "take_date (digits 4 (t_year t) @ CHR ''-'' # digits 2 (t_month t) @ CHR ''-''
      # digits 2 (t_day t) @ s) = Some ((t_year t, t_month t, t_day t), s)"
proof -
  have "t_day t < 10 ^ 2"
    using assms days_in_le [of "t_month t" "t_year t"] by (simp add: civil_def)
  with assms show ?thesis by (simp add: take_date_def civil_def del: digits.simps)
qed

lemma take_clock_format:
  assumes "civil t"
  shows "take_clock (digits 2 (t_hour t) @ CHR '':'' # digits 2 (t_minute t) @ CHR '':''
      # digits 2 (t_second t) @ s) = Some ((t_hour t, t_minute t, t_second t), s)"
  using assms by (simp add: take_clock_def take_hour_def civil_def del: digits.simps)

lemma take_zone_format:
  assumes "\<bar>off\<bar> < 24 * 60"
  shows "take_zone (format_zone off) = Some (off, [])"
proof (cases "off = 0")
  case False
  define h m where "h = nat \<bar>off\<bar> div 60" and "m = nat \<bar>off\<bar> mod 60"
  have hm: "h < 24" "m < 60" "h * 60 + m = nat \<bar>off\<bar>"
    using assms by (auto simp: h_def m_def less_mult_imp_div_less nat_less_iff)
  have m: "take_digits 2 (digits 2 m) = Some (m, [])"
    using take_digits_digits [of m 2 "[]"] hm by (simp del: digits.simps take_digits_digits)
  show ?thesis
    using hm False m
    by (auto simp: take_zone_def format_zone_def h_def [symmetric] m_def [symmetric]
        simp del: digits.simps of_nat_add of_nat_mult)
qed (simp add: take_zone_def format_zone_def)

lemma zone_start:
  "\<exists>c r. format_zone off = c # r \<and> \<not> is_digit c \<and> c \<noteq> CHR ''.'' \<and> c \<noteq> CHR '',''"
  by (auto simp: format_zone_def is_digit_def)

lemma trim_zeros_digits:
  assumes "0 < n" and "n < 10 ^ 9"
  shows "\<exists>d r. trim_zeros (digits 9 n) = d # r \<and> list_all is_digit (d # r)"
proof -
  obtain z where z: "digits 9 n = trim_zeros (digits 9 n) @ replicate z (CHR ''0'')"
    using trim_zeros_split by blast
  then have "list_all is_digit (trim_zeros (digits 9 n))"
    using digits_are_digits [of 9 n] by (metis list_all_append)
  moreover have "trim_zeros (digits 9 n) \<noteq> []"
    using nanos_trimmed [OF assms(2)] assms(1) by (auto simp: nanos_def)
  ultimately show ?thesis by (cases "trim_zeros (digits 9 n)") auto
qed

lemma take_fraction_format:
  assumes "n < 10 ^ 9"
  shows "take_fraction (format_fraction n @ format_zone off) = (n, format_zone off)"
proof -
  obtain c r where c: "format_zone off = c # r" "\<not> is_digit c" "c \<noteq> CHR ''.''" "c \<noteq> CHR '',''"
    using zone_start by blast
  show ?thesis
  proof (cases "n = 0")
    case True
    then show ?thesis using c by (auto simp: take_fraction_def format_fraction_def split: list.splits)
  next
    case False
    then obtain d ds where d: "trim_zeros (digits 9 n) = d # ds" "is_digit d" "list_all is_digit ds"
      using trim_zeros_digits [OF _ assms] by auto
    have "takeWhile is_digit (ds @ c # r) = ds" "dropWhile is_digit (ds @ c # r) = c # r"
      using d(3) c(2) by (induction ds) auto
    then show ?thesis
      using False d(1,2) c nanos_trimmed [OF assms]
      by (simp add: take_fraction_def format_fraction_def)
  qed
qed

text \<open>Parsing gives back every time that a strict text can hold.\<close>

lemma Parse_Format:
  assumes "civil t" and "strict_zone t"
  shows "ParseRFC3339Nano (FormatRFC3339Nano t) = Some t"
proof -
  have "t_nsec t < 10 ^ 9" using assms(1) by (simp add: civil_def)
  moreover have "civil \<lparr>t_year = t_year t, t_month = t_month t, t_day = t_day t, t_hour = t_hour t,
      t_minute = t_minute t, t_second = t_second t, t_nsec = t_nsec t, t_offset = t_offset t\<rparr>"
    using assms(1) by (cases t) simp
  ultimately show ?thesis
    using assms take_zone_format [of "t_offset t"]
    by (simp add: ParseRFC3339Nano_def FormatRFC3339Nano_def take_date_format take_clock_format
        take_fraction_format strict_zone_def Let_def)
qed

lemma Parse_civil: "ParseRFC3339Nano s = Some t \<Longrightarrow> civil t"
  by (auto simp: ParseRFC3339Nano_def Let_def bind_eq_Some_conv split: if_splits prod.splits)

end
