(* ===== verification/Codec.thy ===== *)
theory Codec
  imports Script_Run Go_Time
begin

text \<open>
  \<^verbatim>\<open>database/codec.go\<close>: how configuration objects and crawl execution statuses are turned into
  the values the database driver stores, and back. The protocol-buffer library and the
  driver's \<open>encoding.Encode\<close> are outside; JSON texts are modelled by the values they denote.
\<close>

section \<open>Values\<close>

text \<open>
  A Go value of the kinds \<open>json.Unmarshal\<close> makes, or a \<open>time.Time\<close>. A map is the list of its
  entries, in the order in which it is ranged over; no key occurs twice. A number is its text.
\<close>

datatype goval =
    GNull
  | GBool bool
  | GNum string
  | GStr string
  | GTime gotime
  | GArr "goval list"
  | GMap "(string \<times> goval) list"

text \<open>\<open>json.Unmarshal\<close> into an \<open>interface{}\<close>, and into a nil map.\<close>

fun json_value :: "json \<Rightarrow> goval" where
  "json_value JNull = GNull"
| "json_value (JBool b) = GBool b"
| "json_value (JNum n) = GNum n"
| "json_value (JStr s) = GStr s"
| "json_value (JArr xs) = GArr (map json_value xs)"
| "json_value (JObj kvs) = GMap (map (\<lambda>(k, v). (k, json_value v)) kvs)"

fun json_Unmarshal_map :: "json \<Rightarrow> error + (string \<times> goval) list" where
  "json_Unmarshal_map JNull = Inr []"
| "json_Unmarshal_map (JObj kvs) = Inr (map (\<lambda>(k, v). (k, json_value v)) kvs)"
| "json_Unmarshal_map j = Inl (PlainError ''json: cannot unmarshal value into Go value of type map'')"

text \<open>\<open>json.Marshal\<close>: the first value that cannot be marshalled makes it fail.\<close>

fun all_ok :: "('e + 'a) list \<Rightarrow> 'e + 'a list" where
  "all_ok [] = Inr []"
| "all_ok (Inl e # rs) = Inl e"
| "all_ok (Inr x # rs) = map_sum id (\<lambda>xs. x # xs) (all_ok rs)"

fun json_Marshal :: "goval \<Rightarrow> error + json" where
  "json_Marshal GNull = Inr JNull"
| "json_Marshal (GBool b) = Inr (JBool b)"
| "json_Marshal (GNum n) = Inr (JNum n)"
| "json_Marshal (GStr s) = Inr (JStr s)"
| "json_Marshal (GTime t) =
     (case time_MarshalJSON t of
        None \<Rightarrow> Inl (PlainError ''json: error calling MarshalJSON for type time.Time'')
      | Some s \<Rightarrow> Inr (JStr s))"
| "json_Marshal (GArr xs) = map_sum id JArr (all_ok (map json_Marshal xs))"
| "json_Marshal (GMap m) =
     map_sum id JObj (all_ok (map (\<lambda>(k, v). map_sum id (Pair k) (json_Marshal v)) m))"

lemma all_ok_map_Inr [simp]: "all_ok (map (\<lambda>x. Inr (f x)) xs) = Inr (map f xs)"
  by (induction xs) auto

lemma all_ok_map:
  "(\<And>x. x \<in> set xs \<Longrightarrow> f x = Inr (g x)) \<Longrightarrow> all_ok (map f xs) = Inr (map g xs)"
  by (induction xs) auto

section \<open>The encoders and decoders\<close>

text \<open>
  The encoder registered for \<open>map[string]interface{}\<close>: a string that reads as a time is
  replaced by that time, any other value by what \<open>Encode\<close>, the argument, makes of it.
\<close>

definition encode_member :: "(goval \<Rightarrow> error + goval) \<Rightarrow> goval \<Rightarrow> error + goval" where
  "encode_member Encode v =
     (case v of
        GStr t \<Rightarrow> (case ParseRFC3339Nano t of Some ti \<Rightarrow> Inr (GTime ti) | None \<Rightarrow> Encode v)
      | _ \<Rightarrow> Encode v)"

fun encode_map ::
  "(goval \<Rightarrow> error + goval) \<Rightarrow> (string \<times> goval) list \<Rightarrow> error + (string \<times> goval) list" where
  "encode_map Encode [] = Inr []"
| "encode_map Encode ((k, v) # m) =
     (case encode_member Encode v of
        Inl err \<Rightarrow> Inl err
      | Inr v1 \<Rightarrow> map_sum id (\<lambda>m1. (k, v1) # m1) (encode_map Encode m))"

text \<open>\<open>value.Set(reflect.ValueOf(encoded))\<close>: a decoded map is the stored value as it is.\<close>

definition decode_map :: "goval \<Rightarrow> goval" where
  "decode_map encoded = encoded"

text \<open>
  \<open>marshal\<close> is \<open>protojson.Marshal\<close>; \<open>unmarshal\<close> is \<open>protojson.Unmarshal\<close> with its two options,
  whether a required field may be missing and whether unknown fields are dropped.
\<close>

definition encodeProtoMessage ::
  "('m \<Rightarrow> error + json) \<Rightarrow> (goval \<Rightarrow> error + goval) \<Rightarrow> 'm \<Rightarrow> error + goval" where
  "encodeProtoMessage marshal Encode value =
     (case marshal value of
        Inl err \<Rightarrow> Inl (Wrapped ''error decoding ConfigObject: '' (Some err))
      | Inr b \<Rightarrow>
          (case json_Unmarshal_map b of
             Inl err \<Rightarrow> Inl (Wrapped ''error encoding proto message: '' (Some err))
           | Inr m \<Rightarrow> Encode (GMap m)))"

definition decodeConfigObject ::
  "(bool \<Rightarrow> bool \<Rightarrow> json \<Rightarrow> error + 'm) \<Rightarrow> goval \<Rightarrow> error + 'm" where
  "decodeConfigObject unmarshal encoded =
     (case json_Marshal encoded of
        Inl err \<Rightarrow> Inl (Wrapped ''error decoding ConfigObject: '' (Some err))
      | Inr b \<Rightarrow>
          (case unmarshal True True b of
             Inl err \<Rightarrow> Inl (Wrapped ''error decoding ConfigObject: '' (Some err))
           | Inr co \<Rightarrow> Inr co))"

definition decodeCrawlExecutionStatus ::
  "(bool \<Rightarrow> bool \<Rightarrow> json \<Rightarrow> error + 'm) \<Rightarrow> (error \<Rightarrow> string) \<Rightarrow> goval \<Rightarrow> error + 'm" where
  "decodeCrawlExecutionStatus unmarshal err_text encoded =
     (case json_Marshal encoded of
        Inl err \<Rightarrow> Inl (PlainError (''error decoding CrawlExecutionStatus: '' @ err_text err))
      | Inr b \<Rightarrow>
          (case unmarshal False False b of
             Inl err \<Rightarrow> Inl (PlainError (''error decoding CrawlExecutionStatus: '' @ err_text err))
           | Inr co \<Rightarrow> Inr co))"

section \<open>The driver's encoding\<close>

text \<open>
  \<open>encoding.Encode\<close> of the driver, as documented: it uses the encoder registered for the type
  of a value, leaves values of basic types as they are, and encodes a slice by its elements.
\<close>

locale type_encoding =
  fixes Encode :: "goval \<Rightarrow> error + goval"
  assumes registered: "Encode (GMap m) = map_sum id GMap (encode_map Encode m)"
    and slice: "Encode (GArr xs) = map_sum id GArr (all_ok (map Encode xs))"
    and basic: "Encode GNull = Inr GNull" "Encode (GBool b) = Inr (GBool b)"
      "Encode (GNum n) = Inr (GNum n)" "Encode (GStr s) = Inr (GStr s)"

text \<open>What is stored for a value: times in the place of the members that read as times.\<close>

definition date_member :: "(goval \<Rightarrow> goval) \<Rightarrow> goval \<Rightarrow> goval" where
  "date_member f v =
     (case v of GStr s \<Rightarrow> (case ParseRFC3339Nano s of Some t \<Rightarrow> GTime t | None \<Rightarrow> f v) | _ \<Rightarrow> f v)"

lemma date_member_cong [fundef_cong]:
  "v = w \<Longrightarrow> f w = g w \<Longrightarrow> date_member f v = date_member g w"
  by (auto simp: date_member_def split: goval.splits option.splits)

fun stored :: "goval \<Rightarrow> goval" where
  "stored (GArr xs) = GArr (map stored xs)"
| "stored (GMap m) = GMap (map (\<lambda>(k, v). (k, date_member stored v)) m)"
| "stored v = v"

lemma encode_member_stored:
  "Encode v = Inr (stored v) \<Longrightarrow> encode_member Encode v = Inr (date_member stored v)"
  by (auto simp: encode_member_def date_member_def split: goval.splits option.splits)

lemma encode_map_stored:
  assumes "\<And>k v. (k, v) \<in> set m \<Longrightarrow> Encode v = Inr (stored v)"
  shows "encode_map Encode m = Inr (map (\<lambda>(k, v). (k, date_member stored v)) m)"
  using assms
proof (induction m)
  case (Cons kv m)
  obtain k v where kv: "kv = (k, v)" by (cases kv)
  have "encode_member Encode v = Inr (date_member stored v)"
    using Cons.prems kv by (intro encode_member_stored) auto
  moreover have "encode_map Encode m = Inr (map (\<lambda>(k, v). (k, date_member stored v)) m)"
    by (rule Cons.IH) (use Cons.prems in auto)
  ultimately show ?case by (simp add: kv)
qed simp

context type_encoding
begin

lemma Encode_document: "Encode (json_value j) = Inr (stored (json_value j))"
proof (induction j)
  case (JArr xs)
  then have "all_ok (map Encode (map json_value xs)) = Inr (map stored (map json_value xs))"
    by (intro all_ok_map) auto
  then show ?case by (simp add: slice del: map_map)
next
  case (JObj kvs)
  then have "Encode v = Inr (stored v)" if "(k, v) \<in> set (map (\<lambda>(k, v). (k, json_value v)) kvs)"
    for k v using that by fastforce
  then have "encode_map Encode (map (\<lambda>(k, v). (k, json_value v)) kvs)
      = Inr (map (\<lambda>(k, v). (k, date_member stored v)) (map (\<lambda>(k, v). (k, json_value v)) kvs))"
    by (rule encode_map_stored)
  then show ?case by (simp add: registered)
qed (simp_all add: basic)

end

text \<open>The driver with the three types registered by \<open>init\<close>, on the values of a document.\<close>

definition driver_Encode :: "goval \<Rightarrow> error + goval" where
  "driver_Encode v = Inr (stored v)"

interpretation driver: type_encoding driver_Encode
proof unfold_locales
  show "driver_Encode (GArr xs) = map_sum id GArr (all_ok (map driver_Encode xs))" for xs
  proof -
    have "all_ok (map driver_Encode xs) = Inr (map stored xs)"
      by (simp add: driver_Encode_def [abs_def])
    then show ?thesis by (simp add: driver_Encode_def)
  qed
qed (simp_all add: driver_Encode_def encode_map_stored)

section \<open>What comes back\<close>

text \<open>
  The document a stored value is read back as: members that read as times are written in the
  normal form of the time.
\<close>

definition normal_member :: "(json \<Rightarrow> json) \<Rightarrow> json \<Rightarrow> json" where
  "normal_member f j =
     (case j of
        JStr s \<Rightarrow> (case ParseRFC3339Nano s of Some t \<Rightarrow> JStr (FormatRFC3339Nano t) | None \<Rightarrow> j)
      | _ \<Rightarrow> f j)"

lemma normal_member_cong [fundef_cong]:
  "j = j' \<Longrightarrow> f j' = g j' \<Longrightarrow> normal_member f j = normal_member g j'"
  by (auto simp: normal_member_def split: json.splits option.splits)

fun normal :: "json \<Rightarrow> json" where
  "normal (JArr xs) = JArr (map normal xs)"
| "normal (JObj kvs) = JObj (map (\<lambda>(k, j). (k, normal_member normal j)) kvs)"
| "normal j = j"

text \<open>All members of objects, at any depth, satisfy \<open>P\<close>.\<close>

fun all_members :: "(string \<Rightarrow> bool) \<Rightarrow> json \<Rightarrow> bool" where
  "all_members P (JArr xs) = list_all (all_members P) xs"
| "all_members P (JObj kvs) = list_all (\<lambda>(k, j). (\<forall>s. j = JStr s \<longrightarrow> P s) \<and> all_members P j) kvs"
| "all_members P j = True"

definition strict_date :: "string \<Rightarrow> bool" where
  "strict_date s = (case ParseRFC3339Nano s of None \<Rightarrow> True | Some t \<Rightarrow> strict_zone t)"

definition canonical_date :: "string \<Rightarrow> bool" where
  "canonical_date s = (case ParseRFC3339Nano s of None \<Rightarrow> True
     | Some t \<Rightarrow> strict_zone t \<and> FormatRFC3339Nano t = s)"

lemma all_members_mono:
  "(\<And>s. P s \<Longrightarrow> Q s) \<Longrightarrow> all_members P j \<Longrightarrow> all_members Q j"
  by (induction P j rule: all_members.induct) (auto simp: list_all_iff)

lemma canonical_strict: "all_members canonical_date j \<Longrightarrow> all_members strict_date j"
  by (erule all_members_mono [rotated])
    (auto simp: canonical_date_def strict_date_def split: option.splits)

lemma json_Marshal_member:
  assumes "json_Marshal (stored (json_value j)) = Inr (normal j)" and "\<forall>s. j = JStr s \<longrightarrow> strict_date s"
  shows "json_Marshal (date_member stored (json_value j)) = Inr (normal_member normal j)"
  using assms
  by (cases j)
    (auto simp: date_member_def normal_member_def strict_date_def time_MarshalJSON_def
      split: option.splits)

lemma json_Marshal_stored:
  "all_members strict_date j \<Longrightarrow> json_Marshal (stored (json_value j)) = Inr (normal j)"
proof (induction j)
  case (JArr xs)
  then have "all_ok (map (\<lambda>x. json_Marshal (stored (json_value x))) xs) = Inr (map normal xs)"
    by (intro all_ok_map) (auto simp: list_all_iff)
  then show ?case by (simp add: o_def)
next
  case (JObj kvs)
  have "json_Marshal (date_member stored (json_value j)) = Inr (normal_member normal j)"
    if "(k, j) \<in> set kvs" for k j
    using JObj that by (intro json_Marshal_member) (fastforce simp: list_all_iff)+
  then have "all_ok (map (\<lambda>(k, j). map_sum id (Pair k)
        (json_Marshal (date_member stored (json_value j)))) kvs)
      = Inr (map (\<lambda>(k, j). (k, normal_member normal j)) kvs)"
    by (intro all_ok_map) auto
  then show ?case by (simp add: o_def case_prod_unfold)
qed simp_all

lemma normal_canonical: "all_members canonical_date j \<Longrightarrow> normal j = j"
proof (induction j)
  case (JArr xs)
  then show ?case by (auto simp: list_all_iff intro: map_idI)
next
  case (JObj kvs)
  have "normal_member normal j = j" if j: "(k, j) \<in> set kvs" for k j
  proof -
    have "normal j = j" using JObj.IH [of "(k, j)" j] JObj.prems j by (auto simp: list_all_iff)
    moreover have "\<forall>s. j = JStr s \<longrightarrow> canonical_date s"
      using JObj.prems j by (auto simp: list_all_iff)
    ultimately show ?thesis
      by (auto simp: normal_member_def canonical_date_def split: json.splits option.splits)
  qed
  then have "map (\<lambda>(k, j). (k, normal_member normal j)) kvs = kvs" by (intro map_idI) auto
  then show ?case by simp
qed simp_all

section \<open>Properties\<close>

text \<open>
  A configuration object that is encoded and decoded is its document with the times in normal
  form, read by the protocol-buffer library.
\<close>

lemma decode_encode:
  assumes "type_encoding Encode" and "marshal co = Inr (JObj m)"
    and "all_members strict_date (JObj m)"
  shows "\<exists>e. encodeProtoMessage marshal Encode co = Inr e
    \<and> json_Marshal e = Inr (normal (JObj m))"
proof -
  have "encodeProtoMessage marshal Encode co = Encode (json_value (JObj m))"
    using assms(2) by (simp add: encodeProtoMessage_def)
  then show ?thesis
    using type_encoding.Encode_document [OF assms(1), of "JObj m"] json_Marshal_stored [OF assms(3)]
    by simp
qed

text \<open>
  C24 (roundtrip). A configuration object survives being stored: when its document is one that
  the protocol-buffer library reads back and every member that reads as a time is in the normal form of that
  time, encoding succeeds and decoding the stored value gives the object again.
\<close>

theorem ConfigObject_roundtrip:
  assumes "type_encoding Encode"
    and "marshal co = Inr (JObj m)" and "unmarshal True True (JObj m) = Inr co"
    and "all_members canonical_date (JObj m)"
  shows "\<exists>e. encodeProtoMessage marshal Encode co = Inr e
    \<and> decodeConfigObject unmarshal e = Inr co"
  using decode_encode [of Encode marshal co m, OF assms(1,2) canonical_strict [OF assms(4)]] assms(3)
    normal_canonical [OF assms(4)]
  by (auto simp: decodeConfigObject_def)

text \<open>The form of what is stored: no member is the text of a time, and every time is a date.\<close>

fun well_stored :: "goval \<Rightarrow> bool" where
  "well_stored (GTime t) = civil t"
| "well_stored (GArr xs) = list_all well_stored xs"
| "well_stored (GMap m) =
     list_all (\<lambda>(k, v). (\<forall>s. v = GStr s \<longrightarrow> ParseRFC3339Nano s = None) \<and> well_stored v) m"
| "well_stored v = True"

lemma date_member_no_date:
  "date_member stored (json_value j) = GStr s \<Longrightarrow> ParseRFC3339Nano s = None"
  by (cases j) (auto simp: date_member_def split: option.splits)

lemma well_stored_member:
  "well_stored (stored (json_value j)) \<Longrightarrow> well_stored (date_member stored (json_value j))"
  by (cases j) (auto simp: date_member_def Parse_civil split: option.splits)

lemma well_stored_document: "well_stored (stored (json_value j))"
proof (induction j)
  case (JObj kvs)
  have "well_stored (date_member stored (json_value j))" if "(k, j) \<in> set kvs" for k j
    using JObj.IH [of "(k, j)" j] that by (intro well_stored_member) simp
  then show ?case by (auto simp: list_all_iff dest: date_member_no_date)
qed (auto simp: list_all_iff)

lemma Unmarshal_document:
  "json_Unmarshal_map j = Inr m \<Longrightarrow> \<exists>kvs. GMap m = json_value (JObj kvs)"
  by (cases j) (auto intro: exI [of _ "[]"])

text \<open>
  C28 (type). Whatever is handed to the database for a message is a map in which every member,
  at any depth of maps and lists, that reads as a time has become a time with a valid date and clock.
\<close>

theorem encodeProtoMessage_well_stored:
  assumes "type_encoding Encode" and "encodeProtoMessage marshal Encode msg = Inr e"
  shows "well_stored e \<and> (\<exists>m. e = GMap m)"
proof -
  obtain j m where "marshal msg = Inr j" "json_Unmarshal_map j = Inr m" "Encode (GMap m) = Inr e"
    using assms(2) by (auto simp: encodeProtoMessage_def split: sum.splits)
  with Unmarshal_document obtain kvs where "Encode (json_value (JObj kvs)) = Inr e" by metis
  then have "e = stored (json_value (JObj kvs))"
    using type_encoding.Encode_document [OF assms(1), of "JObj kvs"] by simp
  then show ?thesis using well_stored_document [of "JObj kvs"] by simp
qed

text \<open>
  In general a stored object is read back from its document with its times in normal form;
  an execution status likewise, but with unknown fields and missing required fields refused.
\<close>

lemma decodeConfigObject_normal:
  assumes "type_encoding Encode" and "marshal co = Inr (JObj m)"
    and "all_members strict_date (JObj m)"
    and "encodeProtoMessage marshal Encode co = Inr e"
  shows "decodeConfigObject unmarshal e =
    (case unmarshal True True (normal (JObj m)) of
       Inl err \<Rightarrow> Inl (Wrapped ''error decoding ConfigObject: '' (Some err)) | Inr x \<Rightarrow> Inr x)"
  using decode_encode [of Encode marshal co m, OF assms(1-3)] assms(4)
  by (auto simp: decodeConfigObject_def)

lemma CrawlExecutionStatus_roundtrip:
  assumes "type_encoding Encode" and "marshal co = Inr (JObj m)"
    and "unmarshal False False (JObj m) = Inr co" and "all_members canonical_date (JObj m)"
  shows "\<exists>e. encodeProtoMessage marshal Encode co = Inr e
    \<and> decodeCrawlExecutionStatus unmarshal err_text e = Inr co"
  using decode_encode [of Encode marshal co m, OF assms(1,2) canonical_strict [OF assms(4)]] assms(3)
    normal_canonical [OF assms(4)]
  by (auto simp: decodeCrawlExecutionStatus_def)

section \<open>Examples\<close>

text \<open>
  Messages that are their own documents: one with a description that reads as a time in
  normal form, as a time that is not, and as a time that cannot be written.
\<close>

definition described :: "string \<Rightarrow> json" where
  "described s = JObj [(''id'', JStr ''i''), (''meta'', JObj [(''description'', JStr s)])]"

lemmas evaluate_time =
  ParseRFC3339Nano_def take_date_def take_clock_def take_hour_def take_fraction_def take_zone_def
  take_digits_def is_digit_def digit_value_def civil_def days_in_def nanos_def Let_def

lemma Parse_examples [simp]:
  "ParseRFC3339Nano ''i'' = None"
  "ParseRFC3339Nano ''2020-12-31T12:30:00.5Z'' = Some \<lparr>t_year = 2020, t_month = 12, t_day = 31,
     t_hour = 12, t_minute = 30, t_second = 0, t_nsec = 500000000, t_offset = 0\<rparr>"
  "ParseRFC3339Nano ''2020-12-31T12:30:00.500Z'' = Some \<lparr>t_year = 2020, t_month = 12, t_day = 31,
     t_hour = 12, t_minute = 30, t_second = 0, t_nsec = 500000000, t_offset = 0\<rparr>"
  "ParseRFC3339Nano ''2020-12-31T12:30:00+24:00'' = Some \<lparr>t_year = 2020, t_month = 12, t_day = 31,
     t_hour = 12, t_minute = 30, t_second = 0, t_nsec = 0, t_offset = 1440\<rparr>"
  by (simp_all add: evaluate_time)

lemma Format_example [simp]:
  "FormatRFC3339Nano \<lparr>t_year = 2020, t_month = 12, t_day = 31, t_hour = 12, t_minute = 30,
     t_second = 0, t_nsec = 500000000, t_offset = 0\<rparr> = ''2020-12-31T12:30:00.5Z''"
  by (simp add: FormatRFC3339Nano_def format_fraction_def format_zone_def trim_zeros_def digits_numeral)

theorem ConfigObject_roundtrip_witness:
  "\<exists>e. encodeProtoMessage Inr driver_Encode (described ''2020-12-31T12:30:00.5Z'') = Inr e
     \<and> decodeConfigObject (\<lambda>p d j. Inr j) e = Inr (described ''2020-12-31T12:30:00.5Z'')"
proof -
  have canonical: "canonical_date ''i''" "canonical_date ''2020-12-31T12:30:00.5Z''"
    by (simp_all add: canonical_date_def strict_zone_def)
  show ?thesis
    unfolding described_def
    by (rule ConfigObject_roundtrip [OF driver.type_encoding_axioms, where
          m = "[(''id'', JStr ''i''), (''meta'', JObj [(''description'', JStr ''2020-12-31T12:30:00.5Z'')])]"])
      (simp_all add: canonical)
qed

theorem encodeProtoMessage_well_stored_witness:
  "well_stored (GMap [(''id'', GStr ''i'')])"
proof -
  have "encodeProtoMessage Inr driver_Encode (JObj [(''id'', JStr ''i'')])
      = Inr (GMap [(''id'', GStr ''i'')])"
    by (simp add: encodeProtoMessage_def driver_Encode_def date_member_def)
  from encodeProtoMessage_well_stored [OF driver.type_encoding_axioms this] show ?thesis by simp
qed

text \<open>A description is changed by being stored, and one can make its object unreadable.\<close>

lemma description_changed:
  "\<exists>e. encodeProtoMessage Inr driver_Encode (described ''2020-12-31T12:30:00.500Z'') = Inr e
     \<and> decodeConfigObject (\<lambda>p d j. Inr j) e = Inr (described ''2020-12-31T12:30:00.5Z'')"
  by (simp add: encodeProtoMessage_def decodeConfigObject_def driver_Encode_def described_def
      date_member_def time_MarshalJSON_def strict_zone_def)

lemma description_unreadable:
  "\<exists>e err. encodeProtoMessage Inr driver_Encode (described ''2020-12-31T12:30:00+24:00'') = Inr e
     \<and> decodeConfigObject (\<lambda>p d j. Inr j) e = Inl err"
  by (simp add: encodeProtoMessage_def decodeConfigObject_def driver_Encode_def described_def
      date_member_def time_MarshalJSON_def strict_zone_def)

end
