(* ===== verification/Database.thy ===== *)
theory Database
  imports Rethink
begin

text \<open>
  \<^verbatim>\<open>database/database.go\<close> and \<^verbatim>\<open>database/mock.go\<close>: the connection to RethinkDB, and the
  configuration cache over it. The driver is a record of functions on the state \<open>'w\<close> of the
  database; its session is a value of type \<open>'q\<close>.
\<close>

section \<open>The connection\<close>

text \<open>Durations are in nanoseconds.\<close>

record connect_opts =
  cop_Address :: string
  cop_Username :: string
  cop_Password :: string
  cop_Database :: string
  cop_InitialCap :: int
  cop_MaxOpen :: int
  cop_UseOpentracing :: bool
  cop_NumRetries :: int
  cop_Timeout :: int

record database_options =
  dbo_Username :: string
  dbo_Password :: string
  dbo_Database :: string
  dbo_UseOpenTracing :: bool
  dbo_Address :: string
  dbo_QueryTimeout :: int
  dbo_MaxRetries :: int
  dbo_MaxOpenConnections :: int

record 'q rethink_connection =
  rdb_connectOpts :: connect_opts
  rdb_session :: "'q option"
  rdb_maxRetries :: int
  rdb_waitTimeout :: int
  rdb_queryTimeout :: int
  rdb_maxOpenConnections :: int
  rdb_batchSize :: int

definition NewRethinkDbConnection :: "database_options \<Rightarrow> 'q rethink_connection" where
  "NewRethinkDbConnection opts =
     \<lparr>rdb_connectOpts =
        \<lparr>cop_Address = dbo_Address opts, cop_Username = dbo_Username opts,
         cop_Password = dbo_Password opts, cop_Database = dbo_Database opts, cop_InitialCap = 2,
         cop_MaxOpen = dbo_MaxOpenConnections opts, cop_UseOpentracing = dbo_UseOpenTracing opts,
         cop_NumRetries = 10, cop_Timeout = 10 * 1000000000\<rparr>,
      rdb_session = None, rdb_maxRetries = dbo_MaxRetries opts,
      rdb_waitTimeout = 60 * 1000000000, rdb_queryTimeout = dbo_QueryTimeout opts,
      rdb_maxOpenConnections = 0, rdb_batchSize = 200\<rparr>"

text \<open>
  The terms the code builds: an object of a table by its key, and the objects of a table with
  a label and a kind. A term is run on a session within a timeout; a write also has a
  durability.
\<close>

datatype db_term =
    TableGet string string
  | TableByLabel string string string string

record run_opts =
  ro_Timeout :: int
  ro_Durability :: string

text \<open>
  \<open>r.Connect\<close> gives a session also when it fails. \<open>Close\<close> of the driver closes a session.
\<close>

record ('q, 'w) driver =
  drv_Connect :: "connect_opts \<Rightarrow> 'w \<Rightarrow> ('q \<times> error option) \<times> 'w"
  drv_Close :: "'q \<Rightarrow> 'w \<Rightarrow> error option \<times> 'w"
  drv_Wait :: "string \<Rightarrow> int \<Rightarrow> 'q option \<Rightarrow> 'w \<Rightarrow> error option \<times> 'w"
  drv_Run :: "db_term \<Rightarrow> 'q option \<Rightarrow> run_opts \<Rightarrow> 'w \<Rightarrow> (db_error + cursor) \<times> 'w"
  drv_RunWrite :: "db_term \<Rightarrow> 'q option \<Rightarrow> run_opts \<Rightarrow> 'w \<Rightarrow> db_error option \<times> 'w"

definition rethink_Connect ::
  "('q, 'w) driver \<Rightarrow> 'q rethink_connection \<times> 'w \<Rightarrow> error option \<times> 'q rethink_connection \<times> 'w" where
  "rethink_Connect drv cw =
     (let ((q, err), w1) = drv_Connect drv (rdb_connectOpts (fst cw)) (snd cw);
          c1 = (fst cw)\<lparr>rdb_session := Some q\<rparr>
      in case err of
           Some e \<Rightarrow> (Some (Wrapped (''failed to connect to RethinkDB at ''
                        @ cop_Address (rdb_connectOpts c1) @ '': '') (Some e)), c1, w1)
         | None \<Rightarrow> (None, c1, w1))"

text \<open>
  \<open>Close\<close> asserts that the session is one of the driver; with no session the assertion
  panics.
\<close>

definition rethink_Close ::
  "('q, 'w) driver \<Rightarrow> 'q rethink_connection \<times> 'w \<Rightarrow> error option go \<times> 'q rethink_connection \<times> 'w" where
  "rethink_Close drv cw =
     (case rdb_session (fst cw) of
        None \<Rightarrow> (Panic FailedTypeAssertion, cw)
      | Some q \<Rightarrow> (let (e, w1) = drv_Close drv q (snd cw) in (Ret e, fst cw, w1)))"

definition rethink_wait ::
  "('q, 'w) driver \<Rightarrow> 'q rethink_connection \<times> 'w \<Rightarrow> error option \<times> 'q rethink_connection \<times> 'w" where
  "rethink_wait drv cw =
     (let (err, w1) = drv_Wait drv (cop_Database (rdb_connectOpts (fst cw)))
            (rdb_waitTimeout (fst cw)) (rdb_session (fst cw)) (snd cw)
      in (err, fst cw, w1))"

text \<open>What \<open>execWithRetry\<close> does between attempts.\<close>

definition retry_ops :: "('q, 'w) driver \<Rightarrow> ('q rethink_connection \<times> 'w) connection_ops" where
  "retry_ops drv = \<lparr>op_wait = (\<lambda>cw. snd (rethink_wait drv cw)),
     op_Connect = (\<lambda>cw. snd (rethink_Connect drv cw))\<rparr>"

text \<open>\<open>exec\<close>: the query gets a context with the query timeout of the connection.\<close>

definition rethink_exec ::
  "(int \<Rightarrow> 'q rethink_connection \<times> 'w \<Rightarrow> (db_error + 'c) \<times> 'q rethink_connection \<times> 'w) \<Rightarrow>
     'q rethink_connection \<times> 'w \<Rightarrow> (db_error + 'c) \<times> 'q rethink_connection \<times> 'w" where
  "rethink_exec q cw = q (rdb_queryTimeout (fst cw)) cw"

definition read_query ::
  "('q, 'w) driver \<Rightarrow> db_term \<Rightarrow> int \<Rightarrow> 'q rethink_connection \<times> 'w \<Rightarrow>
     (db_error + cursor) \<times> 'q rethink_connection \<times> 'w" where
  "read_query drv term timeout cw =
     (let (r, w1) = drv_Run drv term (rdb_session (fst cw))
            \<lparr>ro_Timeout = timeout, ro_Durability = []\<rparr> (snd cw)
      in (r, fst cw, w1))"

definition write_query ::
  "('q, 'w) driver \<Rightarrow> db_term \<Rightarrow> int \<Rightarrow> 'q rethink_connection \<times> 'w \<Rightarrow>
     (db_error + unit) \<times> 'q rethink_connection \<times> 'w" where
  "write_query drv term timeout cw =
     (let (e, w1) = drv_RunWrite drv term (rdb_session (fst cw))
            \<lparr>ro_Timeout = timeout, ro_Durability = ''soft''\<rparr> (snd cw)
      in (case e of Some err \<Rightarrow> Inl err | None \<Rightarrow> Inr (), fst cw, w1))"

definition execRead ::
  "('q, 'w) driver \<Rightarrow> db_term \<Rightarrow> 'q rethink_connection \<times> 'w \<Rightarrow>
     (int \<times> db_error + cursor) \<times> 'q rethink_connection \<times> 'w" where
  "execRead drv term cw =
     execWithRetry (retry_ops drv) (rdb_maxRetries (fst cw)) (rethink_exec (read_query drv term)) cw"

definition execWrite ::
  "('q, 'w) driver \<Rightarrow> string \<Rightarrow> db_term \<Rightarrow> 'q rethink_connection \<times> 'w \<Rightarrow>
     error option \<times> 'q rethink_connection \<times> 'w" where
  "execWrite drv name term cw =
     (case execWithRetry (retry_ops drv) (rdb_maxRetries (fst cw))
             (rethink_exec (write_query drv term)) cw of
        (Inl e, cw1) \<Rightarrow> (Some (retry_error name (rdb_maxRetries (fst cw)) e), cw1)
      | (Inr u, cw1) \<Rightarrow> (None, cw1))"

section \<open>The database adapter\<close>

text \<open>
  The connection as the \<open>DbAdapter\<close> of the configuration cache. \<open>clock\<close> reads the time,
  \<open>emptyErr\<close> is \<open>r.ErrEmptyResult\<close>.
\<close>

definition rethink_adapter ::
  "('q, 'w) driver \<Rightarrow> ('w \<Rightarrow> int) \<Rightarrow> error \<Rightarrow> ('q rethink_connection \<times> 'w) db_adapter" where
  "rethink_adapter drv clock emptyErr =
     \<lparr>db_now = (\<lambda>cw. clock (snd cw)),
      db_GetConfigObject = (\<lambda>ref cw.
        rethink_GetConfigObject (retry_ops drv) (rdb_maxRetries (fst cw)) emptyErr
          (\<lambda>i. rethink_exec (read_query drv (TableGet ''config'' i))) ref cw),
      db_GetConfigsForSelector = (\<lambda>k v cw.
        rethink_GetConfigsForSelector (retry_ops drv) (rdb_maxRetries (fst cw))
          (\<lambda>key value. rethink_exec (read_query drv (TableByLabel ''config'' key value ''browserScript'')))
          k v cw)\<rparr>"

section \<open>The mock\<close>

text \<open>
  A connection whose session is the driver's mock; closing it does nothing. \<open>maxRetries\<close> and
  \<open>waitTimeout\<close> are not set.
\<close>

definition NewMockConnection :: "'q \<Rightarrow> 'q rethink_connection" where
  "NewMockConnection mock =
     \<lparr>rdb_connectOpts = \<lparr>cop_Address = [], cop_Username = [], cop_Password = [], cop_Database = [],
        cop_InitialCap = 0, cop_MaxOpen = 0, cop_UseOpentracing = False, cop_NumRetries = 10,
        cop_Timeout = 0\<rparr>,
      rdb_session = Some mock, rdb_maxRetries = 0, rdb_waitTimeout = 0,
      rdb_queryTimeout = 5 * 1000000000, rdb_maxOpenConnections = 0, rdb_batchSize = 200\<rparr>"

definition mock_Close :: "'q rethink_connection \<Rightarrow> error option" where
  "mock_Close c = None"

definition GetMock :: "'q rethink_connection \<Rightarrow> 'q option" where
  "GetMock c = rdb_session c"

text \<open>The two reads of the mock are those of the connection it embeds.\<close>

definition mock_adapter ::
  "('q, 'w) driver \<Rightarrow> ('w \<Rightarrow> int) \<Rightarrow> error \<Rightarrow> ('q rethink_connection \<times> 'w) db_adapter" where
  "mock_adapter drv clock emptyErr =
     \<lparr>db_now = db_now (rethink_adapter drv clock emptyErr),
      db_GetConfigObject = db_GetConfigObject (rethink_adapter drv clock emptyErr),
      db_GetConfigsForSelector = db_GetConfigsForSelector (rethink_adapter drv clock emptyErr)\<rparr>"

section \<open>Settings are kept\<close>

definition same_settings :: "'q rethink_connection \<Rightarrow> 'q rethink_connection \<Rightarrow> bool" where
  "same_settings c c1 \<longleftrightarrow> c1 = c\<lparr>rdb_session := rdb_session c1\<rparr>"

lemma same_settings_refl [simp]: "same_settings c c"
  by (simp add: same_settings_def)

lemma same_settings_session [simp]:
  "same_settings c (c1\<lparr>rdb_session := q\<rparr>) = same_settings c c1"
  by (cases c; cases c1) (auto simp: same_settings_def)

lemma same_settings_maxRetries: "same_settings c c1 \<Longrightarrow> rdb_maxRetries c1 = rdb_maxRetries c"
  by (cases c; cases c1) (auto simp: same_settings_def)

lemma settings_ops:
  assumes "same_settings c (fst cw)"
  shows "same_settings c (fst (op_wait (retry_ops drv) cw))"
    and "same_settings c (fst (op_Connect (retry_ops drv) cw))"
    and "same_settings c (fst (snd (rethink_exec (read_query drv t) cw)))"
  using assms
  by (auto simp: retry_ops_def rethink_wait_def rethink_Connect_def rethink_exec_def read_query_def
      Let_def split: prod.splits option.splits)

text \<open>What the query and the two operations between attempts keep, the retries keep.\<close>

lemma execWithRetry_loop_keeps:
  assumes "\<And>w. P w \<Longrightarrow> P (snd (q w))" and "\<And>w. P w \<Longrightarrow> P (op_wait ops w)"
    and "\<And>w. P w \<Longrightarrow> P (op_Connect ops w)" and "P w"
  shows "P (snd (execWithRetry_loop ops maxRetries q attempts w))"
  using assms(4)
proof (induction "nat (maxRetries + 1 - attempts)" arbitrary: attempts w rule: less_induct)
  case less
  obtain r w1 where q: "q w = (r, w1)" by (cases "q w")
  then have w1: "P w1" using assms(1) less.prems by (metis snd_conv)
  have go: "attempts + 1 \<le> maxRetries \<Longrightarrow> P w2 \<Longrightarrow>
      P (snd (execWithRetry_loop ops maxRetries q (attempts + 1) w2))" for w2
    using less.hyps [of "attempts + 1" w2] by simp
  show ?case
  proof (cases r)
    case (Inr c)
    then show ?thesis using q w1 by (simp add: execWithRetry_loop.simps [of _ _ _ attempts])
  next
    case (Inl e)
    then show ?thesis
      using q w1 go [of "op_wait ops w1"] go [of "op_Connect ops w1"] assms(2,3)
      by (cases e) (auto simp: execWithRetry_loop.simps [of _ _ _ attempts] Let_def)
  qed
qed

section \<open>Failures that pass\<close>

text \<open>
  A query that is answered within \<open>n\<close> attempts: before the answer it only times out or finds
  its connection closed.
\<close>

fun answers ::
  "nat \<Rightarrow> 'w connection_ops \<Rightarrow> ('w \<Rightarrow> (db_error + 'c) \<times> 'w) \<Rightarrow> 'w \<Rightarrow> 'c \<Rightarrow> bool" where
  "answers 0 ops q w c = False"
| "answers (Suc n) ops q w c =
     (case q w of
        (Inr c1, w1) \<Rightarrow> c1 = c
      | (Inl ErrQueryTimeout, w1) \<Rightarrow> answers n ops q (op_wait ops w1) c
      | (Inl ErrConnectionClosed, w1) \<Rightarrow> answers n ops q (op_Connect ops w1) c
      | (Inl (OtherDbError e), w1) \<Rightarrow> False)"

lemma execWithRetry_loop_answers:
  assumes "answers (Suc n) ops q w c" and "attempts + int n \<le> max 0 maxRetries" and "0 \<le> attempts"
  shows "fst (execWithRetry_loop ops maxRetries q attempts w) = Inr c"
  using assms
proof (induction n arbitrary: attempts w)
  case 0
  then show ?case
    by (auto simp: execWithRetry_loop.simps [of _ _ _ attempts] split: prod.splits sum.splits
        db_error.splits)
next
  case (Suc n)
  obtain r w1 where q: "q w = (r, w1)" by (cases "q w")
  have more: "\<not> maxRetries < attempts + 1" using Suc.prems by simp
  have go: "answers (Suc n) ops q w2 c \<Longrightarrow>
      fst (execWithRetry_loop ops maxRetries q (attempts + 1) w2) = Inr c" for w2
    using Suc.IH [of w2 "attempts + 1"] Suc.prems by simp
  show ?case
  proof (cases r)
    case (Inr c1)
    then show ?thesis
      using q Suc.prems(1) by (simp add: execWithRetry_loop.simps [of _ _ _ attempts])
  next
    case (Inl e)
    then show ?thesis
      using q more Suc.prems(1) go [of "op_wait ops w1"] go [of "op_Connect ops w1"]
      by (cases e)
        (simp_all add: execWithRetry_loop.simps [of _ _ _ attempts] Let_def del: answers.simps(2)
          add: answers.simps(2) [of "Suc n"])
  qed
qed

text \<open>
  A database that has the answers \<open>f\<close> and \<open>g\<close> and in which, whatever its state, each query is
  answered within the attempts of the connection \<open>c\<close>.
\<close>

definition patient :: "('q, 'w) driver \<Rightarrow> 'q rethink_connection \<Rightarrow> (string \<Rightarrow> config_object) \<Rightarrow>
    (string \<Rightarrow> string \<Rightarrow> config_object list) \<Rightarrow> bool" where
  "patient drv c f g \<longleftrightarrow>
     (\<forall>c1 w. same_settings c c1 \<longrightarrow>
        (\<forall>i. \<exists>cur rest. answers (Suc (nat (rdb_maxRetries c))) (retry_ops drv)
             (rethink_exec (read_query drv (TableGet ''config'' i))) (c1, w) cur
           \<and> cur_rows cur = f i # rest)
        \<and> (\<forall>k v. \<exists>cur. answers (Suc (nat (rdb_maxRetries c))) (retry_ops drv)
             (rethink_exec (read_query drv (TableByLabel ''config'' k v ''browserScript''))) (c1, w) cur
           \<and> cur_rows cur = g k v \<and> cur_err cur = None))
     \<and> (\<forall>i. co_Id (f i) = i)"

lemma patient_query:
  assumes "answers (Suc (nat (rdb_maxRetries c))) (retry_ops drv) (rethink_exec (read_query drv t)) cw cur"
    and "same_settings c (fst cw)"
  shows "\<exists>cw1. execWithRetry (retry_ops drv) (rdb_maxRetries (fst cw)) (rethink_exec (read_query drv t)) cw
      = (Inr cur, cw1) \<and> same_settings c (fst cw1)"
proof -
  let ?run = "execWithRetry (retry_ops drv) (rdb_maxRetries (fst cw)) (rethink_exec (read_query drv t)) cw"
  have "fst ?run = Inr cur"
    unfolding execWithRetry_def
    by (rule execWithRetry_loop_answers [OF assms(1)]) (simp_all add: same_settings_maxRetries [OF assms(2)])
  moreover have "same_settings c (fst (snd ?run))"
    unfolding execWithRetry_def
    by (rule execWithRetry_loop_keeps [of "\<lambda>cw. same_settings c (fst cw)"])
      (simp_all add: settings_ops assms(2))
  ultimately show ?thesis by (metis prod.collapse)
qed

lemma patient_static:
  fixes drv :: "('q, 'w) driver"
  assumes "patient drv c f g"
  shows "static_db (\<lambda>cw. same_settings c (fst cw)) f g (rethink_adapter drv clock emptyErr)"
  unfolding static_db_def
proof (intro conjI allI impI)
  fix ref :: config_ref and cw :: "'q rethink_connection \<times> 'w"
  assume same: "same_settings c (fst cw)"
  then obtain cur rest where cur: "answers (Suc (nat (rdb_maxRetries c))) (retry_ops drv)
      (rethink_exec (read_query drv (TableGet ''config'' (ref_Id ref)))) cw cur"
      "cur_rows cur = f (ref_Id ref) # rest"
    using assms unfolding patient_def by (metis prod.collapse)
  from patient_query [OF cur(1) same] cur(2)
  show "\<exists>d1. db_GetConfigObject (rethink_adapter drv clock emptyErr) ref cw
      = (Inr (f (ref_Id ref)), d1) \<and> same_settings c (fst d1)"
    by (auto simp: rethink_adapter_def rethink_GetConfigObject_def)
next
  fix k v and cw :: "'q rethink_connection \<times> 'w"
  assume same: "same_settings c (fst cw)"
  then obtain cur where cur: "answers (Suc (nat (rdb_maxRetries c))) (retry_ops drv)
      (rethink_exec (read_query drv (TableByLabel ''config'' k v ''browserScript''))) cw cur"
      "cur_rows cur = g k v" "cur_err cur = None"
    using assms unfolding patient_def by (metis prod.collapse)
  from patient_query [OF cur(1) same] cur(2,3)
  show "\<exists>d1. db_GetConfigsForSelector (rethink_adapter drv clock emptyErr) k v cw
      = (Inr (g k v), d1) \<and> same_settings c (fst d1)"
    by (auto simp: rethink_adapter_def rethink_GetConfigsForSelector_def copy_rows_eq)
qed (use assms in \<open>simp add: patient_def\<close>)

section \<open>Properties\<close>

text \<open>
  The cache and the retries are transparent: over a database that does not
  change and answers every query within the attempts of the connection, however often a query
  times out or the connection is lost before, \<open>GetScripts\<close> returns exactly what the
  database has, the referenced scripts in order and then the selected ones in order, whatever
  the time and whatever the cache holds of earlier answers; and the cache keeps agreeing with
  the database.
\<close>

lemma GetScripts_transparent:
  assumes "patient drv c f g" and "coherent f g ca"
    and "\<forall>r \<in> set (bc_ScriptRef bc). colon_free (ref_Id r)"
    and "\<forall>s \<in> set (bc_ScriptSelector bc). \<not> colon_free s"
  shows "\<exists>ca1 cw1. GetScripts (rethink_adapter drv clock emptyErr) bc ca (c, w)
      = (Ret (Inr (map (f \<circ> ref_Id) (bc_ScriptRef bc)
                    @ concat (map (selected g) (bc_ScriptSelector bc)))), ca1, cw1)
    \<and> coherent f g ca1 \<and> same_settings c (fst cw1)"
  using GetScripts_static [OF patient_static [OF assms(1)], of "(c, w)" ca bc clock emptyErr] assms(2-4)
  by simp

text \<open>
  A database that loses its connection before every answer, and a connection to it that
  retries once.
\<close>

definition flaky_driver :: "(unit, bool) driver" where
  "flaky_driver =
     \<lparr>drv_Connect = (\<lambda>opts w. (((), None), w)), drv_Close = (\<lambda>q w. (None, w)),
      drv_Wait = (\<lambda>d t q w. (None, w)),
      drv_Run = (\<lambda>t q ro w. if w then (Inl ErrConnectionClosed, False)
         else (Inr \<lparr>cur_rows = (case t of TableGet tab i \<Rightarrow> [example_config i]
                 | TableByLabel tab k v kind \<Rightarrow> [example_config k, example_config v]),
               cur_err = None\<rparr>, True)),
      drv_RunWrite = (\<lambda>t q ro w. (None, w))\<rparr>"

definition flaky_connection :: "unit rethink_connection" where
  "flaky_connection = NewRethinkDbConnection \<lparr>dbo_Username = [], dbo_Password = [],
     dbo_Database = ''veidemann'', dbo_UseOpenTracing = False, dbo_Address = ''db:28015'',
     dbo_QueryTimeout = 60000000000, dbo_MaxRetries = 1, dbo_MaxOpenConnections = 10\<rparr>"

lemma flaky_patient:
  "patient flaky_driver flaky_connection example_config (\<lambda>k v. [example_config k, example_config v])"
  unfolding patient_def
  by (auto simp: flaky_driver_def flaky_connection_def NewRethinkDbConnection_def rethink_exec_def
      read_query_def retry_ops_def rethink_Connect_def example_config_def)

lemma GetScripts_transparent_instance:
  "\<exists>ca1 cw1. GetScripts (rethink_adapter flaky_driver (\<lambda>w. 0) EOF) example_browser_config
       (newCache 100) (flaky_connection, True)
     = (Ret (Inr [example_config ''s1'', example_config ''a'', example_config ''b'']), ca1, cw1)"
  using GetScripts_transparent [OF flaky_patient coherent_new, of example_browser_config "\<lambda>w. 0" EOF 100 True]
  by (auto simp: example_browser_config_def colon_free_def selected_def)

section \<open>Connecting\<close>

text \<open>
  After a lost connection the next attempt runs on the session the reconnection gave, also
  when that failed: the driver then has a session that is not connected.
\<close>

lemma reconnect_session:
  "rdb_session (fst (op_Connect (retry_ops drv) (c, w)))
     = Some (fst (fst (drv_Connect drv (rdb_connectOpts c) w)))"
  by (auto simp: retry_ops_def rethink_Connect_def Let_def split: prod.splits option.splits)

text \<open>A connection that was made, and only such a one, can be closed without a panic.\<close>

lemma rethink_Close_panics:
  "fst (rethink_Close drv (c, w)) = Panic p \<longleftrightarrow> p = FailedTypeAssertion \<and> rdb_session c = None"
  by (auto simp: rethink_Close_def split: option.splits prod.splits)

lemma New_not_connected [simp]: "rdb_session (NewRethinkDbConnection opts) = None"
  by (simp add: NewRethinkDbConnection_def)

text \<open>A write is attempted at most \<open>maxRetries + 1\<close> times too, and reports what a read reports.\<close>

lemma execWrite_first_success:
  assumes "drv_RunWrite drv t (rdb_session c) \<lparr>ro_Timeout = rdb_queryTimeout c, ro_Durability = ''soft''\<rparr> w
      = (None, w1)"
  shows "execWrite drv name t (c, w) = (None, c, w1)"
  using assms
  by (simp add: execWrite_def execWithRetry_def execWithRetry_loop.simps rethink_exec_def write_query_def)

end
