(* ===== verification/Service_Clients.thy ===== *)
theory Service_Clients
  imports Connections
begin

text \<open>
  The clients of the frontier, the robots evaluator, the content writer and the log service
  as connections: \<^verbatim>\<open>frontier/frontier.go\<close>, \<^verbatim>\<open>robotsevaluator/robotsevaluator.go\<close>,
  \<^verbatim>\<open>screenshotwriter/screenshotwriter.go\<close> and \<^verbatim>\<open>logwriter/logwriter.go\<close>. Each embeds a
  \<open>ClientConn\<close> and a generated stub, which \<open>Connect\<close> makes from the connection.
\<close>

section \<open>Clients\<close>

record ('c, 'd, 's) service_client =
  sc_conn :: "('c, 'd) client_conn"
  sc_stub :: "'s option"

definition service_New ::
  "string \<Rightarrow> ('d connection_options \<Rightarrow> 'd connection_options) list \<Rightarrow> ('c, 'd, 's) service_client" where
  "service_New name opts = \<lparr>sc_conn = NewClientConn name opts, sc_stub = None\<rparr>"

definition service_Connect ::
  "('d connection_options \<Rightarrow> error + 'c) \<Rightarrow> ('c option \<Rightarrow> 's) \<Rightarrow> ('c, 'd, 's) service_client \<Rightarrow>
     error option \<times> ('c, 'd, 's) service_client" where
  "service_Connect connect stub s =
     (case ClientConn_Connect connect (sc_conn s) of
        (Some err, c) \<Rightarrow> (Some err, s\<lparr>sc_conn := c\<rparr>)
      | (None, c) \<Rightarrow> (None, s\<lparr>sc_conn := c, sc_stub := Some (stub (ClientConn_Connection c))\<rparr>))"

definition service_Close ::
  "('c \<Rightarrow> error option) \<Rightarrow> ('c, 'd, 's) service_client \<Rightarrow> error option" where
  "service_Close close s = ClientConn_Close close (sc_conn s)"

definition Frontier_New ::
  "('d connection_options \<Rightarrow> 'd connection_options) list \<Rightarrow> ('c, 'd, 's) service_client" where
  "Frontier_New opts = service_New ''Frontier'' opts"

definition Frontier_Connect ::
  "('d connection_options \<Rightarrow> error + 'c) \<Rightarrow> ('c option \<Rightarrow> 's) \<Rightarrow> ('c, 'd, 's) service_client \<Rightarrow>
     error option \<times> ('c, 'd, 's) service_client" where
  "Frontier_Connect connect NewFrontierClient f = service_Connect connect NewFrontierClient f"

definition RobotsEvaluator_New ::
  "('d connection_options \<Rightarrow> 'd connection_options) list \<Rightarrow> ('c, 'd, 's) service_client" where
  "RobotsEvaluator_New opts = service_New ''RobotsEvaluator'' opts"

definition RobotsEvaluator_Connect ::
  "('d connection_options \<Rightarrow> error + 'c) \<Rightarrow> ('c option \<Rightarrow> 's) \<Rightarrow> ('c, 'd, 's) service_client \<Rightarrow>
     error option \<times> ('c, 'd, 's) service_client" where
  "RobotsEvaluator_Connect connect NewRobotsEvaluatorClient r =
     service_Connect connect NewRobotsEvaluatorClient r"

definition ScreenshotWriter_New ::
  "('d connection_options \<Rightarrow> 'd connection_options) list \<Rightarrow> ('c, 'd, 's) service_client" where
  "ScreenshotWriter_New opts = service_New ''ContentWriter'' opts"

definition ScreenshotWriter_Connect ::
  "('d connection_options \<Rightarrow> error + 'c) \<Rightarrow> ('c option \<Rightarrow> 's) \<Rightarrow> ('c, 'd, 's) service_client \<Rightarrow>
     error option \<times> ('c, 'd, 's) service_client" where
  "ScreenshotWriter_Connect connect NewContentWriterClient s =
     service_Connect connect NewContentWriterClient s"

definition LogWriter_New ::
  "('d connection_options \<Rightarrow> 'd connection_options) list \<Rightarrow> ('c, 'd, 's) service_client" where
  "LogWriter_New opts = service_New ''logWriter'' opts"

definition LogWriter_Connect ::
  "('d connection_options \<Rightarrow> error + 'c) \<Rightarrow> ('c option \<Rightarrow> 's) \<Rightarrow> ('c, 'd, 's) service_client \<Rightarrow>
     error option \<times> ('c, 'd, 's) service_client" where
  "LogWriter_Connect connect NewLogClient l =
     (case ClientConn_Connect connect (sc_conn l) of
        (Some err, c) \<Rightarrow> (Some err, l\<lparr>sc_conn := c\<rparr>)
      | (None, c) \<Rightarrow> (None, l\<lparr>sc_conn := c, sc_stub := Some (NewLogClient (ClientConn_Connection c))\<rparr>))"

lemmas service_defs [step_defs] =
  service_New_def service_Connect_def service_Close_def Frontier_New_def Frontier_Connect_def
  RobotsEvaluator_New_def RobotsEvaluator_Connect_def ScreenshotWriter_New_def
  ScreenshotWriter_Connect_def LogWriter_New_def LogWriter_Connect_def

section \<open>The interface Connection\<close>

text \<open>
  What the program relies on when it connects to a service: a client that reports success has
  an open connection, one that reports an error has none, and closing a client without a
  connection does nothing.
\<close>

locale connection =
  fixes opened :: "'s \<Rightarrow> bool"
    and Connect :: "'s \<Rightarrow> error option \<times> 's"
    and Close :: "'s \<Rightarrow> error option"
  assumes Connect_opens: "Connect s = (e, s1) \<Longrightarrow> opened s1 \<longleftrightarrow> e = None"
    and Close_nothing: "\<not> opened s \<Longrightarrow> Close s = None"
begin

text \<open>So a program that gives up after a failed \<open>Connect\<close> leaves nothing to close.\<close>

lemma failed_leaves_nothing: "Connect s = (Some e, s1) \<Longrightarrow> Close s1 = None"
  using Connect_opens [of s "Some e" s1] Close_nothing by simp

lemma connected_then_open: "Connect s = (None, s1) \<Longrightarrow> opened s1"
  using Connect_opens [of s None s1] by simp

end

definition has_connection :: "('c, 'd, 's) service_client \<Rightarrow> bool" where
  "has_connection s \<longleftrightarrow> conn_conn (sc_conn s) \<noteq> None"

lemma service_Connect_opens:
  "service_Connect connect stub s = (e, s1) \<Longrightarrow> has_connection s1 \<longleftrightarrow> e = None"
  by (auto simp: service_Connect_def ClientConn_Connect_def has_connection_def split: sum.splits)

lemma service_Close_nothing: "\<not> has_connection s \<Longrightarrow> service_Close close s = None"
  by (simp add: service_Close_def ClientConn_Close_def has_connection_def)

lemma LogWriter_Connect_service: "LogWriter_Connect connect stub s = service_Connect connect stub s"
  by (simp add: LogWriter_Connect_def service_Connect_def)

interpretation frontier_conn: connection has_connection "Frontier_Connect connect stub" "service_Close close"
  for connect :: "'d connection_options \<Rightarrow> error + 'c" and stub :: "'c option \<Rightarrow> 's" and close
  by unfold_locales (auto simp: Frontier_Connect_def service_Connect_opens service_Close_nothing)

interpretation robots_conn: connection has_connection "RobotsEvaluator_Connect connect stub" "service_Close close"
  for connect :: "'d connection_options \<Rightarrow> error + 'c" and stub :: "'c option \<Rightarrow> 's" and close
  by unfold_locales (auto simp: RobotsEvaluator_Connect_def service_Connect_opens service_Close_nothing)

interpretation screenshot_conn: connection has_connection "ScreenshotWriter_Connect connect stub" "service_Close close"
  for connect :: "'d connection_options \<Rightarrow> error + 'c" and stub :: "'c option \<Rightarrow> 's" and close
  by unfold_locales (auto simp: ScreenshotWriter_Connect_def service_Connect_opens service_Close_nothing)

interpretation log_conn: connection has_connection "LogWriter_Connect connect stub" "service_Close close"
  for connect :: "'d connection_options \<Rightarrow> error + 'c" and stub :: "'c option \<Rightarrow> 's" and close
  by unfold_locales (auto simp: LogWriter_Connect_service service_Connect_opens service_Close_nothing)

text \<open>The stub is there exactly while there is a connection, in a client that has been connected.\<close>

lemma service_stub:
  "service_Connect connect stub (service_New name opts) = (e, s1) \<Longrightarrow> sc_stub s1 = None \<longleftrightarrow> e \<noteq> None"
  by (auto simp: service_Connect_def service_New_def split: prod.splits option.splits)

end
