(* ===== verification/Main_Program.thy ===== *)
theory Main_Program
  imports Controller Database Service_Clients
begin

text \<open>
  \<^verbatim>\<open>main.go\<close>: the settings, the wiring of the components, and the life of the process, with
  the parts it sets up in \<^verbatim>\<open>logger/\<close>, \<^verbatim>\<open>tracing/\<close> and \<^verbatim>\<open>metrics/\<close>. Deferred calls run in the
  reverse order also when a panic unwinds \<open>main\<close>, and one of them recovers the panic.
\<close>

section \<open>Settings\<close>

text \<open>
  The flags with their defaults; durations are in nanoseconds. What the command line and the
  environment set is the argument \<open>overrides\<close>, keyed by the name of the flag.
\<close>

datatype flag_value = FBool bool | FInt int | FString string | FDuration int

definition flag_defaults :: "(string \<times> flag_value) list" where
  "flag_defaults =
     [(''help'', FBool False),
      (''interface'', FString []),
      (''port'', FInt 8080),
      (''proxy-count'', FInt 10),
      (''browser-host'', FString ''localhost''),
      (''browser-port'', FInt 3000),
      (''proxy-host'', FString ''localhost''),
      (''proxy-port'', FInt 9900),
      (''content-writer-host'', FString ''veidemann-contentwriter''),
      (''content-writer-port'', FInt 8082),
      (''frontier-host'', FString ''veidemann-frontier''),
      (''frontier-port'', FInt 7700),
      (''log-service-host'', FString ''veidemann-log-service''),
      (''log-service-port'', FInt 8080),
      (''robots-evaluator-host'', FString ''veidemann-robotsevaluator-service''),
      (''robots-evaluator-port'', FInt 7053),
      (''connect-timeout'', FDuration (10 * 1000000000)),
      (''db-host'', FString ''rethinkdb-proxy''),
      (''db-port'', FInt 28015),
      (''db-name'', FString ''veidemann''),
      (''db-user'', FString []),
      (''db-password'', FString []),
      (''db-query-timeout'', FDuration (60 * 1000000000)),
      (''db-max-retries'', FInt 5),
      (''db-max-open-conn'', FInt 10),
      (''db-use-opentracing'', FBool False),
      (''db-cache-ttl'', FDuration (5 * 60 * 1000000000)),
      (''metrics-interface'', FString []),
      (''metrics-port'', FInt 9153),
      (''metrics-path'', FString ''/metrics''),
      (''log-level'', FString ''info''),
      (''log-formatter'', FString ''logfmt''),
      (''log-method'', FBool False)]"

type_synonym overrides = "string \<rightharpoonup> flag_value"

definition setting :: "overrides \<Rightarrow> string \<Rightarrow> flag_value option" where
  "setting ov name = (case ov name of Some v \<Rightarrow> Some v | None \<Rightarrow> map_of flag_defaults name)"

text \<open>A value of another type, which the flags do not allow, would read as the zero value.\<close>

definition GetString :: "overrides \<Rightarrow> string \<Rightarrow> string" where
  "GetString ov name = (case setting ov name of Some (FString s) \<Rightarrow> s | _ \<Rightarrow> [])"

definition GetInt :: "overrides \<Rightarrow> string \<Rightarrow> int" where
  "GetInt ov name = (case setting ov name of Some (FInt i) \<Rightarrow> i | _ \<Rightarrow> 0)"

definition GetBool :: "overrides \<Rightarrow> string \<Rightarrow> bool" where
  "GetBool ov name = (case setting ov name of Some (FBool b) \<Rightarrow> b | _ \<Rightarrow> False)"

definition GetDuration :: "overrides \<Rightarrow> string \<Rightarrow> int" where
  "GetDuration ov name = (case setting ov name of Some (FDuration d) \<Rightarrow> d | _ \<Rightarrow> 0)"

section \<open>Logger, tracing and metrics\<close>

datatype log_level =
    PanicLevel | FatalLevel | ErrorLevel | WarnLevel | InfoLevel | DebugLevel | TraceLevel

record log_settings =
  ls_level :: log_level
  ls_console :: bool
  ls_caller :: bool

text \<open>
  \<open>logger.InitLog\<close> on the settings of the global logger; a level it does not know leaves the
  level as it is. \<open>strings.ToLower\<close> is ASCII folding here: no other letter folds into the
  names of the levels.
\<close>

definition level_of :: "string \<Rightarrow> log_level option" where
  "level_of level =
     map_of [(''panic'', PanicLevel), (''fatal'', FatalLevel), (''error'', ErrorLevel),
       (''warn'', WarnLevel), (''info'', InfoLevel), (''debug'', DebugLevel), (''trace'', TraceLevel)]
       (map fold_char level)"

definition InitLog :: "string \<Rightarrow> string \<Rightarrow> bool \<Rightarrow> log_settings \<Rightarrow> log_settings" where
  "InitLog level format logCaller l =
     (let l1 = (case level_of level of None \<Rightarrow> l | Some v \<Rightarrow> l\<lparr>ls_level := v\<rparr>);
          l2 = (if format = ''logfmt'' then l1\<lparr>ls_console := True\<rparr> else l1)
      in if logCaller then l2\<lparr>ls_caller := True\<rparr> else l2)"

text \<open>
  \<open>tracing.Init\<close>: the configuration of the environment, with the name of the service filled
  in when it has none. Of the configuration only the name is looked at.
\<close>

definition tracing_Init ::
  "(error + string) \<Rightarrow> (string \<Rightarrow> error + 't) \<Rightarrow> string \<Rightarrow> error + 't" where
  "tracing_Init FromEnv NewTracer service =
     (case FromEnv of
        Inl err \<Rightarrow> Inl (Wrapped ''failed to initialize jaeger from environment: '' (Some err))
      | Inr serviceName \<Rightarrow> NewTracer (if serviceName = [] then service else serviceName))"

text \<open>\<open>metrics.NewServer\<close>, and \<open>Start\<close>, given the error \<open>ListenAndServe\<close> returns with.\<close>

record metrics_server =
  ms_Addr :: string
  ms_path :: string
  ms_ReadTimeout :: int
  ms_WriteTimeout :: int
  ms_IdleTimeout :: int

definition metrics_NewServer :: "string \<Rightarrow> int \<Rightarrow> string \<Rightarrow> metrics_server" where
  "metrics_NewServer listenInterface listenPort path =
     \<lparr>ms_Addr = listenInterface @ '':'' @ Itoa listenPort, ms_path = path,
      ms_ReadTimeout = 5 * 1000000000, ms_WriteTimeout = 5 * 1000000000,
      ms_IdleTimeout = 5 * 1000000000\<rparr>"

definition metrics_Start :: "error \<Rightarrow> error option \<Rightarrow> error option" where
  "metrics_Start ErrServerClosed err =
     (case err of None \<Rightarrow> None | Some e \<Rightarrow> if e \<noteq> ErrServerClosed then Some e else None)"

text \<open>
  \<open>Close\<close> of the metrics server: two calls of the library, the second with a context of five
  seconds.
\<close>

definition metrics_Close ::
  "(bool \<Rightarrow> 'w \<Rightarrow> 'w) \<Rightarrow> (int \<Rightarrow> 'w \<Rightarrow> error option \<times> 'w) \<Rightarrow> 'w \<Rightarrow> error option \<times> 'w" where
  "metrics_Close SetKeepAlivesEnabled Shutdown w = Shutdown (5 * 1000000000) (SetKeepAlivesEnabled False w)"

section \<open>Wiring\<close>

text \<open>
  The options \<open>main\<close> gives the components. The handles of the controller are the settings of
  the connections they stand for. The frontier's two interceptors are its dial options.
\<close>

definition screenshot_options ::
  "overrides \<Rightarrow> ('d connection_options \<Rightarrow> 'd connection_options) list" where
  "screenshot_options ov =
     [Conn_WithConnectTimeout (GetDuration ov ''connect-timeout''),
      Conn_WithHost (GetString ov ''content-writer-host''),
      Conn_WithPort (GetInt ov ''content-writer-port'')]"

definition frontier_options ::
  "overrides \<Rightarrow> 'd list \<Rightarrow> ('d connection_options \<Rightarrow> 'd connection_options) list" where
  "frontier_options ov interceptors =
     [Conn_WithConnectTimeout (GetDuration ov ''connect-timeout''),
      Conn_WithHost (GetString ov ''frontier-host''),
      Conn_WithPort (GetInt ov ''frontier-port''),
      Conn_WithDialOptions interceptors]"

definition robots_options ::
  "overrides \<Rightarrow> ('d connection_options \<Rightarrow> 'd connection_options) list" where
  "robots_options ov =
     [Conn_WithConnectTimeout (GetDuration ov ''connect-timeout''),
      Conn_WithHost (GetString ov ''robots-evaluator-host''),
      Conn_WithPort (GetInt ov ''robots-evaluator-port'')]"

definition log_options ::
  "overrides \<Rightarrow> ('d connection_options \<Rightarrow> 'd connection_options) list" where
  "log_options ov =
     [Conn_WithConnectTimeout (GetDuration ov ''connect-timeout''),
      Conn_WithHost (GetString ov ''log-service-host''),
      Conn_WithPort (GetInt ov ''log-service-port'')]"

definition main_database_options :: "overrides \<Rightarrow> database_options" where
  "main_database_options ov =
     \<lparr>dbo_Username = GetString ov ''db-user'', dbo_Password = GetString ov ''db-password'',
      dbo_Database = GetString ov ''db-name'',
      dbo_UseOpenTracing = GetBool ov ''db-use-opentracing'',
      dbo_Address = GetString ov ''db-host'' @ '':'' @ Itoa (GetInt ov ''db-port''),
      dbo_QueryTimeout = GetDuration ov ''db-query-timeout'',
      dbo_MaxRetries = GetInt ov ''db-max-retries'',
      dbo_MaxOpenConnections = GetInt ov ''db-max-open-conn''\<rparr>"

text \<open>The log writer of the controller is also that of the sessions.\<close>

definition main_session_options :: "overrides \<Rightarrow> nat \<Rightarrow> nat \<Rightarrow> nat \<Rightarrow> session_option list" where
  "main_session_options ov logWriter screenshotWriter configCache =
     [Session_WithLogWriter (Some logWriter),
      WithScreenshotWriter (Some screenshotWriter),
      WithBrowserHost (GetString ov ''browser-host''),
      WithBrowserPort (GetInt ov ''browser-port''),
      WithProxyHost (GetString ov ''proxy-host''),
      WithProxyPort (GetInt ov ''proxy-port''),
      WithConfigCache (Some configCache)]"

definition main_controller ::
  "overrides \<Rightarrow> 'f \<Rightarrow> 'r \<Rightarrow> nat \<Rightarrow> nat \<Rightarrow> nat \<Rightarrow> ('f, 'r, nat, session_option) controller_options" where
  "main_controller ov frontier robotsEvaluator logWriter screenshotWriter configCache =
     NewBrowserController
       [WithListenInterface (GetString ov ''interface''),
        WithListenPort (GetInt ov ''port''),
        WithMaxConcurrentSessions (GetInt ov ''proxy-count''),
        WithFrontier frontier,
        WithRobotsEvaluator robotsEvaluator,
        WithLogWriter logWriter,
        WithSessionOptions (main_session_options ov logWriter screenshotWriter configCache)]"

definition main_metrics :: "overrides \<Rightarrow> metrics_server" where
  "main_metrics ov = metrics_NewServer (GetString ov ''metrics-interface'')
     (GetInt ov ''metrics-port'') (GetString ov ''metrics-path'')"

lemmas getter_defs [step_defs] = GetString_def GetInt_def GetBool_def GetDuration_def setting_def

lemma main_controller_fields:
  "bco_maxSessions (main_controller ov f r l sw cc) = GetInt ov ''proxy-count''"
  "bco_sessionOpts (main_controller ov f r l sw cc) = main_session_options ov l sw cc"
  "bco_frontier (main_controller ov f r l sw cc) = Some f"
  "bco_robotsEvaluator (main_controller ov f r l sw cc) = Some r"
  "bco_logWriter (main_controller ov f r l sw cc) = Some l"
  "bco_closeTimeout (main_controller ov f r l sw cc) = 300000000000"
  by (simp_all add: main_controller_def NewBrowserController_def controller_option_defs
      defaultBrowserControllerOptions_def)

section \<open>The life of the process\<close>

text \<open>
  What \<open>main\<close> panics with: an error it was given, or a panic of a component. The values of
  run-time panics are errors, that of a \<open>sync.WaitGroup\<close> with a negative counter is a string.
\<close>

datatype main_panic = PanicError error | PanicRuntime panic

datatype main_end = Finished | Unwinding main_panic

fun is_error_value :: "main_panic \<Rightarrow> bool" where
  "is_error_value (PanicError e) = True"
| "is_error_value (PanicRuntime p) = (p \<noteq> NegativeWaitGroupCounter)"

datatype service = Tracing | ContentWriter | FrontierService | RobotsService | LogService | DatabaseService | Metrics

text \<open>
  What \<open>main\<close> starts, on a state \<open>'w\<close> of the world: the tracer, the connections with their
  settings, the database, the metrics server in its goroutine, and \<open>Run\<close>, during which the
  goroutines for signals and for the metrics server may call \<open>Shutdown\<close>. The errors of the
  closing calls are ignored; those modelled here do not panic on what has been opened.
\<close>

record ('d, 'w) main_env =
  me_BindPFlags :: "error option"
  me_Init :: "'w \<Rightarrow> error option \<times> 'w"
  me_interceptors :: "'d list"
  me_Connect :: "service \<Rightarrow> 'd connection_options \<Rightarrow> 'w \<Rightarrow> error option \<times> 'w"
  me_ConnectDb :: "database_options \<Rightarrow> 'w \<Rightarrow> error option \<times> 'w"
  me_ServeMetrics :: "metrics_server \<Rightarrow> 'w \<Rightarrow> 'w"
  me_Run :: "overrides \<Rightarrow> 'w \<Rightarrow> error option go \<times> 'w"
  me_Close :: "service \<Rightarrow> 'w \<Rightarrow> 'w"

definition deferred :: "('w \<Rightarrow> 'w) \<Rightarrow> ('w \<Rightarrow> main_end \<times> 'w) \<Rightarrow> 'w \<Rightarrow> main_end \<times> 'w" where
  "deferred close body w = (let (r, w1) = body w in (r, close w1))"

definition connected ::
  "('w \<Rightarrow> error option \<times> 'w) \<Rightarrow> ('w \<Rightarrow> 'w) \<Rightarrow> ('w \<Rightarrow> main_end \<times> 'w) \<Rightarrow> 'w \<Rightarrow> main_end \<times> 'w" where
  "connected connect close body w =
     (case connect w of
        (Some err, w1) \<Rightarrow> (Unwinding (PanicError err), w1)
      | (None, w1) \<Rightarrow> deferred close body w1)"

text \<open>A tracer that cannot be made is only logged.\<close>

definition traced ::
  "('w \<Rightarrow> error option \<times> 'w) \<Rightarrow> ('w \<Rightarrow> 'w) \<Rightarrow> ('w \<Rightarrow> main_end \<times> 'w) \<Rightarrow> 'w \<Rightarrow> main_end \<times> 'w" where
  "traced init close body w =
     (case init w of (Some err, w1) \<Rightarrow> body w1 | (None, w1) \<Rightarrow> deferred close body w1)"

fun end_of_Run :: "error option go \<Rightarrow> main_end" where
  "end_of_Run (Ret None) = Finished"
| "end_of_Run (Ret (Some err)) = Unwinding (PanicError err)"
| "end_of_Run (Panic p) = Unwinding (PanicRuntime p)"

definition run_controller :: "('d, 'w) main_env \<Rightarrow> overrides \<Rightarrow> 'w \<Rightarrow> main_end \<times> 'w" where
  "run_controller env ov w = (let (r, w1) = me_Run env ov w in (end_of_Run r, w1))"

definition serve_and_run :: "('d, 'w) main_env \<Rightarrow> overrides \<Rightarrow> 'w \<Rightarrow> main_end \<times> 'w" where
  "serve_and_run env ov w =
     deferred (me_Close env Metrics) (run_controller env ov) (me_ServeMetrics env (main_metrics ov) w)"

abbreviation settings_of :: "(unit, 'd, unit) service_client \<Rightarrow> 'd connection_options" where
  "settings_of client \<equiv> conn_opts (sc_conn client)"

definition connect_and_run :: "('d, 'w) main_env \<Rightarrow> overrides \<Rightarrow> 'w \<Rightarrow> main_end \<times> 'w" where
  "connect_and_run env ov =
    (connected (me_Connect env ContentWriter (settings_of (ScreenshotWriter_New (screenshot_options ov))))
       (me_Close env ContentWriter)
    (connected (me_Connect env FrontierService
        (settings_of (Frontier_New (frontier_options ov (me_interceptors env)))))
       (me_Close env FrontierService)
    (connected (me_Connect env RobotsService (settings_of (RobotsEvaluator_New (robots_options ov))))
       (me_Close env RobotsService)
    (connected (me_Connect env LogService (settings_of (LogWriter_New (log_options ov))))
       (me_Close env LogService)
    (connected (me_ConnectDb env (main_database_options ov)) (me_Close env DatabaseService)
       (serve_and_run env ov))))))"

definition main_body :: "('d, 'w) main_env \<Rightarrow> overrides \<Rightarrow> 'w \<Rightarrow> main_end \<times> 'w" where
  "main_body env ov = traced (me_Init env) (me_Close env Tracing) (connect_and_run env ov)"

text \<open>
  The exit status. The deferred function that recovers logs an error value at the level
  Fatal, which exits with 1; any other value it drops.
\<close>

fun exit_status :: "main_end \<Rightarrow> int" where
  "exit_status Finished = 0"
| "exit_status (Unwinding p) = (if is_error_value p then 1 else 0)"

definition main :: "('d, 'w) main_env \<Rightarrow> overrides \<Rightarrow> 'w \<Rightarrow> int \<times> 'w" where
  "main env ov w =
     (case me_BindPFlags env of
        Some err \<Rightarrow> (1, w)
      | None \<Rightarrow>
          if GetBool ov ''help'' then (0, w)
          else (let (r, w1) = main_body env ov w in (exit_status r, w1)))"

section \<open>What is opened is closed\<close>

text \<open>An environment that records what is opened and closed, and how \<open>Run\<close> ended.\<close>

datatype life_event = Opened service | Closed service | RunEnded "error option go"

definition record_open ::
  "service \<Rightarrow> ('w \<Rightarrow> error option \<times> 'w) \<Rightarrow> 'w \<times> life_event list \<Rightarrow>
     error option \<times> 'w \<times> life_event list" where
  "record_open svc f w =
     (let (e, w1) = f (fst w) in (e, w1, snd w @ (if e = None then [Opened svc] else [])))"

definition record_close :: "service \<Rightarrow> ('w \<Rightarrow> 'w) \<Rightarrow> 'w \<times> life_event list \<Rightarrow> 'w \<times> life_event list" where
  "record_close svc f w = (f (fst w), snd w @ [Closed svc])"

definition recording_env :: "('d, 'w) main_env \<Rightarrow> ('d, 'w \<times> life_event list) main_env" where
  "recording_env env =
     \<lparr>me_BindPFlags = me_BindPFlags env,
      me_Init = record_open Tracing (me_Init env),
      me_interceptors = me_interceptors env,
      me_Connect = (\<lambda>svc opts. record_open svc (me_Connect env svc opts)),
      me_ConnectDb = (\<lambda>opts. record_open DatabaseService (me_ConnectDb env opts)),
      me_ServeMetrics = (\<lambda>m w. (me_ServeMetrics env m (fst w), snd w @ [Opened Metrics])),
      me_Run = (\<lambda>ov w. let (r, w1) = me_Run env ov (fst w) in (r, w1, snd w @ [RunEnded r])),
      me_Close = (\<lambda>svc. record_close svc (me_Close env svc))\<rparr>"

lemma recording_env_simps [simp]:
  "me_BindPFlags (recording_env env) = me_BindPFlags env"
  "me_Init (recording_env env) = record_open Tracing (me_Init env)"
  "me_interceptors (recording_env env) = me_interceptors env"
  "me_Connect (recording_env env) svc opts = record_open svc (me_Connect env svc opts)"
  "me_ConnectDb (recording_env env) dbo = record_open DatabaseService (me_ConnectDb env dbo)"
  "me_Close (recording_env env) svc = record_close svc (me_Close env svc)"
  by (simp_all add: recording_env_def)

text \<open>
  A part of \<open>main\<close> that opens \<open>svcs\<close> in order: it stops at one that fails, with the error of
  that, or runs the controller; then it closes what it has opened, the last first.
\<close>

definition brackets ::
  "service list \<Rightarrow> ('w \<times> life_event list \<Rightarrow> main_end \<times> 'w \<times> life_event list) \<Rightarrow> bool" where
  "brackets svcs m \<longleftrightarrow>
     (\<forall>w ev r w1 ev1. m (w, ev) = (r, w1, ev1) \<longrightarrow>
        (\<exists>k e. k < length svcs \<and> r = Unwinding (PanicError e)
           \<and> ev1 = ev @ map Opened (take k svcs) @ map Closed (rev (take k svcs)))
        \<or> (\<exists>x. r = end_of_Run x
           \<and> ev1 = ev @ map Opened svcs @ [RunEnded x] @ map Closed (rev svcs)))"

lemma brackets_connected [intro]:
  assumes "brackets svcs body"
  shows "brackets (svc # svcs) (connected (record_open svc f) (record_close svc g) body)"
  unfolding brackets_def
proof (intro allI impI)
  fix w ev r w1 ev1
  assume run: "connected (record_open svc f) (record_close svc g) body (w, ev) = (r, w1, ev1)"
  obtain e w2 where f: "f w = (e, w2)" by (cases "f w")
  show "(\<exists>k e. k < length (svc # svcs) \<and> r = Unwinding (PanicError e)
      \<and> ev1 = ev @ map Opened (take k (svc # svcs)) @ map Closed (rev (take k (svc # svcs))))
    \<or> (\<exists>x. r = end_of_Run x
      \<and> ev1 = ev @ map Opened (svc # svcs) @ [RunEnded x] @ map Closed (rev (svc # svcs)))"
  proof (cases e)
    case (Some err)
    then show ?thesis using run f by (auto simp: connected_def record_open_def intro: exI [of _ 0])
  next
    case None
    obtain r2 w3 ev2 where body: "body (w2, ev @ [Opened svc]) = (r2, w3, ev2)"
      by (metis prod_cases3)
    with run f None have r: "r = r2" "ev1 = ev2 @ [Closed svc]"
      by (auto simp: connected_def record_open_def deferred_def record_close_def)
    from assms body have "(\<exists>k e. k < length svcs \<and> r2 = Unwinding (PanicError e)
           \<and> ev2 = (ev @ [Opened svc]) @ map Opened (take k svcs) @ map Closed (rev (take k svcs)))
        \<or> (\<exists>x. r2 = end_of_Run x
           \<and> ev2 = (ev @ [Opened svc]) @ map Opened svcs @ [RunEnded x] @ map Closed (rev svcs))"
      unfolding brackets_def by blast
    then show ?thesis
    proof (elim disjE exE conjE)
      fix k e
      assume "k < length svcs" "r2 = Unwinding (PanicError e)"
        "ev2 = (ev @ [Opened svc]) @ map Opened (take k svcs) @ map Closed (rev (take k svcs))"
      then show ?thesis using r by (intro disjI1 exI [of _ "Suc k"] exI [of _ e]) simp
    qed (use r in auto)
  qed
qed

lemma brackets_serve: "brackets [Metrics] (serve_and_run (recording_env env) ov)"
  by (auto simp: brackets_def serve_and_run_def deferred_def run_controller_def recording_env_def
      record_close_def split: prod.splits)

definition connections :: "service list" where
  "connections = [ContentWriter, FrontierService, RobotsService, LogService, DatabaseService, Metrics]"

lemma brackets_connections: "brackets connections (connect_and_run (recording_env env) ov)"
  unfolding connections_def connect_and_run_def recording_env_simps
  by (intro brackets_connected brackets_serve)

section \<open>Properties\<close>

text \<open>The tracer is opened first, or left out when it cannot be made.\<close>

lemma brackets_main:
  assumes "main_body (recording_env env) ov (w, ev) = (r, w1, ev1)"
  shows "\<exists>svcs. svcs \<in> {connections, Tracing # connections} \<and>
     ((\<exists>k e. k < length svcs \<and> r = Unwinding (PanicError e)
           \<and> ev1 = ev @ map Opened (take k svcs) @ map Closed (rev (take k svcs)))
        \<or> (\<exists>x. r = end_of_Run x
           \<and> ev1 = ev @ map Opened svcs @ [RunEnded x] @ map Closed (rev svcs)))"
proof -
  let ?body = "connect_and_run (recording_env env) ov"
  obtain e w2 where init: "me_Init env w = (e, w2)" by (cases "me_Init env w")
  show ?thesis
  proof (cases e)
    case None
    then have "connected (record_open Tracing (me_Init env)) (record_close Tracing (me_Close env Tracing))
        ?body (w, ev) = (r, w1, ev1)"
      using assms init by (simp add: main_body_def traced_def connected_def record_open_def)
    with brackets_connected [OF brackets_connections, of Tracing "me_Init env" "me_Close env Tracing" env ov]
    show ?thesis unfolding brackets_def by (intro exI [of _ "Tracing # connections"]) blast
  next
    case (Some err)
    then have "?body (w2, ev) = (r, w1, ev1)"
      using assms init by (simp add: main_body_def traced_def record_open_def)
    with brackets_connections [of env ov]
    show ?thesis unfolding brackets_def by (intro exI [of _ connections]) blast
  qed
qed

text \<open>
  C25 (safety). Whatever fails or panics, \<open>main\<close> closes exactly the services it has opened, the
  last first; it gives up at the first connection that fails, with exit status 1, and otherwise
  the status is that of how \<open>Run\<close> ended: 0 exactly when it returned nil, or panicked with a value
  that is no error.
\<close>

theorem main_closes_what_it_opens:
  assumes "main (recording_env env) ov (w, []) = (status, w1, ev)"
    and "me_BindPFlags env = None" and "\<not> GetBool ov ''help''"
  shows "\<exists>svcs. svcs \<in> {connections, Tracing # connections} \<and>
     ((\<exists>k < length svcs. status = 1
         \<and> ev = map Opened (take k svcs) @ map Closed (rev (take k svcs)))
      \<or> (\<exists>x. ev = map Opened svcs @ [RunEnded x] @ map Closed (rev svcs)
         \<and> (status = 0 \<longleftrightarrow> x = Ret None \<or> x = Panic NegativeWaitGroupCounter)
         \<and> (status \<noteq> 0 \<longrightarrow> status = 1)))"
proof -
  obtain r where body: "main_body (recording_env env) ov (w, []) = (r, w1, ev)"
    and status: "status = exit_status r"
    using assms by (auto simp: main_def split: prod.splits)
  have run: "(exit_status (end_of_Run x) = 0 \<longleftrightarrow> x = Ret None \<or> x = Panic NegativeWaitGroupCounter)
      \<and> (exit_status (end_of_Run x) \<noteq> 0 \<longrightarrow> exit_status (end_of_Run x) = 1)" for x
    by (cases x rule: end_of_Run.cases) auto
  from brackets_main [OF body] obtain svcs where svcs: "svcs \<in> {connections, Tracing # connections}"
    and cases: "(\<exists>k e. k < length svcs \<and> r = Unwinding (PanicError e)
           \<and> ev = map Opened (take k svcs) @ map Closed (rev (take k svcs)))
        \<or> (\<exists>x. r = end_of_Run x \<and> ev = map Opened svcs @ [RunEnded x] @ map Closed (rev svcs))"
    by auto
  from cases show ?thesis
  proof (elim disjE exE conjE)
    fix k e
    assume "k < length svcs" "r = Unwinding (PanicError e)"
      "ev = map Opened (take k svcs) @ map Closed (rev (take k svcs))"
    then show ?thesis using svcs status by (intro exI [of _ svcs]) auto
  next
    fix x
    assume "r = end_of_Run x" "ev = map Opened svcs @ [RunEnded x] @ map Closed (rev svcs)"
    then show ?thesis using svcs status run [of x] by (intro exI [of _ svcs]) blast
  qed
qed

text \<open>A world in which the robots evaluator does not answer; the world counts nothing.\<close>

definition no_robots_env :: "(unit, unit) main_env" where
  "no_robots_env =
     \<lparr>me_BindPFlags = None, me_Init = (\<lambda>w. (None, w)), me_interceptors = [],
      me_Connect = (\<lambda>svc opts w. (if svc = RobotsService then Some EOF else None, w)),
      me_ConnectDb = (\<lambda>opts w. (None, w)), me_ServeMetrics = (\<lambda>m w. w),
      me_Run = (\<lambda>ov w. (Ret None, w)), me_Close = (\<lambda>svc w. w)\<rparr>"

lemma no_robots_run:
  "main (recording_env no_robots_env) Map.empty ((), []) = (1, (),
     [Opened Tracing, Opened ContentWriter, Opened FrontierService, Closed FrontierService,
      Closed ContentWriter, Closed Tracing])"
  by (simp add: main_def main_body_def connect_and_run_def traced_def connected_def deferred_def
      record_open_def record_close_def no_robots_env_def getter_defs flag_defaults_def)

theorem main_closes_what_it_opens_witness:
  "\<exists>svcs k. k < length svcs \<and> map Opened (take k svcs) @ map Closed (rev (take k svcs))
     = [Opened Tracing, Opened ContentWriter, Opened FrontierService, Closed FrontierService,
        Closed ContentWriter, Closed Tracing]"
proof -
  have ok: "me_BindPFlags no_robots_env = None" "\<not> GetBool Map.empty ''help''"
    by (simp_all add: no_robots_env_def getter_defs flag_defaults_def)
  let ?ev = "[Opened Tracing, Opened ContentWriter, Opened FrontierService, Closed FrontierService,
      Closed ContentWriter, Closed Tracing]"
  have "?ev \<noteq> map Opened svcs @ [RunEnded x] @ map Closed (rev svcs)" for svcs x
  proof
    assume "?ev = map Opened svcs @ [RunEnded x] @ map Closed (rev svcs)"
    then have "RunEnded x \<in> set ?ev" by (metis in_set_conv_decomp append_Cons append_Nil)
    then show False by simp
  qed
  with main_closes_what_it_opens [OF no_robots_run ok] show ?thesis by metis
qed

section \<open>The proxies of the sessions\<close>

definition main_run ::
  "'u url_lib \<Rightarrow> ('f, 'r, 'l, session_option) controller_options \<Rightarrow> session run_state \<Rightarrow> bool" where
  "main_run lib bc s \<longleftrightarrow>
     (\<exists>sr. NewRegistry (bco_maxSessions bc) = Ret sr
       \<and> (run_step (Session_New lib (bco_sessionOpts bc)))\<^sup>*\<^sup>*
           (run_start (NewApiServer (bco_listenInterface bc) (bco_listenPort bc)) sr) s)"

lemma main_session_proxy:
  "ses_proxyHost (newDefaultSession (main_session_options ov l sw cc)) = GetString ov ''proxy-host''"
  "ses_proxyPort (newDefaultSession (main_session_options ov l sw cc)) = GetInt ov ''proxy-port''"
  "equipped (newDefaultSession (main_session_options ov l sw cc))"
  by (simp_all add: newDefaultSession_def main_session_options_def session_option_defs equipped_def)


text \<open>
  C27 (bounds). In every state of the controller \<open>main\<close> runs, the session in use under id \<open>i\<close>
  has that id and the handles of the components it calls, is one of the ids 1 to
  \<open>proxy-count\<close> - 1, and talks to the recorder proxy at the configured host and port plus its
  id; sessions in use at the same time use different proxies.
\<close>

theorem main_session_proxies:
  assumes "main_run lib (main_controller ov f r l sw cc) s"
    and "sr_sessions (rs_registry s) ! i = Some sess" and "i < length (sr_sessions (rs_registry s))"
  shows "1 \<le> i \<and> int i < GetInt ov ''proxy-count'' \<and> ses_Id sess = i \<and> equipped sess
    \<and> proxy_url sess = ''http://'' @ GetString ov ''proxy-host'' @ '':''
        @ Itoa (GetInt ov ''proxy-port'' + int i)
    \<and> (\<forall>j sess'. sr_sessions (rs_registry s) ! j = Some sess' \<longrightarrow> j < length (sr_sessions (rs_registry s))
        \<longrightarrow> j \<noteq> i \<longrightarrow> 0 \<le> GetInt ov ''proxy-port'' \<longrightarrow> proxy_url sess' \<noteq> proxy_url sess)"
proof -
  let ?New = "Session_New lib (main_session_options ov l sw cc)"
  obtain sr where sr: "NewRegistry (GetInt ov ''proxy-count'') = Ret sr"
    and run: "(run_step ?New)\<^sup>*\<^sup>* (run_start (NewApiServer (bco_listenInterface (main_controller ov f r l sw cc))
      (bco_listenPort (main_controller ov f r l sw cc))) sr) s"
    using assms(1) by (auto simp: main_run_def main_controller_fields)
  have made: "slots_made ?New (nat (GetInt ov ''proxy-count'')) s" by (rule slots_made_run [OF run sr])
  have inv: "pool_inv (rs_registry s)"
    using run_inv [OF run_reachable_from [OF run sr]] by (simp add: owner_inv_def)
  have New: "?New j = Inr sess'" "1 \<le> j" "int j < GetInt ov ''proxy-count''"
    if "sr_sessions (rs_registry s) ! j = Some sess'" "j < length (sr_sessions (rs_registry s))" for j sess'
  proof -
    from that have "j \<in> used (rs_registry s)" by (simp add: used_slots_def)
    then show "1 \<le> j" using used_below [OF inv] by auto
    show "?New j = Inr sess'" "int j < GetInt ov ''proxy-count''"
      using made that by (auto simp: slots_made_def)
  qed
  note this [OF assms(2,3)]
  moreover from Session_New_fields [OF this(1)] have "ses_Id sess = i"
    "ses_proxyHost sess = GetString ov ''proxy-host''" "ses_proxyPort sess = GetInt ov ''proxy-port''"
    by (simp_all add: main_session_proxy)
  moreover have "equipped sess"
    using Session_New_equipped [OF New(1) [OF assms(2,3)]] by (simp add: main_session_proxy)
  moreover have "proxy_url sess' \<noteq> proxy_url sess" if "sr_sessions (rs_registry s) ! j = Some sess'"
    "j < length (sr_sessions (rs_registry s))" "j \<noteq> i" "0 \<le> GetInt ov ''proxy-port''" for j sess'
    by (rule Session_New_proxies_differ [OF New(1) [OF that(1,2)] New(1) [OF assms(2,3)] that(3)])
      (simp add: main_session_proxy that(4))
  ultimately show ?thesis by (simp add: proxy_url_def)
qed

theorem main_session_proxies_witness:
  "\<exists>sess. Session_New plain_urls (main_session_options [''proxy-count'' \<mapsto> FInt 2] 1 2 3) 1 = Inr sess
     \<and> proxy_url sess = ''http://localhost:'' @ Itoa 9901"
proof -
  let ?ov = "[''proxy-count'' \<mapsto> FInt 2]"
  let ?bc = "main_controller ?ov () () 1 2 3"
  let ?New = "Session_New plain_urls (main_session_options ?ov 1 2 3)"
  let ?sr = "\<lparr>sr_sessions = [None, None], sr_pool = [1], sr_wg = 0\<rparr> :: session session_registry"
  let ?s0 = "run_start (NewApiServer (bco_listenInterface ?bc) (bco_listenPort ?bc)) ?sr"
  let ?s1 = "?s0\<lparr>rs_pc := Acquiring\<rparr>"
  obtain sess where sess: "?New 1 = Inr sess" by (simp add: Session_New_def plain_urls_def Let_def)
  let ?sr1 = "\<lparr>sr_sessions = [None, Some sess], sr_pool = [], sr_wg = 1\<rparr>"
  let ?s2 = "?s1\<lparr>rs_registry := ?sr1, rs_pc := acquired (Inr (1, sess))\<rparr>"
  have reg: "NewRegistry (bco_maxSessions ?bc) = Ret ?sr"
    by (simp add: main_controller_fields getter_defs NewRegistry_def numeral_2_eq_2)
  have "run_step ?New ?s0 ?s1" by (rule select_default) (simp_all add: run_start_def)
  moreover have "run_step ?New ?s1 ?s2"
    by (rule acquire [of _ None]) (simp_all add: run_start_def GetNextAvailable_def sess [simplified] Let_def)
  ultimately have "(run_step ?New)\<^sup>*\<^sup>* ?s0 ?s2" by (meson converse_rtranclp_into_rtranclp rtranclp.rtrancl_refl)
  with reg have "main_run plain_urls ?bc ?s2" unfolding main_run_def main_controller_fields(2) by blast
  from main_session_proxies [OF this, of 1 sess] show ?thesis
    using sess by (simp add: getter_defs flag_defaults_def)
qed

end
