(* ===== verification/Message_Effects.thy ===== *)
theory Message_Effects
  imports Server_Props
begin

text \<open>
  What handling a message of a proxy can do to the sessions, to the registry and to the call:
  the effect on any session is that of registering and updating requests, notifications and
  aborts, one after the other.
\<close>

section \<open>Effects\<close>

text \<open>Every session of the second world comes from that of the first by a relation; the rest is kept.\<close>

definition same_frame :: "(session \<Rightarrow> session \<Rightarrow> bool) \<Rightarrow> world \<Rightarrow> world \<Rightarrow> bool" where
  "same_frame R w w1 \<longleftrightarrow> w_registry w1 = w_registry w \<and> w_options w1 = w_options w
     \<and> w_next w1 = w_next w \<and> (\<forall>b. R (w_heap w b) (w_heap w1 b))"

definition addresses :: "do_state \<Rightarrow> nat set" where
  "addresses st = {a. do_sess st = Some a \<or> (\<exists>i. do_req st = Some (a, i))}"

lemma addresses_update [intro]:
  "addresses st \<subseteq> A \<Longrightarrow> addresses (st\<lparr>do_req := None\<rparr>) \<subseteq> A"
  "addresses st \<subseteq> A \<Longrightarrow> a \<in> A \<Longrightarrow> addresses (st\<lparr>do_req := Some (a, j)\<rparr>) \<subseteq> A"
  "addresses st \<subseteq> A \<Longrightarrow> addresses (st\<lparr>do_sess := None\<rparr>) \<subseteq> A"
  "addresses st \<subseteq> A \<Longrightarrow> a \<in> A \<Longrightarrow> addresses (st\<lparr>do_sess := Some a\<rparr>) \<subseteq> A"
  by (auto simp: addresses_def)

text \<open>
  A result that comes from the world \<open>w\<close> by effects and leaves the call with addresses of \<open>A\<close>.
\<close>

definition framed :: "(session \<Rightarrow> session \<Rightarrow> bool) \<Rightarrow> world \<Rightarrow> nat set \<Rightarrow> do_result \<Rightarrow> bool" where
  "framed R w A res \<longleftrightarrow> (case res of (out, st, w1, rs) \<Rightarrow> same_frame R w w1 \<and> addresses st \<subseteq> A)"

lemma framed_simps [simp]:
  "framed R w A (out, st, w1, rs) \<longleftrightarrow> same_frame R w w1 \<and> addresses st \<subseteq> A"
  "framed R w A (send_reply inp r st w1) \<longleftrightarrow> same_frame R w w1 \<and> addresses st \<subseteq> A"
  by (auto simp: framed_def send_reply_def split: option.splits)

definition registered :: "'a session_registry \<Rightarrow> 'a set" where
  "registered sr = {a. \<exists>i < length (sr_sessions sr). sr_sessions sr ! i = Some a}"

lemma Registry_Get_Some:
  "Registry_Get k sr = Ret (Some a) \<longleftrightarrow>
     0 \<le> k \<and> nat k < length (sr_sessions sr) \<and> sr_sessions sr ! nat k = Some a"
  by (auto simp: Registry_Get_def nat_less_iff split: if_splits)

definition named :: "do_input \<Rightarrow> 'a session_registry \<Rightarrow> 'a set" where
  "named inp sr = {a. \<exists>v. in_request inp = DoNew v \<and> Registry_Get (sint (nr_ProxyId v)) sr = Ret (Some a)}"

lemma named_registered: "named inp sr \<subseteq> registered sr"
  by (auto simp: named_def registered_def Registry_Get_Some)

text \<open>The effects a message may have on a session, and what holds of every relation with them.\<close>

locale message_effect =
  fixes R :: "session \<Rightarrow> session \<Rightarrow> bool" and inp :: do_input
  assumes none: "R s s" and twice: "R s s1 \<Longrightarrow> R s1 s2 \<Longrightarrow> R s s2"
    and update: "ses_Requests s = Some r \<Longrightarrow> R s (s\<lparr>ses_Requests := Some (r\<lparr>rr_requests := reqs\<rparr>)\<rparr>)"
    and notify: "Session_Notify (in_now inp) i s = (res, s1) \<Longrightarrow> R s s1"
    and abort: "AbortFetch s = (res', s1) \<Longrightarrow> R s s1"
begin

declare none [simp]

lemma same_frame_refl [simp]: "same_frame R w w"
  by (simp add: same_frame_def none)

lemma same_frame_trans: "same_frame R w w1 \<Longrightarrow> same_frame R w1 w2 \<Longrightarrow> same_frame R w w2"
  unfolding same_frame_def by (metis twice)

lemma same_frame_set [intro]: "R (w_heap w a) s \<Longrightarrow> same_frame R w (set_session a s w)"
  by (simp add: same_frame_def set_session_def none)

lemma same_frame_update [simp]: "same_frame R w (update_request p f w)"
  by (auto simp: update_request_def Let_def split: option.splits intro!: same_frame_set update)

lemma same_frame_update_on [intro]: "same_frame R w w1 \<Longrightarrow> same_frame R w (update_request p f w1)"
  by (erule same_frame_trans) simp

lemma same_frame_asked [simp]:
  "same_frame R w (w\<lparr>w_asked := q\<rparr>)" "same_frame R w (w\<lparr>w_written := l\<rparr>)"
  by (simp_all add: same_frame_def none)

lemma framed_notify [intro]:
  assumes "same_frame R w w1" and "addresses st \<subseteq> A"
    and "\<And>st w1. same_frame R w w1 \<Longrightarrow> addresses st \<subseteq> A \<Longrightarrow> framed R w A (k st w1)"
  shows "framed R w A (then_notify inp a i st w1 k)"
proof -
  have "same_frame R w (set_session a s w1)"
    if "Session_Notify (in_now inp) i (w_heap w1 a) = (r, s)" for r s
    by (rule same_frame_trans [OF assms(1)]) (rule same_frame_set, rule notify [OF that])
  then show ?thesis
    using assms(2,3) by (auto simp: then_notify_def split: prod.splits go.splits option.splits)
qed

lemma framed_claim [intro]:
  assumes "same_frame R w w1" and "addresses st \<subseteq> A" and "a \<in> A"
    and "\<And>st w1. same_frame R w w1 \<Longrightarrow> addresses st \<subseteq> A \<Longrightarrow> framed R w A (k st w1)"
  shows "framed R w A (claim_request inp a i st w1 k)"
proof -
  have "framed R w A (then_notify inp a n (st\<lparr>do_req := Some (a, j)\<rparr>) (update_request p f w1) k)" for n j p f
    by (intro framed_notify same_frame_update_on addresses_update assms)
  moreover have "framed R w A (k (st\<lparr>do_req := None\<rparr>) w1)"
    by (intro assms addresses_update)
  ultimately show ?thesis
    using assms(1,2) by (auto simp: claim_request_def Let_def split: option.splits)
qed

lemma framed_options [intro]:
  assumes "same_frame R w w1" and "addresses st \<subseteq> A" and "a \<in> A"
    and "\<And>st w1. same_frame R w w1 \<Longrightarrow> addresses st \<subseteq> A \<Longrightarrow> framed R w A (k st w1)"
  shows "framed R w A (claim_options lib a u st w1 k)"
proof -
  have "framed R w A (k (st\<lparr>do_req := Some (a, j)\<rparr>) (update_request p f w1))" for j p f
    by (intro assms same_frame_update_on addresses_update)
  moreover have "framed R w A (k (st\<lparr>do_req := None\<rparr>) w1)"
    by (intro assms addresses_update)
  ultimately show ?thesis
    using assms(1,2) by (auto simp: claim_options_def split: option.splits)
qed

lemma framed_reply [intro]:
  "same_frame R w w1 \<Longrightarrow> addresses st \<subseteq> A \<Longrightarrow> framed R w A (reply_new rx lib inp a u st w1)"
  by (auto simp: reply_new_def split: go.splits)

lemma framed_allowed [intro]:
  "same_frame R w w1 \<Longrightarrow> addresses st \<subseteq> A \<Longrightarrow> a \<in> A \<Longrightarrow> framed R w A (allowed_request rx lib inp v a st w1)"
  by (auto simp: allowed_request_def split: go.splits)

lemma framed_session:
  assumes "addresses st \<subseteq> A" and "a \<in> A"
  shows "framed R w A (session_request rx lib inp v a st w)"
proof -
  have "framed R w A (allowed_request rx lib inp v a st (w\<lparr>w_asked := q\<rparr>))" for q
    by (intro framed_allowed assms same_frame_asked)
  moreover have "framed R w A (claim_request inp a i st (w\<lparr>w_asked := q\<rparr>) (send_reply inp r))" for q i r
    by (intro framed_claim assms same_frame_asked) simp
  ultimately show ?thesis
    using assms by (auto simp: session_request_def split: go.splits prod.splits bool.splits)
qed

lemma framed_handle_notify: "framed R w (addresses st) (handle_notify inp st w)"
  by (auto simp: handle_notify_def split: option.splits)

lemma same_frame_abort: "completed_abort p st w = (r, w1) \<Longrightarrow> same_frame R w w1"
  by (auto simp: completed_abort_def Let_def split: option.splits go.splits if_splits prod.splits
      intro!: same_frame_set dest: abort)

lemma framed_finish:
  assumes "same_frame R w w1"
  shows "framed R w (addresses st) (completed_finish inp cached p st w1)"
proof -
  let ?w2 = "update_request p (\<lambda>q. q\<lparr>rq_GotComplete := True\<rparr>)
      (if cached then update_request p (\<lambda>q. q\<lparr>rq_FromCache := True\<rparr>) w1 else w1)"
  have "same_frame R w ?w2" using assms by auto
  then show ?thesis by (auto simp: completed_finish_def Let_def split: option.splits)
qed

lemma framed_completed: "framed R w (addresses st) (handle_completed inp cached cl st w)"
proof -
  have "framed R w (addresses st) (completed_finish inp cached p st w2)"
    if "completed_abort p st (update_request p f w) = (r, w2)" for p f r w2
    by (rule framed_finish) (rule same_frame_trans [OF same_frame_update same_frame_abort [OF that]])
  moreover have "same_frame R w w2"
    if "completed_abort p st (update_request p f w) = (r, w2)" for p f r w2
    by (rule same_frame_trans [OF same_frame_update same_frame_abort [OF that]])
  ultimately show ?thesis
    by (auto simp: handle_completed_def Let_def split: option.splits prod.splits go.splits
        intro: framed_finish)
qed

text \<open>What any message does: no address of a session in use, and no other old one, is given away anew.\<close>

lemma handle_new_frame:
  assumes "handle_new rx lib inp v st w = (out, st1, w1, rs)"
  shows "w_registry w1 = w_registry w \<and> w_options w1 = w_options w \<and> w_next w \<le> w_next w1
    \<and> (\<forall>b < w_next w. R (w_heap w b) (w_heap w1 b))
    \<and> (\<forall>b \<in> addresses st1. b \<in> addresses st
         \<or> Registry_Get (sint (nr_ProxyId v)) (w_registry w) = Ret (Some b)
         \<or> (w_next w \<le> b \<and> b < w_next w1))"
proof (cases "nr_ProxyId v = 0")
  case True
  have "addresses (st\<lparr>do_sess := Some (w_next w)\<rparr>) \<subseteq> insert (w_next w) (addresses st)"
    by (rule addresses_update) auto
  with True assms show ?thesis
    by (auto simp: handle_new_def send_reply_def set_session_def Let_def split: option.splits)
next
  case False
  show ?thesis
  proof (cases "Registry_Get (sint (nr_ProxyId v)) (w_registry w)")
    case (Panic p)
    then show ?thesis using False assms by (auto simp: handle_new_def)
  next
    case (Ret x)
    show ?thesis
    proof (cases x)
      case None
      have "addresses (st\<lparr>do_sess := None\<rparr>) \<subseteq> addresses st" by (rule addresses_update) simp
      then show ?thesis
        using False Ret None assms by (auto simp: handle_new_def send_reply_def split: option.splits)
    next
      case (Some a)
      have "framed R w (insert a (addresses st)) (session_request rx lib inp v a (st\<lparr>do_sess := Some a\<rparr>) w)"
        by (rule framed_session, rule addresses_update) auto
      then show ?thesis
        using False Ret Some assms by (auto simp: handle_new_def same_frame_def)
    qed
  qed
qed

lemma Do_step_frame:
  assumes "Do_step rx lib inp st w = (out, st1, w1, rs)"
  shows "w_registry w1 = w_registry w \<and> w_options w1 = w_options w \<and> w_next w \<le> w_next w1
    \<and> (\<forall>b < w_next w. R (w_heap w b) (w_heap w1 b))
    \<and> (\<forall>b \<in> addresses st1. b \<in> addresses st \<or> b \<in> named inp (w_registry w)
         \<or> (w_next w \<le> b \<and> b < w_next w1))"
proof -
  have other: "?thesis" if "framed R w (addresses st) (out, st1, w1, rs)"
    using that by (auto simp: same_frame_def)
  show ?thesis
  proof (cases "in_request inp")
    case (DoNew v)
    then show ?thesis
      using assms handle_new_frame [of rx lib v st w out st1 w1 rs]
      by (simp add: Do_step_def named_def)
  next
    case (DoNotify x)
    then show ?thesis
      using assms framed_handle_notify [of w st] by (intro other) (simp add: Do_step_def)
  next
    case (DoCompleted cached cl)
    then show ?thesis
      using assms framed_completed [of w st cached cl] by (intro other) (simp add: Do_step_def)
  next
    case DoNothing
    then show ?thesis using assms by (intro other) (simp add: Do_step_def)
  qed
qed

lemma Do_step_addresses:
  assumes "Do_step rx lib inp st w = (out, st1, w1, rs)" and "b \<in> addresses st1"
  shows "b \<in> addresses st \<or> b \<in> registered (w_registry w) \<or> (w_next w \<le> b \<and> b < w_next w1)"
proof -
  have "\<forall>b \<in> addresses st1. b \<in> addresses st \<or> b \<in> named inp (w_registry w)
      \<or> (w_next w \<le> b \<and> b < w_next w1)"
    using Do_step_frame [OF assms(1)] by (elim conjE)
  from bspec [OF this assms(2)] show ?thesis by (auto dest: subsetD [OF named_registered])
qed

end

section \<open>The identity of a session\<close>

text \<open>What identifies a session, its id and its proxy, is set by \<open>New\<close> only; no message changes it.\<close>

definition identity :: "session \<Rightarrow> nat \<times> string \<times> int" where
  "identity s = (ses_Id s, ses_proxyHost s, ses_proxyPort s)"

definition same_identity :: "session \<Rightarrow> session \<Rightarrow> bool" where
  "same_identity s s1 \<longleftrightarrow> identity s1 = identity s"

lemma same_identity_Notify: "Session_Notify now i s = (res, s1) \<Longrightarrow> same_identity s s1"
  by (auto simp: same_identity_def identity_def Session_Notify_def Let_def
      split: option.splits bool.splits prod.splits go.splits)

lemma same_identity_Abort: "AbortFetch s = (res, s1) \<Longrightarrow> same_identity s s1"
  by (auto simp: same_identity_def identity_def AbortFetch_def Let_def split: option.splits prod.splits)

interpretation ids: message_effect same_identity inp for inp
proof unfold_locales
  fix s s1 s2 :: session and r reqs i res res'
  show "same_identity s s" by (simp add: same_identity_def)
  show "same_identity s s1 \<Longrightarrow> same_identity s1 s2 \<Longrightarrow> same_identity s s2"
    by (simp add: same_identity_def)
  show "same_identity s (s\<lparr>ses_Requests := Some (r\<lparr>rr_requests := reqs\<rparr>)\<rparr>)"
    by (simp add: same_identity_def identity_def)
  show "Session_Notify (in_now inp) i s = (res, s1) \<Longrightarrow> same_identity s s1"
    by (rule same_identity_Notify)
  show "AbortFetch s = (res', s1) \<Longrightarrow> same_identity s s1"
    by (rule same_identity_Abort)
qed

lemmas Do_step_ids = ids.Do_step_frame [unfolded same_identity_def]

end
