(* ===== verification/Settling.thy ===== *)
theory Settling
  imports Fetch
begin

text \<open>
  How a page settles: the waits of \<open>Fetch\<close> in \<^verbatim>\<open>session/session.go\<close> and of the scripts in
  \<^verbatim>\<open>session/script.go\<close> run round by round on the session's own wait group and timers, against the
  clock, the browser's events and the proxy's messages.
\<close>

section \<open>What other goroutines do to a session\<close>

text \<open>
  A change another goroutine makes while \<open>Fetch\<close> waits, other than a notification: a frame
  starts or finishes loading, a request is registered or updated, the fetch is aborted, the
  loading context ends.
\<close>

inductive page_event :: "session \<Rightarrow> session \<Rightarrow> bool" where
  pe_load_start: "ses_Requests s = Some r \<Longrightarrow> NotifyLoadStart r = (res, r1)
     \<Longrightarrow> page_event s (s\<lparr>ses_Requests := Some r1\<rparr>)"
| pe_load_finished: "ses_Requests s = Some r \<Longrightarrow> NotifyLoadFinished r = (res, r1)
     \<Longrightarrow> page_event s (s\<lparr>ses_Requests := Some r1\<rparr>)"
| pe_requests: "ses_Requests s = Some r
     \<Longrightarrow> page_event s (s\<lparr>ses_Requests := Some (r\<lparr>rr_requests := reqs\<rparr>)\<rparr>)"
| pe_abort: "AbortFetch s = (res, s1) \<Longrightarrow> page_event s s1"
| pe_expires: "ses_loadCtx s = Some d \<Longrightarrow> page_event s (s\<lparr>ses_loadCtx := Some True\<rparr>)"

section \<open>The waits\<close>

text \<open>
  Where \<open>Fetch\<close> is: opening the page or running scripts, waiting for the network to slow
  down, about to reset that timer, waiting for the frames, done with that, waiting for the
  responses, or done with the page, with what the wait returned. \<open>st_since\<close>, \<open>st_heard\<close> and
  \<open>st_matched\<close> record, for the statements, when the last wait on a timer began, the
  time of the last notification or of that beginning, and whether since then the wait or a
  notification has found all requests to have their crawl logs.
\<close>

datatype settle_phase =
    Loading
  | NetWaiting
  | NetReturned "syncx_error option"
  | FramesWaiting
  | FramesReturned "syncx_error option"
  | RequestsWaiting
  | Settled "syncx_error option"

record settling =
  st_sess :: session
  st_clock :: int
  st_phase :: settle_phase
  st_since :: int
  st_heard :: int
  st_matched :: bool

definition load_done :: "session \<Rightarrow> bool" where
  "load_done s \<longleftrightarrow> ses_loadCtx s = Some True"

text \<open>The check of the first timer is nil, that of the second \<open>MatchCrawlLogs\<close>.\<close>

inductive settle_step :: "settling \<Rightarrow> settling \<Rightarrow> bool" where
  st_tick: "st_clock s \<le> now \<Longrightarrow> settle_step s (s\<lparr>st_clock := now\<rparr>)"
| st_event: "page_event (st_sess s) sess \<Longrightarrow> settle_step s (s\<lparr>st_sess := sess\<rparr>)"
| st_notify: "Session_Notify (st_clock s) i (st_sess s) = (res, sess)
     \<Longrightarrow> settle_step s (s\<lparr>st_sess := sess, st_heard := st_clock s,
           st_matched := st_matched s \<or> all_resolved (st_sess s)\<rparr>)"
| st_net_wait: "st_phase s = Loading \<Longrightarrow> ses_netActivityTimer (st_sess s) = Some t
     \<Longrightarrow> WaitForCompletion_enter (st_clock s) False t = (Inl u, t1)
     \<Longrightarrow> settle_step s (s\<lparr>st_sess := (st_sess s)\<lparr>ses_netActivityTimer := Some t1\<rparr>, st_phase := NetWaiting,
           st_since := st_clock s, st_heard := st_clock s\<rparr>)"
| st_net_round: "st_phase s = NetWaiting \<Longrightarrow> ses_netActivityTimer (st_sess s) = Some t
     \<Longrightarrow> select_ready (st_clock s) t c \<Longrightarrow> WaitForCompletion_round (st_clock s) False c t = (r, t1)
     \<Longrightarrow> settle_step s (s\<lparr>st_sess := (st_sess s)\<lparr>ses_netActivityTimer := Some t1\<rparr>,
           st_phase := (case r of Inl u \<Rightarrow> NetWaiting | Inr e \<Rightarrow> NetReturned e)\<rparr>)"
| st_net_reset: "st_phase s = NetReturned e \<Longrightarrow> ses_netActivityTimer (st_sess s) = Some t
     \<Longrightarrow> settle_step s (s\<lparr>st_sess := (st_sess s)\<lparr>ses_netActivityTimer := Some (snd (CompletionTimer_Reset t))\<rparr>,
           st_phase := Loading\<rparr>)"
| st_frames: "st_phase s = Loading \<Longrightarrow> ses_Requests (st_sess s) = Some r
     \<Longrightarrow> WaitGroup_Wait_enter (rr_done r) = (res, wg)
     \<Longrightarrow> settle_step s (s\<lparr>st_sess := (st_sess s)\<lparr>ses_Requests := Some (r\<lparr>rr_done := wg\<rparr>)\<rparr>,
           st_phase := (case res of Returned e \<Rightarrow> FramesReturned e | Selecting \<Rightarrow> FramesWaiting)\<rparr>)"
| st_frames_select: "st_phase s = FramesWaiting \<Longrightarrow> ses_Requests (st_sess s) = Some r
     \<Longrightarrow> e \<in> set (WaitGroup_Wait_select (load_done (st_sess s)) (rr_done r))
     \<Longrightarrow> settle_step s (s\<lparr>st_phase := FramesReturned e\<rparr>)"
| st_requests: "st_phase s = FramesReturned e \<Longrightarrow> frames_result uri e (st_sess s) = Done ()
     \<Longrightarrow> ses_timer (st_sess s) = Some t
     \<Longrightarrow> WaitForCompletion_enter (st_clock s) (all_resolved (st_sess s)) t = (res, t1)
     \<Longrightarrow> settle_step s (s\<lparr>st_sess := (st_sess s)\<lparr>ses_timer := Some t1\<rparr>,
           st_phase := (case res of Inl u \<Rightarrow> RequestsWaiting | Inr e \<Rightarrow> Settled e),
           st_since := st_clock s, st_heard := st_clock s, st_matched := all_resolved (st_sess s)\<rparr>)"
| st_round: "st_phase s = RequestsWaiting \<Longrightarrow> ses_timer (st_sess s) = Some t
     \<Longrightarrow> select_ready (st_clock s) t c
     \<Longrightarrow> WaitForCompletion_round (st_clock s) (all_resolved (st_sess s)) c t = (res, t1)
     \<Longrightarrow> settle_step s (s\<lparr>st_sess := (st_sess s)\<lparr>ses_timer := Some t1\<rparr>,
           st_phase := (case res of Inl u \<Rightarrow> RequestsWaiting | Inr e \<Rightarrow> Settled e),
           st_matched := st_matched s \<or> all_resolved (st_sess s)\<rparr>)"

inductive_cases page_eventE: "page_event s s1"
inductive_cases settle_stepE: "settle_step s s'"

text \<open>The session as \<open>Fetch\<close> has set it up before it opens the page.\<close>

definition set_up :: "int \<Rightarrow> int \<Rightarrow> session \<Rightarrow> bool" where
  "set_up maxIdle maxTotal s \<longleftrightarrow> ses_ctx s = Some False \<and> ses_loadCtx s = Some False
     \<and> ses_Requests s = Some (NewRequestRegistry NewWaitGroup)
     \<and> ses_netActivityTimer s = Some (NewCompletionTimer 1000000000 maxTotal)
     \<and> ses_timer s = Some (NewCompletionTimer maxIdle maxTotal)"

inductive settle_reachable :: "int \<Rightarrow> int \<Rightarrow> settling \<Rightarrow> bool" for maxIdle maxTotal :: int where
  settle_init: "set_up maxIdle maxTotal sess \<Longrightarrow> 0 \<le> maxIdle
     \<Longrightarrow> settle_reachable maxIdle maxTotal \<lparr>st_sess = sess, st_clock = now, st_phase = Loading,
           st_since = now, st_heard = now, st_matched = False\<rparr>"
| settle_next: "settle_reachable maxIdle maxTotal s \<Longrightarrow> settle_step s s'
     \<Longrightarrow> settle_reachable maxIdle maxTotal s'"

lemma requests_step: "ses_Requests (st_sess st) = Some r \<Longrightarrow>
    settle_step st (st\<lparr>st_sess := (st_sess st)\<lparr>ses_Requests := Some (r\<lparr>rr_requests := reqs\<rparr>)\<rparr>\<rparr>)"
  by (rule st_event) (rule pe_requests)

section \<open>The invariant\<close>

text \<open>
  The first timer is never completed, so it can always be used again. The wait group counts
  without closing \<open>done\<close> until the wait for the frames, and then closes it when the counter
  reaches zero. The second timer only counts until its wait, which nobody cancels.
\<close>

definition net_ok :: "int \<Rightarrow> settling \<Rightarrow> completion_timer \<Rightarrow> bool" where
  "net_ok maxTotal s t \<longleftrightarrow> ct_done t = 0 \<and> \<not> ct_closed t \<and> 0 \<le> maxIdleTime t \<and> maxTotalTime t = maxTotal
     \<and> (st_phase s = NetWaiting \<longrightarrow> waitTimer t = Some (st_since s + max 0 maxTotal))
     \<and> (\<forall>e. st_phase s = NetReturned e \<longrightarrow> e = Some IdleTimeout \<or> e = Some ExceededMaxTime)"

definition frames_ok :: "settle_phase \<Rightarrow> wait_group \<Rightarrow> bool" where
  "frames_ok ph wg \<longleftrightarrow> wg_inv wg
     \<and> (ph \<in> {Loading, NetWaiting} \<or> (\<exists>e. ph = NetReturned e) \<longrightarrow> wg_state wg = 0)
     \<and> (ph = FramesWaiting \<longrightarrow> wg_state wg \<noteq> 0 \<and> (wg_state wg = 1 \<longrightarrow> wg_counter wg \<noteq> 0))"

definition as_ct :: "settling \<Rightarrow> completion_timer \<Rightarrow> ct_sys" where
  "as_ct s t = \<lparr>timer = t, clock = st_clock s, phase = Waiting, since = st_since s, heard = st_heard s\<rparr>"

definition timer_ok :: "int \<Rightarrow> int \<Rightarrow> settling \<Rightarrow> completion_timer \<Rightarrow> bool" where
  "timer_ok maxIdle maxTotal s t \<longleftrightarrow> maxIdleTime t = maxIdle \<and> maxTotalTime t = maxTotal
     \<and> (case st_phase s of
          RequestsWaiting \<Rightarrow> ct_inv (as_ct s t) \<and> ct_done t \<in> {0, 1} \<and> (ct_done t = 1 \<longrightarrow> st_matched s)
        | Settled e \<Rightarrow> ct_closed t \<longleftrightarrow> ct_done t \<noteq> 0
        | _ \<Rightarrow> \<not> started t \<and> ct_ready t)"

definition settle_inv :: "int \<Rightarrow> int \<Rightarrow> settling \<Rightarrow> bool" where
  "settle_inv maxIdle maxTotal s \<longleftrightarrow>
     0 \<le> maxIdle \<and> ses_ctx (st_sess s) = Some False \<and> ses_loadCtx (st_sess s) \<noteq> None
     \<and> (\<exists>t. ses_netActivityTimer (st_sess s) = Some t \<and> net_ok maxTotal s t)
     \<and> (\<exists>r. ses_Requests (st_sess s) = Some r \<and> frames_ok (st_phase s) (rr_done r))
     \<and> (\<exists>t. ses_timer (st_sess s) = Some t \<and> timer_ok maxIdle maxTotal s t)"

lemma settle_inv_init [inv_intros]:
  "set_up maxIdle maxTotal sess \<Longrightarrow> 0 \<le> maxIdle \<Longrightarrow>
     settle_inv maxIdle maxTotal \<lparr>st_sess = sess, st_clock = now, st_phase = Loading,
       st_since = now, st_heard = now, st_matched = False\<rparr>"
  by (simp add: settle_inv_def set_up_def net_ok_def frames_ok_def timer_ok_def NewCompletionTimer_def
      NewRequestRegistry_def wg_inv_New NewWaitGroup_def wg_inv_def ct_ready_def)

lemma frames_ok_Add: "frames_ok ph wg \<Longrightarrow> frames_ok ph (snd (WaitGroup_Add d wg))"
  using wg_inv_Add [of wg d]
  by (auto simp: frames_ok_def WaitGroup_Add_def wg_inv_def close_done_def close_chan_def Let_def
      CompareAndSwapInt32_def)

lemma frames_ok_Cancel: "frames_ok ph wg \<Longrightarrow> frames_ok ph (snd (WaitGroup_Cancel wg))"
  using wg_inv_Cancel [of wg] by (auto simp: frames_ok_def WaitGroup_Cancel_def close_chan_def)

lemma page_event_keeps:
  assumes "page_event s s1" and "ses_Requests s = Some r"
  shows "ses_ctx s1 = ses_ctx s \<and> ses_netActivityTimer s1 = ses_netActivityTimer s
    \<and> ses_timer s1 = ses_timer s \<and> (ses_loadCtx s \<noteq> None \<longrightarrow> ses_loadCtx s1 \<noteq> None)
    \<and> (\<exists>r1. ses_Requests s1 = Some r1 \<and> (frames_ok ph (rr_done r) \<longrightarrow> frames_ok ph (rr_done r1)))"
  using assms(1)
proof cases
  case (pe_load_start r' res r1)
  then show ?thesis
    using assms(2) frames_ok_Add [of ph "rr_done r" 1]
    by (auto simp: NotifyLoadStart_def Let_def split: prod.splits)
next
  case (pe_load_finished r' res r1)
  then show ?thesis
    using assms(2) frames_ok_Add [of ph "rr_done r" "- 1"]
    by (auto simp: NotifyLoadFinished_def WaitGroup_Done_def Let_def split: prod.splits)
next
  case (pe_abort res)
  then show ?thesis
    using assms(2) frames_ok_Cancel [of ph "rr_done r"]
    by (auto simp: AbortFetch_def Let_def split: prod.splits option.splits)
qed (use assms(2) in auto)

text \<open>A notification while the session is open: both timers are notified.\<close>

lemma notified:
  assumes "Session_Notify now i s = (res, s1)" and "ses_ctx s = Some False"
    and "ses_netActivityTimer s = Some n" and "ses_timer s = Some t" and "ct_done n = 0"
    and "ct_closed t \<longleftrightarrow> ct_done t \<noteq> 0"
  shows "\<exists>t1. CompletionTimer_Notify now (all_resolved s) t = (Ret (), t1) \<and> res = Ret None
    \<and> s1 = s\<lparr>ses_netActivityTimer := Some (snd (CompletionTimer_Notify now False n)), ses_timer := Some t1\<rparr>"
proof -
  obtain u n1 where n1: "CompletionTimer_Notify now False n = (u, n1)" by fastforce
  then have u: "u = Ret ()" using Notify_failing [of now n] by simp
  have "fst (CompletionTimer_Notify now c t) = Ret ()" for c
    using assms(6) by (auto simp: CompletionTimer_Notify_def close_doneChan_def close_chan_def
        CompareAndSwapInt32_def Let_def)
  then obtain t1 where "CompletionTimer_Notify now (all_resolved s) t = (Ret (), t1)"
    by (metis prod.collapse)
  moreover have "all_resolved (s\<lparr>ses_netActivityTimer := x\<rparr>) = all_resolved s" for x
    by (simp add: all_resolved_def)
  ultimately show ?thesis
    using assms(1-4) n1 u by (auto simp: Session_Notify_def notify_timer_def Let_def)
qed

lemma net_ok_notify:
  assumes "net_ok T s n" and "st_phase s' = st_phase s" and "st_since s' = st_since s"
  shows "net_ok T s' (snd (CompletionTimer_Notify now False n))"
  using assms by (auto simp: net_ok_def CompletionTimer_Notify_def Let_def)

lemma ct_inv_notify:
  assumes "ct_inv (as_ct s t)" and "CompletionTimer_Notify (st_clock s) check t = (Ret (), t1)"
  shows "ct_inv \<lparr>timer = t1, clock = st_clock s, phase = Waiting, since = st_since s, heard = st_clock s\<rparr>"
proof -
  have "CompletionTimer_Notify (clock (as_ct s t)) check (timer (as_ct s t)) = (Ret (), t1)"
    using assms(2) by (simp add: as_ct_def)
  from ct_inv_step [OF ct_notify [OF this] assms(1)] show ?thesis by (simp add: as_ct_def)
qed

lemma Notify_done_value:
  "CompletionTimer_Notify now check t = (Ret (), t1) \<Longrightarrow>
     ct_done t1 = (if started t \<and> check \<and> ct_done t = 0 then 1 else ct_done t)
     \<and> (ct_closed t1 \<longleftrightarrow> ct_closed t \<or> (started t \<and> check \<and> ct_done t = 0)) \<and> started t1 = started t"
  by (auto simp: CompletionTimer_Notify_def close_doneChan_def close_chan_def CompareAndSwapInt32_def
      Let_def split: if_splits)

lemma timer_ok_notify:
  assumes "timer_ok I T s t" and "CompletionTimer_Notify (st_clock s) (all_resolved (st_sess s)) t = (Ret (), t1)"
    and "st_clock s' = st_clock s" and "st_phase s' = st_phase s" and "st_since s' = st_since s"
    and "st_heard s' = st_clock s" and "st_matched s' \<longleftrightarrow> st_matched s \<or> all_resolved (st_sess s)"
  shows "timer_ok I T s' t1"
proof (cases "st_phase s = RequestsWaiting")
  case True
  then have "ct_inv (as_ct s' t1)"
    using ct_inv_notify [OF _ assms(2)] assms(1,3-6) by (simp add: timer_ok_def as_ct_def)
  with True show ?thesis
    using assms(1,4,7) Notify_frame [OF assms(2)] Notify_done_value [OF assms(2)]
    by (auto simp: timer_ok_def split: if_splits)
next
  case False
  then show ?thesis
    using assms(1,4) Notify_frame [OF assms(2)] Notify_done_value [OF assms(2)]
    by (auto simp: timer_ok_def ct_ready_def split: settle_phase.splits if_splits)
qed

lemma settle_invI:
  assumes "0 \<le> I" and "ses_ctx (st_sess s) = Some False" and "ses_loadCtx (st_sess s) \<noteq> None"
    and "ses_netActivityTimer (st_sess s) = Some n" and "net_ok T s n"
    and "ses_Requests (st_sess s) = Some r" and "frames_ok (st_phase s) (rr_done r)"
    and "ses_timer (st_sess s) = Some t" and "timer_ok I T s t"
  shows "settle_inv I T s"
  using assms by (auto simp: settle_inv_def)

lemma ok_sess [simp]:
  "net_ok T (s\<lparr>st_sess := x\<rparr>) n = net_ok T s n" "timer_ok I T (s\<lparr>st_sess := x\<rparr>) t = timer_ok I T s t"
  by (auto simp: net_ok_def timer_ok_def as_ct_def split: settle_phase.splits)

lemma net_round:
  assumes "WaitForCompletion_round now False c t = (r, t1)" and "ct_done t = 0" and "\<not> ct_closed t"
    and "select_ready now t c"
  shows "ct_done t1 = 0 \<and> \<not> ct_closed t1 \<and> maxIdleTime t1 = maxIdleTime t
    \<and> maxTotalTime t1 = maxTotalTime t \<and> (r = Inl () \<longrightarrow> waitTimer t1 = waitTimer t)
    \<and> (\<forall>e. r = Inr e \<longrightarrow> e = Some IdleTimeout \<or> e = Some ExceededMaxTime)"
  using assms by (cases c) (auto simp: Let_def split: if_splits)

lemma timer_ok_enter:
  assumes "timer_ok I T s t" and "st_phase s = FramesReturned e"
    and "WaitForCompletion_enter (st_clock s) (all_resolved (st_sess s)) t = (res, t1)"
    and "st_phase s' = (case res of Inl u \<Rightarrow> RequestsWaiting | Inr x \<Rightarrow> Settled x)"
    and "st_clock s' = st_clock s" and "st_since s' = st_clock s" and "st_heard s' = st_clock s"
  shows "timer_ok I T s' t1"
proof -
  have ready: "ct_ready t" using assms(1,2) by (simp add: timer_ok_def)
  show ?thesis
  proof (cases "all_resolved (st_sess s)")
    case True
    then have "res = Inr None" "t1 = t\<lparr>lastCheckResult := True\<rparr>"
      using assms(3) by (auto simp: WaitForCompletion_enter_def Let_def)
    then show ?thesis using ready assms(1,4) by (auto simp: timer_ok_def ct_ready_def)
  next
    case False
    then have res: "res = Inl ()" "t1 = snd (WaitForCompletion_enter (st_clock s) False t)"
      using assms(3) by (auto simp: WaitForCompletion_enter_def Let_def)
    have "ct_inv (as_ct s' t1)"
      using ct_inv_begin [OF ready, of "st_clock s"] assms(5-7) by (simp add: as_ct_def ct_begin_def res)
    then show ?thesis
      using ready assms(1,4) by (simp add: timer_ok_def res ct_ready_def WaitForCompletion_enter_def Let_def)
  qed
qed

lemma timer_ok_round:
  assumes "timer_ok I T s t" and "st_phase s = RequestsWaiting" and "select_ready (st_clock s) t c"
    and "WaitForCompletion_round (st_clock s) check c t = (res, t1)"
    and "st_phase s' = (case res of Inl u \<Rightarrow> RequestsWaiting | Inr x \<Rightarrow> Settled x)"
    and "st_clock s' = st_clock s" and "st_since s' = st_since s" and "st_heard s' = st_heard s"
    and "st_matched s \<Longrightarrow> st_matched s'"
  shows "timer_ok I T s' t1"
proof -
  have ct: "ct_inv (as_ct s t)" "ct_done t \<in> {0, 1}" "ct_done t = 1 \<longrightarrow> st_matched s"
    using assms(1,2) by (simp_all add: timer_ok_def)
  have step: "ct_step (as_ct s t) ((as_ct s t)\<lparr>timer := t1, phase := phase_of res\<rparr>)"
    by (rule ct_round [of _ c check]) (use assms(3,4) in \<open>simp_all add: as_ct_def\<close>)
  show ?thesis
    using ct_inv_step [OF step ct(1)] round_effect [OF assms(4)] ct assms
    by (cases res) (auto simp: timer_ok_def as_ct_def ct_inv_def)
qed

lemma settle_inv_step [inv_intros]:
  assumes "settle_inv I T s" and "settle_step s s'"
  shows "settle_inv I T s'"
proof -
  obtain n r t where inv: "0 \<le> I" "ses_ctx (st_sess s) = Some False" "ses_loadCtx (st_sess s) \<noteq> None"
    "ses_netActivityTimer (st_sess s) = Some n" "net_ok T s n"
    "ses_Requests (st_sess s) = Some r" "frames_ok (st_phase s) (rr_done r)"
    "ses_timer (st_sess s) = Some t" "timer_ok I T s t"
    using assms(1) by (auto simp: settle_inv_def)
  from assms(2) show ?thesis
  proof cases
    case (st_tick now)
    show ?thesis
      by (rule settle_invI [of _ _ n _ r t])
        (use inv st_tick in \<open>auto simp: net_ok_def timer_ok_def as_ct_def ct_inv_def split: settle_phase.splits\<close>)
  next
    case (st_event sess)
    from page_event_keeps [OF st_event(2) inv(6), of "st_phase s"] obtain r1 where
      "ses_ctx sess = Some False" "ses_netActivityTimer sess = Some n" "ses_timer sess = Some t"
      "ses_loadCtx sess \<noteq> None" "ses_Requests sess = Some r1" "frames_ok (st_phase s) (rr_done r1)"
      using inv by auto
    then show ?thesis
      by (intro settle_invI [of _ _ n _ r1 t]) (use inv st_event in simp_all)
  next
    case (st_notify i res sess)
    have "ct_done n = 0" "ct_closed t \<longleftrightarrow> ct_done t \<noteq> 0"
      using inv(5,9) by (auto simp: net_ok_def timer_ok_def ct_ready_def ct_inv_def as_ct_def split: settle_phase.splits)
    from notified [OF st_notify(2) inv(2,4,8) this] obtain t1 where
      t1: "CompletionTimer_Notify (st_clock s) (all_resolved (st_sess s)) t = (Ret (), t1)"
      and sess: "sess = (st_sess s)\<lparr>ses_netActivityTimer := Some (snd (CompletionTimer_Notify (st_clock s) False n)),
         ses_timer := Some t1\<rparr>"
      by blast
    have "net_ok T s' (snd (CompletionTimer_Notify (st_clock s) False n))"
      by (rule net_ok_notify [OF inv(5)]) (simp_all add: st_notify(1))
    moreover have "timer_ok I T s' t1"
      by (rule timer_ok_notify [OF inv(9) t1]) (simp_all add: st_notify(1))
    ultimately show ?thesis
      by (intro settle_invI [of _ _ "snd (CompletionTimer_Notify (st_clock s) False n)" _ r t1])
        (use inv sess in \<open>simp_all add: st_notify(1)\<close>)
  next
    case (st_net_wait t0 u t1)
    then show ?thesis
      by (intro settle_invI [of _ _ t1 _ r t])
        (use inv in \<open>auto simp: net_ok_def frames_ok_def timer_ok_def WaitForCompletion_enter_def Let_def NewTimer_def\<close>)
  next
    case (st_net_round t0 c x t1)
    have n: "t0 = n" using st_net_round(3) inv(4) by simp
    have eff: "ct_done t1 = 0 \<and> \<not> ct_closed t1 \<and> maxIdleTime t1 = maxIdleTime n
        \<and> maxTotalTime t1 = maxTotalTime n \<and> (x = Inl () \<longrightarrow> waitTimer t1 = waitTimer n)
        \<and> (\<forall>e. x = Inr e \<longrightarrow> e = Some IdleTimeout \<or> e = Some ExceededMaxTime)"
      using net_round [OF st_net_round(5) _ _ st_net_round(4)] inv(5) by (auto simp: n net_ok_def)
    show ?thesis
      by (intro settle_invI [of _ _ t1 _ r t])
        (use inv st_net_round(1,2) eff in \<open>auto simp: net_ok_def frames_ok_def timer_ok_def split: sum.splits\<close>)
  next
    case (st_net_reset e t0)
    then show ?thesis
      by (intro settle_invI [of _ _ "snd (CompletionTimer_Reset n)" _ r t])
        (use inv in \<open>auto simp: net_ok_def frames_ok_def timer_ok_def CompletionTimer_Reset_def CompareAndSwapInt32_def\<close>)
  next
    case (st_frames r0 res wg)
    have wg: "wg = snd (WaitGroup_Wait_enter (rr_done r))" "res = fst (WaitGroup_Wait_enter (rr_done r))"
      using st_frames(3,4) inv(6) by auto
    have "frames_ok (st_phase s') wg"
      using inv(7) st_frames(1,2) wg_inv_Wait [of "rr_done r"]
      by (auto simp: wg frames_ok_def WaitGroup_Wait_enter_def CompareAndSwapInt32_def Let_def split: if_splits)
    then show ?thesis
      by (intro settle_invI [of _ _ n _ "r\<lparr>rr_done := wg\<rparr>" t])
        (use inv st_frames in \<open>auto simp: net_ok_def timer_ok_def split: wait_result.splits\<close>)
  next
    case (st_frames_select r0 e)
    then show ?thesis
      by (intro settle_invI [of _ _ n _ r t]) (use inv in \<open>auto simp: net_ok_def frames_ok_def timer_ok_def\<close>)
  next
    case (st_requests e uri t0 res t1)
    have t: "t0 = t" using st_requests(4) inv(8) by simp
    have "timer_ok I T s' t1"
      by (rule timer_ok_enter [OF inv(9) st_requests(2,5) [unfolded t]]) (simp_all add: st_requests(1))
    then show ?thesis
      by (intro settle_invI [of _ _ n _ r t1])
        (use inv st_requests(1,2) in \<open>auto simp: net_ok_def frames_ok_def split: sum.splits\<close>)
  next
    case (st_round t0 c res t1)
    have t: "t0 = t" using st_round(3) inv(8) by simp
    have "timer_ok I T s' t1"
      by (rule timer_ok_round [OF inv(9) st_round(2,4,5) [unfolded t]]) (simp_all add: st_round(1))
    then show ?thesis
      by (intro settle_invI [of _ _ n _ r t1])
        (use inv st_round(1,2) in \<open>auto simp: net_ok_def frames_ok_def split: sum.splits\<close>)
  qed
qed

lemma settle_reachable_inv: "settle_reachable I T s \<Longrightarrow> settle_inv I T s"
  by (induction rule: settle_reachable.induct) (auto intro: inv_intros)

section \<open>Properties\<close>

lemma settles:
  assumes "settle_inv I T s" and "settle_step s s'" and "st_phase s' = Settled x" and "st_phase s \<noteq> Settled x"
  shows "case x of
      None \<Rightarrow> all_resolved (st_sess s) \<or> st_matched s
    | Some IdleTimeout \<Rightarrow> st_heard s + I < st_clock s \<and> \<not> all_resolved (st_sess s)
    | Some ExceededMaxTime \<Rightarrow> st_since s + T \<le> st_clock s \<and> \<not> all_resolved (st_sess s)
    | Some Cancelled \<Rightarrow> False"
  using assms(2)
proof cases
  case (st_requests e uri t res t1)
  then show ?thesis
    using assms(3) by (auto simp: WaitForCompletion_enter_def Let_def split: if_splits)
next
  case (st_round t c res t1)
  have t: "timer_ok I T s t" using assms(1) st_round(3) by (auto simp: settle_inv_def)
  then have inv: "ct_inv (as_ct s t)" "ct_done t \<in> {0, 1}" "ct_done t = 1 \<longrightarrow> st_matched s"
    using st_round(2) by (simp_all add: timer_ok_def)
  have res: "res = Inr x" using assms(3) st_round(1) by (cases res) simp_all
  have "case x of None \<Rightarrow> all_resolved (st_sess s) \<or> ct_done t = 1
      | Some IdleTimeout \<Rightarrow> st_heard s + maxIdleTime t < st_clock s \<and> \<not> all_resolved (st_sess s)
      | Some ExceededMaxTime \<Rightarrow> st_since s + maxTotalTime t \<le> st_clock s \<and> \<not> all_resolved (st_sess s)
      | Some Cancelled \<Rightarrow> ct_done t \<notin> {0, 1}"
    using round_justified [OF inv(1), of c "all_resolved (st_sess s)" x t1] st_round(4,5) res
    by (auto simp: as_ct_def split: option.splits syncx_error.splits)
  then show ?thesis
    using t inv(2,3) by (auto simp: timer_ok_def split: option.splits syncx_error.splits)
qed (use assms(3,4) in \<open>auto split: sum.splits wait_result.splits\<close>)

text \<open>How the page has settled stays true while its results are collected.\<close>

definition settled_by :: "int \<Rightarrow> int \<Rightarrow> settling \<Rightarrow> syncx_error option \<Rightarrow> bool" where
  "settled_by maxIdle maxTotal s x \<longleftrightarrow>
     (case x of
        None \<Rightarrow> st_matched s
      | Some IdleTimeout \<Rightarrow> st_since s + maxIdle < st_clock s
      | Some ExceededMaxTime \<Rightarrow> st_since s + maxTotal \<le> st_clock s
      | Some Cancelled \<Rightarrow> False)"

lemma heard_after: "settle_inv I T s \<Longrightarrow> st_phase s = RequestsWaiting \<Longrightarrow> st_since s \<le> st_heard s"
  by (auto simp: settle_inv_def timer_ok_def as_ct_def ct_inv_def)

lemma settled_by_step:
  assumes "settle_inv I T s" and "settle_step s s'" and "st_phase s' = Settled x"
    and "st_phase s = Settled x \<Longrightarrow> settled_by I T s x"
  shows "settled_by I T s' x"
proof (cases "st_phase s = Settled x")
  case True
  from assms(2) True assms(4) [OF True] show ?thesis
    by cases (auto simp: settled_by_def split: option.splits syncx_error.splits)
next
  case False
  from assms(2) settles [OF assms(1-3) False] heard_after [OF assms(1)] assms(3) False show ?thesis
    by cases (auto simp: settled_by_def WaitForCompletion_enter_def Let_def
        split: option.splits syncx_error.splits sum.splits wait_result.splits if_splits)
qed

lemma settled:
  "settle_reachable I T s \<Longrightarrow> st_phase s = Settled x \<Longrightarrow> settled_by I T s x"
  by (induction arbitrary: x rule: settle_reachable.induct)
    (auto intro: settled_by_step settle_reachable_inv)

text \<open>
  C15 (functional). When the page has settled, either all requests have their crawl logs, now or
  at some notification during the wait; or nothing was heard of for the configured idle time;
  or the configured total time is over. The wait is never cancelled, and after a time-out some
  request has no crawl log.
\<close>

theorem page_settles:
  assumes "settle_reachable maxIdle maxTotal s" and "settle_step s s'"
    and "st_phase s' = Settled x" and "st_phase s \<noteq> Settled x"
  shows "case x of
      None \<Rightarrow> all_resolved (st_sess s) \<or> st_matched s
    | Some IdleTimeout \<Rightarrow> st_heard s + maxIdle < st_clock s \<and> \<not> all_resolved (st_sess s)
    | Some ExceededMaxTime \<Rightarrow> st_since s + maxTotal \<le> st_clock s \<and> \<not> all_resolved (st_sess s)
    | Some Cancelled \<Rightarrow> False"
  by (rule settles [OF settle_reachable_inv [OF assms(1)] assms(2-4)])

lemma reachable_notify:
  assumes "settle_reachable maxIdle maxTotal s"
  shows "fst (Session_Notify now i (st_sess s)) = Ret None"
proof -
  obtain n t where inv: "ses_ctx (st_sess s) = Some False"
    "ses_netActivityTimer (st_sess s) = Some n" "net_ok maxTotal s n"
    "ses_timer (st_sess s) = Some t" "timer_ok maxIdle maxTotal s t"
    using settle_reachable_inv [OF assms] by (auto simp: settle_inv_def)
  obtain res s1 where run: "Session_Notify now i (st_sess s) = (res, s1)" by fastforce
  have "ct_done n = 0" "ct_closed t \<longleftrightarrow> ct_done t \<noteq> 0"
    using inv(3,5) by (auto simp: net_ok_def timer_ok_def ct_ready_def ct_inv_def as_ct_def split: settle_phase.splits)
  from notified [OF run inv(1,2,4) this] have "res = Ret None" by blast
  with run show ?thesis by simp
qed

text \<open>
  C16 (safety). While a page loads no notification panics, whether it comes from the browser or
  from the proxy. The timer for network activity, which is reset and used again for every
  script, is never completed: its waits end with a time-out, and \<open>Reset\<close> always leaves a timer
  that is as good as new.
\<close>

theorem notifications_never_panic:
  assumes "settle_reachable maxIdle maxTotal s"
  shows "fst (Session_Notify now i (st_sess s)) = Ret None
    \<and> (\<exists>t. ses_netActivityTimer (st_sess s) = Some t \<and> ct_ready (snd (CompletionTimer_Reset t)))
    \<and> (\<forall>e. st_phase s = NetReturned e \<longrightarrow> e = Some IdleTimeout \<or> e = Some ExceededMaxTime)"
proof -
  obtain n where inv: "ses_netActivityTimer (st_sess s) = Some n" "net_ok maxTotal s n"
    using settle_reachable_inv [OF assms] by (auto simp: settle_inv_def)
  then have "ct_ready (snd (CompletionTimer_Reset n))"
    by (simp add: net_ok_def ct_ready_def CompletionTimer_Reset_def CompareAndSwapInt32_def)
  then show ?thesis using reachable_notify [OF assms] inv by (auto simp: net_ok_def)
qed

text \<open>
  C17 (liveness). No wait of a page hangs: the wait for the network ends once the total time is
  over, that for the frames once all frames have loaded, the fetch is aborted or the loading
  context is done, that for the responses once the total or the idle time is over. Then the
  waiting goroutine can go on.
\<close>

theorem waits_end:
  assumes "settle_reachable maxIdle maxTotal s"
    and "(st_phase s = NetWaiting \<and> st_since s + max 0 maxTotal \<le> st_clock s)
      \<or> (st_phase s = FramesWaiting \<and> (load_done (st_sess s)
           \<or> (\<exists>r. ses_Requests (st_sess s) = Some r \<and> (wg_counter (rr_done r) = 0 \<or> wg_cancel (rr_done r)))))
      \<or> (st_phase s = RequestsWaiting
           \<and> (st_since s + max 0 maxTotal \<le> st_clock s \<or> st_heard s + maxIdle < st_clock s))"
  shows "\<exists>s'. settle_step s s' \<and> st_phase s' \<noteq> st_phase s \<and> st_clock s' = st_clock s"
proof -
  obtain n r t where inv: "ses_netActivityTimer (st_sess s) = Some n" "net_ok maxTotal s n"
    "ses_Requests (st_sess s) = Some r" "frames_ok (st_phase s) (rr_done r)"
    "ses_timer (st_sess s) = Some t" "timer_ok maxIdle maxTotal s t"
    using settle_reachable_inv [OF assms(1)] by (auto simp: settle_inv_def)
  from assms(2) consider (net) "st_phase s = NetWaiting" "st_since s + max 0 maxTotal \<le> st_clock s"
    | (frames) "st_phase s = FramesWaiting" "load_done (st_sess s) \<or> wg_counter (rr_done r) = 0 \<or> wg_cancel (rr_done r)"
    | (requests) "st_phase s = RequestsWaiting"
        "st_since s + max 0 maxTotal \<le> st_clock s \<or> st_heard s + maxIdle < st_clock s"
    using inv(3) by auto
  then show ?thesis
  proof cases
    case net
    have "select_ready (st_clock s) n WaitTimerC" using net inv(2) by (simp add: net_ok_def)
    let ?s' = "s\<lparr>st_sess := (st_sess s)\<lparr>ses_netActivityTimer :=
          Some (n\<lparr>waitTimer := None, lastCheckResult := False\<rparr>)\<rparr>,
        st_phase := NetReturned (Some ExceededMaxTime)\<rparr>"
    have "settle_step s ?s'"
      using st_net_round [OF net(1) inv(1) \<open>select_ready (st_clock s) n WaitTimerC\<close>,
          of "Inr (Some ExceededMaxTime)"] by (simp add: Let_def)
    then show ?thesis using net(1) by (intro exI [of _ ?s']) simp
  next
    case frames
    have "WaitGroup_Wait_select (load_done (st_sess s)) (rr_done r) \<noteq> []"
      using frames inv(4) by (auto simp: frames_ok_def wg_inv_def WaitGroup_Wait_select_def)
    then obtain e where "e \<in> set (WaitGroup_Wait_select (load_done (st_sess s)) (rr_done r))"
      by (metis hd_in_set)
    from st_frames_select [OF frames(1) inv(3) this] show ?thesis
      using frames(1) by (intro exI [of _ "s\<lparr>st_phase := FramesReturned e\<rparr>"]) simp
  next
    case requests
    have "\<exists>c. select_ready (st_clock s) t c \<and> (\<exists>x t1. WaitForCompletion_round (st_clock s) (all_resolved (st_sess s)) c t = (Inr x, t1))"
      using ct_wait_bounded [of "as_ct s t"] inv(6) requests by (auto simp: timer_ok_def as_ct_def)
    then obtain c x t1 where "select_ready (st_clock s) t c"
      "WaitForCompletion_round (st_clock s) (all_resolved (st_sess s)) c t = (Inr x, t1)" by blast
    from st_round [OF requests(1) inv(5) this] show ?thesis
      using requests(1)
      by (intro exI [of _ "s\<lparr>st_sess := (st_sess s)\<lparr>ses_timer := Some t1\<rparr>, st_phase := Settled x,
          st_matched := st_matched s \<or> all_resolved (st_sess s)\<rparr>"]) simp
  qed
qed

section \<open>An example\<close>

text \<open>A page with one request that never gets its crawl log: idle for 100, at most 500 in all.\<close>

definition ex_open :: session where
  "ex_open = (newDefaultSession [])\<lparr>ses_ctx := Some False, ses_loadCtx := Some False,
     ses_Requests := Some (NewRequestRegistry NewWaitGroup),
     ses_netActivityTimer := Some (NewCompletionTimer 1000000000 500),
     ses_timer := Some (NewCompletionTimer 100 500)\<rparr>"

definition ex_loading :: settling where
  "ex_loading = \<lparr>st_sess = ex_open, st_clock = 0, st_phase = Loading, st_since = 0, st_heard = 0,
     st_matched = False\<rparr>"

definition ex_pending :: request_registry where
  "ex_pending = (NewRequestRegistry (NewWaitGroup\<lparr>wg_state := 1\<rparr>))
     \<lparr>rr_requests := [(example_request ''u'' ''n1'' [])\<lparr>rq_CrawlLog := None\<rparr>]\<rparr>"

definition ex_waiting :: settling where
  "ex_waiting = \<lparr>st_sess = ex_open\<lparr>ses_Requests := Some ex_pending,
       ses_timer := Some (snd (WaitForCompletion_enter 0 False (NewCompletionTimer 100 500)))\<rparr>,
     st_clock = 101, st_phase = RequestsWaiting, st_since = 0, st_heard = 0, st_matched = False\<rparr>"

lemma ex_loading: "settle_reachable 100 500 ex_loading"
  unfolding ex_loading_def by (rule settle_init) (simp_all add: set_up_def ex_open_def newDefaultSession_def)

lemma ex_waiting: "settle_reachable 100 500 ex_waiting"
proof -
  let ?r = "ex_pending\<lparr>rr_done := NewWaitGroup\<rparr>"
  let ?s1 = "ex_loading\<lparr>st_sess := ex_open\<lparr>ses_Requests := Some ?r\<rparr>\<rparr>"
  let ?s2 = "?s1\<lparr>st_sess := ex_open\<lparr>ses_Requests := Some ex_pending\<rparr>, st_phase := FramesReturned None\<rparr>"
  let ?s3 = "ex_waiting\<lparr>st_clock := 0\<rparr>"
  have "page_event ex_open (ex_open\<lparr>ses_Requests := Some ?r\<rparr>)"
    using pe_requests [of ex_open "NewRequestRegistry NewWaitGroup" "rr_requests ex_pending"]
    by (simp add: ex_open_def ex_pending_def NewRequestRegistry_def)
  then have "settle_step ex_loading ?s1" using st_event [of ex_loading] by (simp add: ex_loading_def)
  with ex_loading have "settle_reachable 100 500 ?s1" by (rule settle_next)
  moreover have "settle_step ?s1 ?s2"
    using st_frames [of ?s1 ?r]
    by (simp add: ex_loading_def ex_pending_def NewRequestRegistry_def WaitGroup_Wait_enter_def
        NewWaitGroup_def CompareAndSwapInt32_def)
  ultimately have "settle_reachable 100 500 ?s2" by (rule settle_next)
  moreover have "settle_step ?s2 ?s3"
    using st_requests [of ?s2 None "[]" "NewCompletionTimer 100 500"]
    by (simp add: ex_loading_def ex_waiting_def frames_result_def ex_open_def all_resolved_def
        MatchCrawlLogs_def ex_pending_def WaitForCompletion_enter_def Let_def)
  ultimately have "settle_reachable 100 500 ?s3" by (rule settle_next)
  then show ?thesis
    using settle_next [OF _ st_tick [of ?s3 101]] by (simp add: ex_waiting_def)
qed

lemma ex_times_out: "\<exists>s'. settle_step ex_waiting s' \<and> st_phase s' = Settled (Some IdleTimeout)"
  using st_round [of ex_waiting "snd (WaitForCompletion_enter 0 False (NewCompletionTimer 100 500))" IdleTimerC]
  by (fastforce simp: ex_waiting_def all_resolved_def MatchCrawlLogs_def ex_pending_def
      WaitForCompletion_enter_def NewCompletionTimer_def NewTimer_def Let_def)

theorem page_settles_witness:
  "st_heard ex_waiting + 100 < st_clock ex_waiting \<and> \<not> all_resolved (st_sess ex_waiting)"
proof -
  obtain s' where s': "settle_step ex_waiting s'" "st_phase s' = Settled (Some IdleTimeout)"
    using ex_times_out by blast
  from page_settles [OF ex_waiting s'] show ?thesis by (simp add: ex_waiting_def)
qed

theorem notifications_never_panic_witness:
  "fst (Session_Notify 7 ''i'' (st_sess ex_waiting)) = Ret None"
  using notifications_never_panic [OF ex_waiting] by blast

theorem waits_end_witness:
  "\<exists>s'. settle_step ex_waiting s' \<and> st_phase s' \<noteq> RequestsWaiting"
  using waits_end [OF ex_waiting] by (simp add: ex_waiting_def) blast

end
