(* ===== verification/Settling_Events.thy ===== *)
theory Settling_Events
  imports Settling Message_Effects
begin

text \<open>
  The messages of the proxy and the events of the browser as steps of a settling page: whatever
  the handlers of \<^verbatim>\<open>server/server.go\<close> and \<^verbatim>\<open>session/eventlisteners.go\<close> do to a session is a
  sequence of the changes that the theory \<open>Settling\<close> allows other goroutines to make.
\<close>

section \<open>Moves of a session\<close>

definition move :: "int \<Rightarrow> session \<Rightarrow> session \<Rightarrow> bool" where
  "move now s s1 \<longleftrightarrow> page_event s s1 \<or> (\<exists>i res. Session_Notify now i s = (res, s1))"

definition moves :: "int \<Rightarrow> session \<Rightarrow> session \<Rightarrow> bool" where
  "moves now = (move now)\<^sup>*\<^sup>*"

lemma moves_refl [simp]: "moves now s s"
  by (simp add: moves_def)

lemma moves_trans: "moves now s s1 \<Longrightarrow> moves now s1 s2 \<Longrightarrow> moves now s s2"
  by (simp add: moves_def)

lemma moves_event: "page_event s s1 \<Longrightarrow> moves now s s1"
  unfolding moves_def by (rule r_into_rtranclp) (simp add: move_def)

lemma moves_notify: "Session_Notify now i s = (res, s1) \<Longrightarrow> moves now s s1"
  unfolding moves_def by (rule r_into_rtranclp) (auto simp: move_def)

text \<open>A settling page follows the moves of its session, without going on with its own wait.\<close>

lemma settle_moves:
  assumes "moves now s s1" and "st_sess st = s" and "st_clock st = now"
  shows "\<exists>st1. settle_step\<^sup>*\<^sup>* st st1 \<and> st_sess st1 = s1 \<and> st_clock st1 = now
    \<and> st_phase st1 = st_phase st \<and> st_since st1 = st_since st"
  using assms(1) unfolding moves_def
proof (induction rule: rtranclp_induct)
  case base
  then show ?case using assms(2,3) by blast
next
  case (step s1 s2)
  then obtain st1 where st1: "settle_step\<^sup>*\<^sup>* st st1" "st_sess st1 = s1" "st_clock st1 = now"
    "st_phase st1 = st_phase st" "st_since st1 = st_since st"
    by blast
  from step.hyps(2) consider (event) "page_event s1 s2"
    | (notify) i res where "Session_Notify now i s1 = (res, s2)"
    by (auto simp: move_def)
  then show ?case
  proof cases
    case event
    then have "settle_step st1 (st1\<lparr>st_sess := s2\<rparr>)" using st_event [of st1 s2] st1(2) by simp
    with st1 show ?thesis by (intro exI [of _ "st1\<lparr>st_sess := s2\<rparr>"]) simp
  next
    case notify
    let ?st2 = "st1\<lparr>st_sess := s2, st_heard := st_clock st1,
        st_matched := st_matched st1 \<or> all_resolved (st_sess st1)\<rparr>"
    have "settle_step st1 ?st2" by (rule st_notify [of st1 i res]) (use notify st1 in simp)
    with st1 show ?thesis by (intro exI [of _ ?st2]) simp
  qed
qed

section \<open>Messages\<close>

interpretation moved: message_effect "moves (in_now inp)" inp for inp
proof unfold_locales
  fix s s1 s2 :: session and r reqs i res res'
  show "moves (in_now inp) s s" by simp
  show "moves (in_now inp) s s1 \<Longrightarrow> moves (in_now inp) s1 s2 \<Longrightarrow> moves (in_now inp) s s2"
    by (rule moves_trans)
  show "ses_Requests s = Some r \<Longrightarrow>
      moves (in_now inp) s (s\<lparr>ses_Requests := Some (r\<lparr>rr_requests := reqs\<rparr>)\<rparr>)"
    by (rule moves_event) (rule pe_requests)
  show "Session_Notify (in_now inp) i s = (res, s1) \<Longrightarrow> moves (in_now inp) s s1"
    by (rule moves_notify)
  show "AbortFetch s = (res', s1) \<Longrightarrow> moves (in_now inp) s s1"
    by (rule moves_event) (rule pe_abort)
qed

text \<open>
  Handling a message of a proxy, whatever the message and whatever its outcome,
  is for every session a sequence of steps of its settling page: updates of requests, notifications
  and aborts. The waiting fetch stays where it is.
\<close>

lemma messages_are_settle_steps:
  assumes "Do_step rx lib inp st w = (out, st1, w1, rs)" and "b < w_next w"
    and "st_sess p = w_heap w b" and "st_clock p = in_now inp"
  shows "\<exists>p1. settle_step\<^sup>*\<^sup>* p p1 \<and> st_sess p1 = w_heap w1 b \<and> st_phase p1 = st_phase p
    \<and> st_since p1 = st_since p \<and> st_clock p1 = st_clock p"
proof -
  have "\<forall>b < w_next w. moves (in_now inp) (w_heap w b) (w_heap w1 b)"
    using moved.Do_step_frame [OF assms(1)] by (elim conjE)
  then have "moves (in_now inp) (w_heap w b) (w_heap w1 b)" using assms(2) by simp
  from settle_moves [OF this assms(3,4)] show ?thesis unfolding assms(4) by (elim exE conjE) (intro exI conjI)
qed

section \<open>Browser events\<close>

lemma with_registry_moves:
  assumes "with_registry s f = (res, s1)"
    and "\<And>r x. ses_Requests s = Some r \<Longrightarrow> f r = x \<Longrightarrow> page_event s (s\<lparr>ses_Requests := Some (snd x)\<rparr>)"
  shows "moves now s s1"
  using assms(1) assms(2) [OF _ refl]
  by (auto simp: with_registry_def Let_def split: option.splits prod.splits intro!: moves_event)

lemma AddRequest_event:
  "ses_Requests s = Some r \<Longrightarrow> page_event s (s\<lparr>ses_Requests := Some (AddRequest q r)\<rparr>)"
  unfolding AddRequest_def by (rule pe_requests)

lemma set_initiator_event:
  "ses_Requests s = Some r \<Longrightarrow> page_event s (s\<lparr>ses_Requests := Some (set_initiator n i r)\<rparr>)"
  using pe_requests [of s r "rr_requests r"] pe_requests [of s r]
  by (auto simp: set_initiator_def split: option.splits)

lemma notify_logged_moves: "notify_logged now i s = (res, s1) \<Longrightarrow> moves now s s1"
  by (auto simp: notify_logged_def Let_def split: prod.splits intro: moves_notify)

lemma request_paused_moves:
  assumes "request_paused lib now sent ev s = (res, s1, cmds)"
  shows "moves now s s1"
proof -
  have add: "moves now s s2" if "with_registry s (\<lambda>r. (Ret (), AddRequest (request_of lib ev) r)) = (x, s2)" for x s2
    by (rule with_registry_moves [OF that]) (auto intro: AddRequest_event)
  show ?thesis
    using assms add notify_logged_moves
    by (auto simp: request_paused_def Let_def split: if_splits prod.splits go.splits) (blast intro: moves_trans)+
qed

text \<open>
  The same holds of every event of the browser.
\<close>

lemma browser_events_are_settle_steps:
  assumes "listenFunc lib (st_clock p) sent ev (st_sess p) = (res, s1, cmds)"
  shows "\<exists>p1. settle_step\<^sup>*\<^sup>* p p1 \<and> st_sess p1 = s1 \<and> st_phase p1 = st_phase p
    \<and> st_since p1 = st_since p \<and> st_clock p1 = st_clock p"
proof -
  have "moves (st_clock p) (st_sess p) s1"
  proof (cases ev)
    case (EventRequestWillBeSent n i)
    then show ?thesis
      using assms by (auto split: prod.splits intro!: with_registry_moves set_initiator_event)
  next
    case (EventFrameStartedLoading f)
    then show ?thesis
      using assms by (auto split: prod.splits intro!: with_registry_moves intro: pe_load_start)
  next
    case (EventFrameStoppedLoading f)
    then show ?thesis
      using assms by (auto split: prod.splits intro!: with_registry_moves intro: pe_load_finished)
  next
    case (EventTargetCreated i t)
    then show ?thesis using assms by (auto split: prod.splits intro: notify_logged_moves)
  next
    case (EventRequestPaused e)
    then show ?thesis using assms request_paused_moves by auto
  qed (use assms in auto)
  from settle_moves [OF this refl refl] show ?thesis by (elim exE conjE) (intro exI conjI)
qed

section \<open>Examples\<close>

lemma messages_are_settle_steps_instance:
  "\<exists>w1 p1. settle_step\<^sup>*\<^sup>* (ex_loading\<lparr>st_sess := ex_session\<rparr>) p1 \<and> st_sess p1 = w_heap w1 5
     \<and> Do_step prefix_regexps plain_urls (ex_completed False) ex_state ex_world = (Again, ex_state, w1, [])"
proof -
  obtain w1 where w1: "Do_step prefix_regexps plain_urls (ex_completed False) ex_state ex_world
      = (Again, ex_state, w1, [])"
    using ex_completes by blast
  from messages_are_settle_steps [OF w1, of 5 "ex_loading\<lparr>st_sess := ex_session\<rparr>"] w1
  show ?thesis by (simp add: ex_world_def ex_loading_def ex_completed_def) blast
qed

lemma browser_events_are_settle_steps_instance:
  "\<exists>p1. settle_step\<^sup>*\<^sup>* ex_loading p1
     \<and> st_sess p1 = fst (snd (listenFunc plain_urls 0 True (EventFrameStartedLoading ''f'') ex_open))
     \<and> st_phase p1 = Loading"
proof -
  obtain res s1 cmds where run: "listenFunc plain_urls (st_clock ex_loading) True (EventFrameStartedLoading ''f'')
      (st_sess ex_loading) = (res, s1, cmds)"
    by (rule prod_cases3)
  from browser_events_are_settle_steps [OF run] run show ?thesis by (simp add: ex_loading_def) blast
qed

end
