(* ===== verification/Settling_Fetch.thy ===== *)
theory Settling_Fetch
  imports Settling
begin

text \<open>
  \<open>Fetch\<close> of \<^verbatim>\<open>session/session.go\<close> over the waits of the theory \<open>Settling\<close>, as an interface: when
  everything that happens to the session while it calls the browser and waits is a run of the
  settling page, the phases that collect the results begin when the page has settled. The
  theory \<open>Scheduled\<close> provides the waits.
\<close>

section \<open>The contract of the environment\<close>

text \<open>
  A change of the session and the world from one phase to another that steps of a settling page
  can make; \<open>clk\<close> reads the clock of the world.
\<close>

definition runs ::
  "('w \<Rightarrow> int) \<Rightarrow> int \<Rightarrow> int \<Rightarrow> settle_phase \<Rightarrow> session \<times> 'w \<Rightarrow> settle_phase \<Rightarrow> session \<times> 'w \<Rightarrow> bool" where
  "runs clk I T ph sw ph1 sw1 \<longleftrightarrow>
     (\<forall>st. settle_reachable I T st \<and> st_sess st = fst sw \<and> st_phase st = ph \<and> st_clock st = clk (snd sw)
        \<longrightarrow> (\<exists>st1. settle_step\<^sup>*\<^sup>* st st1 \<and> st_sess st1 = fst sw1 \<and> st_phase st1 = ph1
                \<and> st_clock st1 = clk (snd sw1)))"

definition in_phase :: "('w \<Rightarrow> int) \<Rightarrow> int \<Rightarrow> int \<Rightarrow> settle_phase \<Rightarrow> session \<times> 'w \<Rightarrow> bool" where
  "in_phase clk I T ph sw \<longleftrightarrow>
     (\<exists>st. settle_reachable I T st \<and> st_sess st = fst sw \<and> st_phase st = ph \<and> st_clock st = clk (snd sw))"

lemma settle_reachable_steps: "settle_step\<^sup>*\<^sup>* s s1 \<Longrightarrow> settle_reachable I T s \<Longrightarrow> settle_reachable I T s1"
  by (induction rule: rtranclp_induct) (auto intro: settle_next)

lemma runs_in_phase:
  assumes "runs clk I T ph sw ph1 sw1" and "in_phase clk I T ph sw"
  shows "in_phase clk I T ph1 sw1"
proof -
  obtain st where st: "settle_reachable I T st" "st_sess st = fst sw" "st_phase st = ph" "st_clock st = clk (snd sw)"
    using assms(2) by (auto simp: in_phase_def)
  with assms(1) obtain st1 where "settle_step\<^sup>*\<^sup>* st st1" "st_sess st1 = fst sw1" "st_phase st1 = ph1"
    "st_clock st1 = clk (snd sw1)"
    unfolding runs_def by blast
  then show ?thesis using settle_reachable_steps [OF _ st(1)] by (auto simp: in_phase_def)
qed

text \<open>What a phase of the fetch that ends well leads to.\<close>

definition yields ::
  "('s \<Rightarrow> bool) \<Rightarrow> ('a, 's) fetcher \<Rightarrow> ('a \<Rightarrow> 's \<Rightarrow> bool) \<Rightarrow> bool" where
  "yields P m Q \<longleftrightarrow> (\<forall>s a s1. P s \<longrightarrow> m s = Some (Done a, s1) \<longrightarrow> Q a s1)"

lemma fbind_Done:
  "fbind m k s = Some (Done b, s2) \<longleftrightarrow> (\<exists>a s1. m s = Some (Done a, s1) \<and> k a s1 = Some (Done b, s2))"
  by (auto simp: fbind_def split: option.splits prod.splits fetched.splits)

lemma yields_fbind: "yields P m Q \<Longrightarrow> (\<And>a. yields (Q a) (k a) R) \<Longrightarrow> yields P (fbind m k) R"
  unfolding yields_def fbind_Done by blast

section \<open>What is collected\<close>

text \<open>\<open>Fetch\<close> after its last wait: the time is taken and the results are collected.\<close>

definition collect_results ::
  "'w fetch_env \<Rightarrow> queued_uri \<Rightarrow> (render_result, session \<times> 'w) fetcher" where
  "collect_results env u =
     fbind (\<lambda>sw. Some (Done (fe_FetchMs env sw), sw)) (\<lambda>fetchMs.
     fbind (finalize u) (\<lambda>_.
     fbind (screenshot_phase env) (\<lambda>_.
     report_phase env u fetchMs)))"

text \<open>The result has been collected from the session of a page that had settled.\<close>

definition collected_settled ::
  "'w fetch_env \<Rightarrow> browser_config \<Rightarrow> settling \<Rightarrow> render_result \<Rightarrow> session \<times> 'w \<Rightarrow> bool" where
  "collected_settled env b st res sw1 \<longleftrightarrow>
     settle_reachable (max_idle b) (max_total b) st
     \<and> (\<exists>x. st_phase st = Settled x \<and> settled_by (max_idle b) (max_total b) st x)
     \<and> (\<exists>u w. collect_results env u (st_sess st, w) = Some (Done res, sw1))"

section \<open>The waits of a fetch\<close>

text \<open>
  What \<open>Fetch\<close> relies on: the page stays open while the browser is driven and the scripts wait for
  the network; the last two waits begin and end as \<open>WaitGroup.Wait\<close> and \<open>WaitForCompletion\<close> do,
  with the results these return.
\<close>

locale fetch_waits =
  fixes env :: "'w fetch_env" and clk :: "'w \<Rightarrow> int" and I :: int and T :: int
  assumes version: "ses_ctx (fst (snd (fe_GetVersion env sw))) = ses_ctx (fst sw)"
    and init: "runs clk I T Loading sw Loading (snd (fe_InitBrowser env d c sw))"
    and navigate: "runs clk I T Loading sw Loading (snd (fe_Navigate env u sw))"
    and network: "runs clk I T Loading sw Loading (fe_WaitNetwork env sw)"
    and frame_tree: "runs clk I T Loading sw Loading (snd (br_GetFrameTree (fe_browser env) sw))"
    and world: "runs clk I T Loading sw Loading (snd (br_CreateIsolatedWorld (fe_browser env) f sw))"
    and call: "runs clk I T Loading sw Loading (snd (br_CallFunctionOn (fe_browser env) g a eci p sw))"
    and frames: "fe_WaitFrames env sw = (e, sw1) \<Longrightarrow> runs clk I T Loading sw (FramesReturned e) sw1"
    and responses: "fe_WaitRequests env sw = (x, sw1) \<Longrightarrow> frames_result uri e (fst sw) = Done ()
        \<Longrightarrow> runs clk I T (FramesReturned e) sw (Settled x) sw1"
begin

abbreviation at_phase :: "settle_phase \<Rightarrow> session \<times> 'w \<Rightarrow> bool" where
  "at_phase \<equiv> in_phase clk I T"

lemma start_browser_yields:
  assumes "I = max_idle b" and "T = max_total b" and "0 \<le> max_idle b"
  shows "yields (\<lambda>sw. True) (start_browser env b) (\<lambda>u. at_phase Loading)"
  unfolding yields_def
proof (intro allI impI)
  fix sw u sw1 assume run: "start_browser env b sw = Some (Done u, sw1)"
  let ?sw = "((fst sw)\<lparr>ses_ctx := Some False\<rparr>, snd sw)"
  obtain v s2 w2 where v: "fe_GetVersion env ?sw = (v, s2, w2)" by (cases "fe_GetVersion env ?sw") auto
  have "ses_ctx s2 = Some False" using version [of ?sw] by (simp add: v)
  then have "set_up I T (fst sw1)"
    using run v assms(1,2)
    by (auto simp: start_browser_def fbind_Done set_sess_def act_def set_up_def split: sum.splits)
  from settle_init [OF this, of "clk (snd sw1)"] show "at_phase Loading sw1"
    using assms(1,3) unfolding in_phase_def by fastforce
qed

lemma loading_kept:
  assumes "at_phase Loading sw"
  shows "at_phase Loading (snd (fe_InitBrowser env d c sw))"
    "at_phase Loading (snd (fe_Navigate env u sw))"
    "at_phase Loading (fe_WaitNetwork env sw)"
    "at_phase Loading (snd (br_GetFrameTree (fe_browser env) sw))"
    "at_phase Loading (snd (br_CreateIsolatedWorld (fe_browser env) f sw))"
    "at_phase Loading (snd (br_CallFunctionOn (fe_browser env) g a eci p sw))"
  by (rule runs_in_phase [OF _ assms], rule init navigate network frame_tree world call)+

lemma init_browser_yields: "yields (at_phase Loading) (init_browser env b) (\<lambda>u. at_phase Loading)"
  unfolding yields_def
  by (auto simp: init_browser_def Let_def split: prod.splits option.splits) (metis loading_kept(1) snd_conv)

lemma navigate_yields: "yields (at_phase Loading) (Fetch.navigate env) (\<lambda>u. at_phase Loading)"
  unfolding yields_def
  by (auto simp: navigate_def Let_def split: prod.splits option.splits) (metis loading_kept(2) snd_conv)

lemma network_yields:
  "yields (at_phase Loading) (act (\<lambda>sw. ((), fe_WaitNetwork env sw))) (\<lambda>u. at_phase Loading)"
  by (auto simp: yields_def act_def loading_kept)

lemma run_scripts_yields: "yields (at_phase Loading) (run_scripts env t) (\<lambda>u. at_phase Loading)"
proof -
  have "browser_keeps (at_phase Loading) (fe_browser env)"
    using loading_kept by (simp add: browser_keeps_def)
  note keeps = executeScripts_keeps [OF this, where wait = "fe_WaitNetwork env"]
  show ?thesis
    unfolding yields_def
  proof (intro allI impI)
    fix sw a sw1
    assume sw: "at_phase Loading sw" and "run_scripts env t sw = Some (Done a, sw1)"
    then have "executeScripts (fe_browser env) (fe_WaitNetwork env) (ses_scripts (fst sw)) (annotations (fst sw)) t sw
        = Some (Ret a, sw1)"
      by (auto simp: run_scripts_def split: option.splits go.splits)
    from keeps [OF _ sw this] show "at_phase Loading sw1" using loading_kept(3) by blast
  qed
qed

lemma script_phases_yields: "yields (at_phase Loading) (script_phases env) (\<lambda>u. at_phase Loading)"
  unfolding script_phases_def
proof (rule yields_fbind [OF run_scripts_yields])
  fix e :: "error option"
  have "yields (at_phase Loading) (fbind (run_scripts env ON_LOAD) (\<lambda>e1. (\<lambda>sw. Some (Done (), sw))))
      (\<lambda>u. at_phase Loading)"
    by (rule yields_fbind [OF run_scripts_yields]) (simp add: yields_def)
  then show "yields (at_phase Loading) (case e of
        Some err \<Rightarrow> (\<lambda>sw. Some (Fail (Wrapped ''failed executing scripts in ON_NEW_DOCUMENT phase: ''
                                 (Some err)), sw))
      | None \<Rightarrow> fbind (run_scripts env ON_LOAD) (\<lambda>e1. (\<lambda>sw. Some (Done (), sw))))
      (\<lambda>u. at_phase Loading)"
    by (cases e) (simp_all add: yields_def)
qed

lemma frames_yields:
  "yields (at_phase Loading) (wait_frames env uri)
     (\<lambda>u sw. \<exists>e. at_phase (FramesReturned e) sw \<and> frames_result uri e (fst sw) = Done ())"
  unfolding yields_def
proof (intro allI impI)
  fix sw a sw1
  assume sw: "at_phase Loading sw" and run: "wait_frames env uri sw = Some (Done a, sw1)"
  obtain e sw2 where e: "fe_WaitFrames env sw = (e, sw2)" by (rule prod.exhaust)
  from runs_in_phase [OF frames [OF e] sw]
  show "\<exists>e. at_phase (FramesReturned e) sw1 \<and> frames_result uri e (fst sw1) = Done ()"
    using run e by (auto simp: wait_frames_def)
qed

lemma requests_yields:
  "yields (\<lambda>sw. \<exists>e. at_phase (FramesReturned e) sw \<and> frames_result uri e (fst sw) = Done ())
     (act (fe_WaitRequests env)) (\<lambda>x. at_phase (Settled x))"
  unfolding yields_def act_def using responses runs_in_phase by (fastforce split: prod.splits)

lemma collect_yields:
  assumes "I = max_idle b" and "T = max_total b"
  shows "yields (at_phase (Settled x)) (collect_results env u) (\<lambda>res sw1. \<exists>st. collected_settled env b st res sw1)"
  unfolding yields_def
proof (intro allI impI)
  fix sw res sw1
  assume "at_phase (Settled x) sw" and run: "collect_results env u sw = Some (Done res, sw1)"
  then obtain st where "settle_reachable (max_idle b) (max_total b) st" "st_sess st = fst sw"
    "st_phase st = Settled x"
    using assms by (auto simp: in_phase_def)
  then have "collected_settled env b st res sw1"
    using settled run unfolding collected_settled_def by (metis prod.collapse)
  then show "\<exists>st. collected_settled env b st res sw1" ..
qed

lemma with_browser_yields:
  assumes b: "I = max_idle b" "T = max_total b" and "0 \<le> max_idle b"
  shows "yields (\<lambda>sw. True) (with_browser env b) (\<lambda>res sw1. \<exists>st. collected_settled env b st res sw1)"
proof -
  have waits: "yields (at_phase Loading) (fbind (wait_frames env (qu_Uri u)) (\<lambda>_. fbind (act (fe_WaitRequests env))
      (\<lambda>_. collect_results env u))) (\<lambda>res sw1. \<exists>st. collected_settled env b st res sw1)" for u
    by (rule yields_fbind [OF frames_yields], rule yields_fbind [OF requests_yields],
        rule collect_yields [OF b])
  then have "yields (at_phase Loading) (\<lambda>sw. case ses_RequestedUrl (fst sw) of
        None \<Rightarrow> Some (Crash NilDereference, sw)
      | Some u \<Rightarrow> fbind (wait_frames env (qu_Uri u)) (\<lambda>_. fbind (act (fe_WaitRequests env))
          (\<lambda>_. collect_results env u)) sw) (\<lambda>res sw1. \<exists>st. collected_settled env b st res sw1)"
    unfolding yields_def by (auto split: option.splits)
  then show ?thesis
    unfolding with_browser_def collect_results_def
    by (intro yields_fbind [OF start_browser_yields [OF b assms(3)]] yields_fbind [OF init_browser_yields]
        yields_fbind [OF navigate_yields] yields_fbind [OF network_yields]
        yields_fbind [OF script_phases_yields])
qed

lemma Fetch_collects_settled:
  assumes "I = max_idle b" and "T = max_total b" and "0 \<le> max_idle b"
    and "fetch_config rx lib env phs sw = Some (Done b, sw0)"
    and "Fetch rx lib panic_text env phs sw = Some ((Some res, None), sw1)"
  shows "\<exists>st sw2. collected_settled env b st res sw2 \<and> cleanup env sw2 = (Ret (), sw1)"
proof -
  obtain out d sw2 where out: "with_browser env b sw0 = Some (out, sw2)" "cleanup env sw2 = (d, sw1)"
    "fetch_recover panic_text (out, d) = (Some res, None)"
    using assms(4,5) by (auto simp: Fetch_def fetch_body_def split: option.splits prod.splits)
  then have "d = Ret ()" "out = Done res" using fetch_recover_error [OF out(3)] by auto
  then show ?thesis
    using with_browser_yields [OF assms(1-3)] out(1,2) unfolding yields_def by blast
qed

end

end
