(* ===== verification/Scheduled.thy ===== *)
theory Scheduled
  imports Settling_Fetch
begin

text \<open>
  The waits of \<open>Fetch\<close> as the code has them. What the clock, the browser and the proxies do to
  the session while \<open>Fetch\<close> calls the browser or waits is a schedule, a list of happenings for
  each call; the loops of \<^verbatim>\<open>syncx/\<close> run against it. The browser and the other services only
  give the answers.
\<close>

section \<open>What happens meanwhile\<close>

text \<open>
  Time passes; a frame starts or finishes loading; requests are registered or updated; a proxy or
  the browser notifies the session; the fetch is aborted; the loading context ends; a waiting
  goroutine is woken and its \<open>select\<close> takes one of the ready cases.
\<close>

datatype happening =
    Passes nat
  | LoadStarts
  | LoadFinishes
  | Updates "request list"
  | Notifies string
  | Aborts
  | Expires
  | Wakes nat

text \<open>The world of a fetch: the clock, when its navigation began, its calls so far, everything else.\<close>

record 'v scheduled =
  sd_clock :: int
  sd_start :: int
  sd_calls :: nat
  sd_world :: 'v

definition on_registry :: "(request_registry \<Rightarrow> request_registry) \<Rightarrow> session \<Rightarrow> session" where
  "on_registry f s =
     (case ses_Requests s of None \<Rightarrow> s | Some r \<Rightarrow> s\<lparr>ses_Requests := Some (f r)\<rparr>)"

definition expire :: "session \<Rightarrow> session" where
  "expire s = s\<lparr>ses_loadCtx := map_option (\<lambda>_. True) (ses_loadCtx s)\<rparr>"

fun happens :: "happening \<Rightarrow> session \<times> 'v scheduled \<Rightarrow> session \<times> 'v scheduled" where
  "happens (Passes d) (s, w) = (s, w\<lparr>sd_clock := sd_clock w + int d\<rparr>)"
| "happens LoadStarts (s, w) = (on_registry (\<lambda>r. snd (NotifyLoadStart r)) s, w)"
| "happens LoadFinishes (s, w) = (on_registry (\<lambda>r. snd (NotifyLoadFinished r)) s, w)"
| "happens (Updates reqs) (s, w) = (on_registry (\<lambda>r. r\<lparr>rr_requests := reqs\<rparr>) s, w)"
| "happens (Notifies i) (s, w) = (snd (Session_Notify (sd_clock w) i s), w)"
| "happens Aborts (s, w) = (snd (AbortFetch s), w)"
| "happens Expires (s, w) = (expire s, w)"
| "happens (Wakes n) (s, w) = (s, w)"

definition all_happen :: "happening list \<Rightarrow> session \<times> 'v scheduled \<Rightarrow> session \<times> 'v scheduled" where
  "all_happen hs sw = fold happens hs sw"

lemma all_happen_simps [simp]:
  "all_happen [] sw = sw" "all_happen (h # hs) sw = all_happen hs (happens h sw)"
  by (simp_all add: all_happen_def)

section \<open>The loops of the waits\<close>

text \<open>
  \<open>WaitForCompletion\<close> of the timer that \<open>get\<close> finds in the session, with the answers of its check. A
  wait for which nothing more is scheduled ends when its total time is over.
\<close>

definition ready_cases :: "int \<Rightarrow> completion_timer \<Rightarrow> select_case list" where
  "ready_cases now t = filter (select_ready now t) [WaitTimerC, IdleTimerC, DoneChan]"

definition round_of ::
  "(completion_timer option \<Rightarrow> session \<Rightarrow> session) \<Rightarrow> (session \<Rightarrow> bool) \<Rightarrow> select_case \<Rightarrow> completion_timer \<Rightarrow>
     session \<times> 'v scheduled \<Rightarrow> (unit + syncx_error option) \<times> session \<times> 'v scheduled" where
  "round_of put check c t sw =
     (let (r, t1) = WaitForCompletion_round (sd_clock (snd sw)) (check (fst sw)) c t
      in (r, put (Some t1) (fst sw), snd sw))"

definition out_of_time :: "completion_timer \<Rightarrow> 'v scheduled \<Rightarrow> 'v scheduled" where
  "out_of_time t w =
     (case waitTimer t of None \<Rightarrow> w | Some d \<Rightarrow> w\<lparr>sd_clock := max (sd_clock w) d\<rparr>)"

fun timer_loop ::
  "(session \<Rightarrow> completion_timer option) \<Rightarrow> (completion_timer option \<Rightarrow> session \<Rightarrow> session) \<Rightarrow>
     (session \<Rightarrow> bool) \<Rightarrow> happening list \<Rightarrow> session \<times> 'v scheduled \<Rightarrow>
     syncx_error option \<times> session \<times> 'v scheduled" where
  "timer_loop get put check [] sw =
     (case get (fst sw) of
        None \<Rightarrow> (None, sw)
      | Some t \<Rightarrow>
          (case round_of put check WaitTimerC t (fst sw, out_of_time t (snd sw)) of
             (Inl u, sw1) \<Rightarrow> (None, sw1) | (Inr e, sw1) \<Rightarrow> (e, sw1)))"
| "timer_loop get put check (h # hs) sw =
     (case (h, get (fst sw)) of
        (Wakes n, Some t) \<Rightarrow>
          (case ready_cases (sd_clock (snd sw)) t of
             [] \<Rightarrow> timer_loop get put check hs sw
           | c # cs \<Rightarrow>
               (case round_of put check ((c # cs) ! (n mod Suc (length cs))) t sw of
                  (Inl u, sw1) \<Rightarrow> timer_loop get put check hs sw1
                | (Inr e, sw1) \<Rightarrow> (e, sw1)))
      | _ \<Rightarrow> timer_loop get put check hs (happens h sw))"

definition wait_timer ::
  "(session \<Rightarrow> completion_timer option) \<Rightarrow> (completion_timer option \<Rightarrow> session \<Rightarrow> session) \<Rightarrow>
     (session \<Rightarrow> bool) \<Rightarrow> happening list \<Rightarrow> session \<times> 'v scheduled \<Rightarrow>
     syncx_error option \<times> session \<times> 'v scheduled" where
  "wait_timer get put check hs sw =
     (case get (fst sw) of
        None \<Rightarrow> (None, sw)
      | Some t \<Rightarrow>
          (case WaitForCompletion_enter (sd_clock (snd sw)) (check (fst sw)) t of
             (Inr e, t1) \<Rightarrow> (e, put (Some t1) (fst sw), snd sw)
           | (Inl u, t1) \<Rightarrow> timer_loop get put check hs (put (Some t1) (fst sw), snd sw)))"

definition put_net :: "completion_timer option \<Rightarrow> session \<Rightarrow> session" where
  "put_net t s = s\<lparr>ses_netActivityTimer := t\<rparr>"

definition put_timer :: "completion_timer option \<Rightarrow> session \<Rightarrow> session" where
  "put_timer t s = s\<lparr>ses_timer := t\<rparr>"

text \<open>The wait for the network to slow down, after which its timer is reset.\<close>

definition wait_network :: "happening list \<Rightarrow> session \<times> 'v scheduled \<Rightarrow> session \<times> 'v scheduled" where
  "wait_network hs sw =
     (let (e, s1, w1) = wait_timer ses_netActivityTimer put_net (\<lambda>s. False) hs sw
      in (put_net (map_option (\<lambda>t. snd (CompletionTimer_Reset t)) (ses_netActivityTimer s1)) s1, w1))"

text \<open>
  \<open>WaitGroup.Wait\<close>: a wait for which nothing more is scheduled ends when the loading context
  does.
\<close>

definition ready_results :: "session \<Rightarrow> syncx_error option list" where
  "ready_results s =
     (case ses_Requests s of
        None \<Rightarrow> [] | Some r \<Rightarrow> WaitGroup_Wait_select (load_done s) (rr_done r))"

fun frames_loop ::
  "happening list \<Rightarrow> session \<times> 'v scheduled \<Rightarrow> syncx_error option \<times> session \<times> 'v scheduled" where
  "frames_loop [] sw = (Some ExceededMaxTime, expire (fst sw), snd sw)"
| "frames_loop (h # hs) sw =
     (case h of
        Wakes n \<Rightarrow>
          (case ready_results (fst sw) of
             [] \<Rightarrow> frames_loop hs sw | e # es \<Rightarrow> ((e # es) ! (n mod Suc (length es)), sw))
      | _ \<Rightarrow> frames_loop hs (happens h sw))"

definition wait_for_frames ::
  "happening list \<Rightarrow> session \<times> 'v scheduled \<Rightarrow> syncx_error option \<times> session \<times> 'v scheduled" where
  "wait_for_frames hs sw =
     (case ses_Requests (fst sw) of
        None \<Rightarrow> (None, sw)
      | Some r \<Rightarrow>
          (let (res, wg) = WaitGroup_Wait_enter (rr_done r);
               sw1 = ((fst sw)\<lparr>ses_Requests := Some (r\<lparr>rr_done := wg\<rparr>)\<rparr>, snd sw)
           in case res of Returned e \<Rightarrow> (e, sw1) | Selecting \<Rightarrow> frames_loop hs sw1))"

section \<open>The environment\<close>

text \<open>
  A call while the page is not open is only asked for its answer; during a call of the browser
  the next list of happenings takes place; a wait runs against it. Of the session that the
  answering function returns nothing is used.
\<close>

definition asked ::
  "(session \<times> 'v \<Rightarrow> 'a \<times> session \<times> 'v) \<Rightarrow> session \<times> 'v scheduled \<Rightarrow> 'a \<times> session \<times> 'v scheduled" where
  "asked f sw =
     (let (a, s, v) = f (fst sw, sd_world (snd sw)) in (a, fst sw, (snd sw)\<lparr>sd_world := v\<rparr>))"

definition next_call :: "session \<times> 'v scheduled \<Rightarrow> session \<times> 'v scheduled" where
  "next_call sw = (fst sw, (snd sw)\<lparr>sd_calls := Suc (sd_calls (snd sw))\<rparr>)"

definition answered ::
  "(nat \<Rightarrow> happening list) \<Rightarrow> (session \<times> 'v \<Rightarrow> 'a \<times> session \<times> 'v) \<Rightarrow> session \<times> 'v scheduled \<Rightarrow>
     'a \<times> session \<times> 'v scheduled" where
  "answered sch f sw =
     (let (a, sw1) = asked f sw in (a, all_happen (sch (sd_calls (snd sw))) (next_call sw1)))"

definition scheduled_page :: "(nat \<Rightarrow> happening list) \<Rightarrow> 'v page_env \<Rightarrow> 'v scheduled page_env" where
  "scheduled_page sch p =
     \<lparr>pg_Evaluate = (\<lambda>s b. answered sch (pg_Evaluate p s b)),
      pg_GetAllCookies = answered sch (pg_GetAllCookies p),
      pg_CaptureScreenshot = answered sch (pg_CaptureScreenshot p),
      pg_WriteScreenshot = (\<lambda>d m. answered sch (pg_WriteScreenshot p d m)),
      pg_CloseBrowser = answered sch (pg_CloseBrowser p),
      pg_WriteCrawlLogs = (\<lambda>l. answered sch (pg_WriteCrawlLogs p l)),
      pg_WritePageLog = (\<lambda>l. answered sch (pg_WritePageLog p l)),
      pg_NewUuid = asked (pg_NewUuid p)\<rparr>"

definition scheduled_browser ::
  "(nat \<Rightarrow> happening list) \<Rightarrow> (session \<times> 'v) browser \<Rightarrow> (session \<times> 'v scheduled) browser" where
  "scheduled_browser sch br =
     \<lparr>br_GetFrameTree = answered sch (br_GetFrameTree br),
      br_CreateIsolatedWorld = (\<lambda>f. answered sch (br_CreateIsolatedWorld br f)),
      br_CallFunctionOn = (\<lambda>f a eci p. answered sch (br_CallFunctionOn br f a eci p))\<rparr>"

text \<open>The time of a fetch runs from the beginning of the navigation, in whole milliseconds.\<close>

definition scheduled_env :: "(nat \<Rightarrow> happening list) \<Rightarrow> 'v fetch_env \<Rightarrow> 'v scheduled fetch_env" where
  "scheduled_env sch env =
     \<lparr>fe_page = scheduled_page sch (fe_page env),
      fe_browser = scheduled_browser sch (fe_browser env),
      fe_GetConfigObject = (\<lambda>r. asked (fe_GetConfigObject env r)),
      fe_GetScripts = (\<lambda>b. asked (fe_GetScripts env b)),
      fe_GetVersion = asked (fe_GetVersion env),
      fe_InitBrowser = (\<lambda>d c. answered sch (fe_InitBrowser env d c)),
      fe_Navigate = (\<lambda>u sw. answered sch (fe_Navigate env u)
         (fst sw, (snd sw)\<lparr>sd_start := sd_clock (snd sw)\<rparr>)),
      fe_WaitNetwork = (\<lambda>sw. wait_network (sch (sd_calls (snd sw))) (next_call sw)),
      fe_WaitFrames = (\<lambda>sw. wait_for_frames (sch (sd_calls (snd sw))) (next_call sw)),
      fe_WaitRequests = (\<lambda>sw.
         wait_timer ses_timer put_timer all_resolved (sch (sd_calls (snd sw))) (next_call sw)),
      fe_NewRequest = fe_NewRequest env,
      fe_CleanWorkspace = (\<lambda>u sw. snd (asked (\<lambda>x. ((), fe_CleanWorkspace env u x)) sw)),
      fe_FetchMs = (\<lambda>sw. word_of_int ((sd_clock (snd sw) - sd_start (snd sw)) div 1000000)),
      fe_ErrorText = fe_ErrorText env\<rparr>"

section \<open>The loops are runs of the settling page\<close>

lemma runs_refl [simp]: "fst sw1 = fst sw \<Longrightarrow> sd_clock (snd sw1) = sd_clock (snd sw) \<Longrightarrow> runs sd_clock I T ph sw ph sw1"
  unfolding runs_def by auto

lemma runs_trans:
  assumes "runs clk I T ph sw ph1 sw1" and "runs clk I T ph1 sw1 ph2 sw2"
  shows "runs clk I T ph sw ph2 sw2"
  unfolding runs_def
proof (intro allI impI)
  fix st assume st: "settle_reachable I T st \<and> st_sess st = fst sw \<and> st_phase st = ph \<and> st_clock st = clk (snd sw)"
  with assms(1) obtain st1 where st1: "settle_step\<^sup>*\<^sup>* st st1" "st_sess st1 = fst sw1" "st_phase st1 = ph1"
    "st_clock st1 = clk (snd sw1)"
    unfolding runs_def by blast
  moreover have "settle_reachable I T st1" using settle_reachable_steps [OF st1(1)] st by blast
  ultimately obtain st2 where "settle_step\<^sup>*\<^sup>* st1 st2" "st_sess st2 = fst sw2" "st_phase st2 = ph2"
    "st_clock st2 = clk (snd sw2)"
    using assms(2) unfolding runs_def by blast
  moreover from this st1(1) have "settle_step\<^sup>*\<^sup>* st st2" by (meson rtranclp_trans)
  ultimately show "\<exists>st1. settle_step\<^sup>*\<^sup>* st st1 \<and> st_sess st1 = fst sw2 \<and> st_phase st1 = ph2 \<and> st_clock st1 = clk (snd sw2)"
    by blast
qed

text \<open>One step, from a state of which the invariant is known.\<close>

lemma runs_stepI:
  assumes "\<And>st n r t. settle_reachable I T st \<Longrightarrow> st_sess st = fst sw \<Longrightarrow> st_phase st = ph
      \<Longrightarrow> st_clock st = clk (snd sw) \<Longrightarrow> ses_netActivityTimer (fst sw) = Some n \<Longrightarrow> net_ok T st n
      \<Longrightarrow> ses_Requests (fst sw) = Some r \<Longrightarrow> ses_timer (fst sw) = Some t \<Longrightarrow> timer_ok I T st t
      \<Longrightarrow> ses_loadCtx (fst sw) \<noteq> None
      \<Longrightarrow> \<exists>st1. settle_step st st1 \<and> st_sess st1 = fst sw1 \<and> st_phase st1 = ph1 \<and> st_clock st1 = clk (snd sw1)"
  shows "runs clk I T ph sw ph1 sw1"
  unfolding runs_def
proof (intro allI impI)
  fix st assume st: "settle_reachable I T st \<and> st_sess st = fst sw \<and> st_phase st = ph \<and> st_clock st = clk (snd sw)"
  then obtain n r t where "ses_netActivityTimer (fst sw) = Some n" "net_ok T st n" "ses_Requests (fst sw) = Some r"
    "ses_timer (fst sw) = Some t" "timer_ok I T st t" "ses_loadCtx (fst sw) \<noteq> None"
    using settle_reachable_inv [of I T st] by (auto simp: settle_inv_def)
  then obtain st1 where "settle_step st st1" "st_sess st1 = fst sw1" "st_phase st1 = ph1" "st_clock st1 = clk (snd sw1)"
    using assms st by blast
  then show "\<exists>st1. settle_step\<^sup>*\<^sup>* st st1 \<and> st_sess st1 = fst sw1 \<and> st_phase st1 = ph1 \<and> st_clock st1 = clk (snd sw1)"
    by (intro exI [of _ st1]) (simp add: r_into_rtranclp)
qed

lemma event_runs:
  assumes "\<And>r. ses_Requests (fst sw) = Some r \<Longrightarrow> ses_loadCtx (fst sw) \<noteq> None \<Longrightarrow> page_event (fst sw) s1"
  shows "runs clk I T ph sw ph (s1, snd sw)"
proof (rule runs_stepI)
  fix st :: settling and r assume st: "st_sess st = fst sw" "st_phase st = ph" "st_clock st = clk (snd sw)"
    and "ses_Requests (fst sw) = Some r" "ses_loadCtx (fst sw) \<noteq> None"
  then have "page_event (st_sess st) s1" using assms by simp
  from st_event [OF this] st
  show "\<exists>st1. settle_step st st1 \<and> st_sess st1 = fst (s1, snd sw) \<and> st_phase st1 = ph \<and> st_clock st1 = clk (snd (s1, snd sw))"
    by (intro exI [of _ "st\<lparr>st_sess := s1\<rparr>"]) simp
qed

lemma clock_runs: "sd_clock (snd sw) \<le> sd_clock w \<Longrightarrow> runs sd_clock I T ph sw ph (fst sw, w)"
proof (rule runs_stepI)
  fix st :: settling
  assume "sd_clock (snd sw) \<le> sd_clock w" "st_sess st = fst sw" "st_phase st = ph" "st_clock st = sd_clock (snd sw)"
  then show "\<exists>st1. settle_step st st1 \<and> st_sess st1 = fst (fst sw, w) \<and> st_phase st1 = ph
      \<and> st_clock st1 = sd_clock (snd (fst sw, w))"
    using st_tick [of st "sd_clock w"] by (intro exI [of _ "st\<lparr>st_clock := sd_clock w\<rparr>"]) simp
qed

lemma expire_runs: "runs clk I T ph sw ph (expire (fst sw), snd sw)"
  by (rule event_runs) (auto simp: expire_def intro: pe_expires)

lemma registry_runs:
  assumes "\<And>r. ses_Requests (fst sw) = Some r \<Longrightarrow> page_event (fst sw) ((fst sw)\<lparr>ses_Requests := Some (f r)\<rparr>)"
  shows "runs clk I T ph sw ph (on_registry f (fst sw), snd sw)"
  using assms by (intro event_runs) (simp add: on_registry_def)

lemma notify_runs: "runs sd_clock I T ph (s, w) ph (snd (Session_Notify (sd_clock w) i s), w)"
proof (rule runs_stepI)
  fix st :: settling assume st: "st_sess st = fst (s, w)" "st_phase st = ph" "st_clock st = sd_clock (snd (s, w))"
  obtain res sess where n: "Session_Notify (sd_clock w) i s = (res, sess)" by fastforce
  let ?st1 = "st\<lparr>st_sess := sess, st_heard := st_clock st, st_matched := st_matched st \<or> all_resolved (st_sess st)\<rparr>"
  have "settle_step st ?st1" by (rule st_notify) (use n st in simp)
  then show "\<exists>st1. settle_step st st1 \<and> st_sess st1 = fst (snd (Session_Notify (sd_clock w) i s), w)
      \<and> st_phase st1 = ph \<and> st_clock st1 = sd_clock (snd (snd (Session_Notify (sd_clock w) i s), w))"
    using st n by (intro exI [of _ ?st1]) simp
qed

lemma happens_runs: "runs sd_clock I T ph sw ph (happens h sw)"
proof (cases sw)
  case (Pair s w)
  show ?thesis
  proof (cases h)
    case (Passes d)
    then show ?thesis using clock_runs [of sw "w\<lparr>sd_clock := sd_clock w + int d\<rparr>"] Pair by simp
  next
    case LoadStarts
    then show ?thesis
      using registry_runs [of sw "\<lambda>r. snd (NotifyLoadStart r)"] pe_load_start [of s] Pair by (simp add: prod_eq_iff [of "NotifyLoadStart _"])
  next
    case LoadFinishes
    then show ?thesis
      using registry_runs [of sw "\<lambda>r. snd (NotifyLoadFinished r)"] pe_load_finished [of s] Pair by (simp add: prod_eq_iff [of "NotifyLoadFinished _"])
  next
    case (Updates reqs)
    then show ?thesis using registry_runs [of sw "\<lambda>r. r\<lparr>rr_requests := reqs\<rparr>"] pe_requests [of s] Pair by simp
  next
    case (Notifies i)
    then show ?thesis using notify_runs Pair by simp
  next
    case Aborts
    then show ?thesis using event_runs [of sw "snd (AbortFetch s)"] pe_abort [of s] Pair by (simp add: prod_eq_iff [of "AbortFetch _"])
  next
    case Expires
    then show ?thesis using expire_runs [of sd_clock I T ph sw] Pair by simp
  qed (simp add: Pair)
qed

lemma all_happen_runs: "runs sd_clock I T ph sw ph (all_happen hs sw)"
proof (induction hs arbitrary: sw)
  case (Cons h hs)
  show ?case unfolding all_happen_simps by (rule runs_trans [OF happens_runs Cons])
qed simp

lemma answered_runs: "runs sd_clock I T ph sw ph (snd (answered sch f sw))"
proof -
  obtain a s v where f: "f (fst sw, sd_world (snd sw)) = (a, s, v)" by (rule prod_cases3)
  have "runs sd_clock I T ph sw ph (next_call (fst sw, (snd sw)\<lparr>sd_world := v\<rparr>))" by (simp add: next_call_def)
  from runs_trans [OF this all_happen_runs] show ?thesis by (simp add: answered_def asked_def f)
qed

text \<open>The rounds of the two timers.\<close>

lemma ready_cases_nth:
  assumes "ready_cases now t = c # cs"
  shows "select_ready now t ((c # cs) ! (n mod Suc (length cs)))"
proof -
  have "(c # cs) ! (n mod Suc (length cs)) \<in> set (ready_cases now t)"
    unfolding assms by (rule nth_mem) simp
  then show ?thesis unfolding ready_cases_def set_filter mem_Collect_eq by (rule conjunct2)
qed

lemma net_round_runs:
  assumes "ses_netActivityTimer (fst sw) = Some t" and "select_ready (sd_clock (snd sw)) t c"
    and "round_of put_net (\<lambda>s. False) c t sw = (r, sw1)"
  shows "runs sd_clock I T NetWaiting sw (case r of Inl u \<Rightarrow> NetWaiting | Inr e \<Rightarrow> NetReturned e) sw1"
proof (rule runs_stepI)
  fix st :: settling
  assume st: "st_sess st = fst sw" "st_phase st = NetWaiting" "st_clock st = sd_clock (snd sw)"
  obtain t1 where t1: "WaitForCompletion_round (st_clock st) False c t = (r, t1)" "sw1 = (put_net (Some t1) (fst sw), snd sw)"
    using assms(3) st by (auto simp: round_of_def split: prod.splits)
  with st_net_round [OF st(2), of t c r t1] assms(1,2) st
  show "\<exists>st1. settle_step st st1 \<and> st_sess st1 = fst sw1 \<and> st_phase st1 = (case r of Inl u \<Rightarrow> NetWaiting | Inr e \<Rightarrow> NetReturned e)
      \<and> st_clock st1 = sd_clock (snd sw1)"
    by (fastforce simp: put_net_def)
qed

lemma timer_round_runs:
  assumes "ses_timer (fst sw) = Some t" and "select_ready (sd_clock (snd sw)) t c"
    and "round_of put_timer all_resolved c t sw = (r, sw1)"
  shows "runs sd_clock I T RequestsWaiting sw (case r of Inl u \<Rightarrow> RequestsWaiting | Inr e \<Rightarrow> Settled e) sw1"
proof (rule runs_stepI)
  fix st :: settling
  assume st: "st_sess st = fst sw" "st_phase st = RequestsWaiting" "st_clock st = sd_clock (snd sw)"
  obtain t1 where t1: "WaitForCompletion_round (st_clock st) (all_resolved (st_sess st)) c t = (r, t1)"
    "sw1 = (put_timer (Some t1) (fst sw), snd sw)"
    using assms(3) st by (auto simp: round_of_def split: prod.splits)
  with st_round [OF st(2), of t c r t1] assms(1,2) st
  show "\<exists>st1. settle_step st st1 \<and> st_sess st1 = fst sw1 \<and> st_phase st1 = (case r of Inl u \<Rightarrow> RequestsWaiting | Inr e \<Rightarrow> Settled e)
      \<and> st_clock st1 = sd_clock (snd sw1)"
    by (fastforce simp: put_timer_def)
qed

lemma WaitTimer_round_ends: "WaitForCompletion_round now check WaitTimerC t = (r, t1) \<Longrightarrow> \<exists>e. r = Inr e"
  by (auto simp: Let_def split: if_splits)

text \<open>
  Either loop is a run, for the phases of its timer: \<open>waiting\<close> while it goes on and \<open>ended\<close> with
  what it returns.
\<close>

lemma timer_loop_runs:
  fixes sw sw1 :: "session \<times> 'v scheduled"
  assumes round: "\<And>(sw :: session \<times> 'v scheduled) t c r sw1. get (fst sw) = Some t \<Longrightarrow> select_ready (sd_clock (snd sw)) t c
      \<Longrightarrow> round_of put check c t sw = (r, sw1)
      \<Longrightarrow> runs sd_clock I T waiting sw (case r of Inl u \<Rightarrow> waiting | Inr e \<Rightarrow> ended e) sw1"
    and set: "\<And>st. settle_inv I T st \<Longrightarrow> st_phase st = waiting
      \<Longrightarrow> \<exists>t d. get (st_sess st) = Some t \<and> waitTimer t = Some d"
    and run: "timer_loop get put check hs sw = (e, sw1)"
  shows "runs sd_clock I T waiting sw (ended e) sw1"
  using run
proof (induction hs arbitrary: sw)
  case Nil
  show ?case
  proof (cases "in_phase sd_clock I T waiting sw")
    case False
    then show ?thesis by (auto simp: runs_def in_phase_def)
  next
    case True
    then obtain t d where t: "get (fst sw) = Some t" "waitTimer t = Some d"
      using set settle_reachable_inv by (fastforce simp: in_phase_def)
    let ?sw = "(fst sw, out_of_time t (snd sw))"
    have clock: "sd_clock (snd sw) \<le> sd_clock (snd ?sw)" "select_ready (sd_clock (snd ?sw)) t WaitTimerC"
      using t(2) by (simp_all add: out_of_time_def)
    obtain r sw2 where r: "round_of put check WaitTimerC t ?sw = (r, sw2)" by (rule prod.exhaust)
    then obtain e2 where "r = Inr e2"
      using WaitTimer_round_ends by (fastforce simp: round_of_def split: prod.splits)
    then have "runs sd_clock I T waiting ?sw (ended e) sw1"
      using round [OF _ clock(2) r] Nil r t(1) by simp
    then show ?thesis using runs_trans [OF clock_runs] clock(1) by fastforce
  qed
next
  case (Cons h hs)
  have go: ?case if "timer_loop get put check hs (happens h sw) = (e, sw1)"
    by (rule runs_trans [OF happens_runs Cons.IH [OF that]])
  show ?case
  proof (cases "\<exists>n t. h = Wakes n \<and> get (fst sw) = Some t")
    case False
    then show ?thesis using Cons.prems go by (auto split: happening.splits option.splits)
  next
    case True
    then obtain n t where h: "h = Wakes n" "get (fst sw) = Some t" by blast
    show ?thesis
    proof (cases "ready_cases (sd_clock (snd sw)) t")
      case Nil
      then show ?thesis using Cons.prems Cons.IH h by simp
    next
      case ready: (Cons c cs)
      obtain r sw2 where r: "round_of put check ((c # cs) ! (n mod Suc (length cs))) t sw = (r, sw2)"
        by (rule prod.exhaust)
      from round [OF h(2) ready_cases_nth [OF ready] r] Cons.prems Cons.IH [of sw2] show ?thesis
        using h ready r by (cases r) (auto intro: runs_trans)
    qed
  qed
qed

lemma net_loop_runs:
  "timer_loop ses_netActivityTimer put_net (\<lambda>s. False) hs sw = (e, sw1) \<Longrightarrow>
     runs sd_clock I T NetWaiting sw (NetReturned e) sw1"
  by (rule timer_loop_runs [where ended = NetReturned]) (auto intro: net_round_runs simp: settle_inv_def net_ok_def)

lemma responses_loop_runs:
  "timer_loop ses_timer put_timer all_resolved hs sw = (e, sw1) \<Longrightarrow>
     runs sd_clock I T RequestsWaiting sw (Settled e) sw1"
  by (rule timer_loop_runs [where ended = Settled])
    (auto intro: timer_round_runs simp: settle_inv_def timer_ok_def ct_inv_def as_ct_def)

text \<open>The whole waits.\<close>

lemma wait_network_runs: "runs sd_clock I T Loading sw Loading (wait_network hs sw)"
proof (cases "ses_netActivityTimer (fst sw)")
  case None
  then show ?thesis by (intro runs_stepI) simp
next
  case (Some t)
  obtain u t1 where enter: "WaitForCompletion_enter (sd_clock (snd sw)) False t = (Inl u, t1)"
    by (simp add: WaitForCompletion_enter_def Let_def)
  let ?sw1 = "(put_net (Some t1) (fst sw), snd sw)"
  have entered: "runs sd_clock I T Loading sw NetWaiting ?sw1"
  proof (rule runs_stepI)
    fix st :: settling
    assume st: "st_sess st = fst sw" "st_phase st = Loading" "st_clock st = sd_clock (snd sw)"
    with st_net_wait [of st t u t1] Some enter
    show "\<exists>st1. settle_step st st1 \<and> st_sess st1 = fst ?sw1 \<and> st_phase st1 = NetWaiting \<and> st_clock st1 = sd_clock (snd ?sw1)"
      by (fastforce simp: put_net_def)
  qed
  obtain e sw2 where loop: "timer_loop ses_netActivityTimer put_net (\<lambda>s. False) hs ?sw1 = (e, sw2)"
    by (rule prod.exhaust)
  let ?sw3 = "(put_net (map_option (\<lambda>t. snd (CompletionTimer_Reset t)) (ses_netActivityTimer (fst sw2))) (fst sw2), snd sw2)"
  have reset: "runs sd_clock I T (NetReturned e) sw2 Loading ?sw3"
  proof (rule runs_stepI)
    fix st :: settling and n
    assume st: "st_sess st = fst sw2" "st_phase st = NetReturned e" "st_clock st = sd_clock (snd sw2)"
      "ses_netActivityTimer (fst sw2) = Some n"
    with st_net_reset [of st e n]
    show "\<exists>st1. settle_step st st1 \<and> st_sess st1 = fst ?sw3 \<and> st_phase st1 = Loading \<and> st_clock st1 = sd_clock (snd ?sw3)"
      by (fastforce simp: put_net_def)
  qed
  have "wait_network hs sw = ?sw3"
    using Some enter loop by (simp add: wait_network_def wait_timer_def split: prod.splits)
  with runs_trans [OF entered runs_trans [OF net_loop_runs [OF loop] reset]] show ?thesis by simp
qed

lemma frames_loop_runs:
  "frames_loop hs sw = (e, sw1) \<Longrightarrow> runs sd_clock I T FramesWaiting sw (FramesReturned e) sw1"
proof (induction hs arbitrary: sw)
  case Nil
  let ?sw1 = "(expire (fst sw), snd sw)"
  have "runs sd_clock I T FramesWaiting ?sw1 (FramesReturned (Some ExceededMaxTime)) ?sw1"
  proof (rule runs_stepI)
    fix st :: settling and r
    assume st: "st_sess st = fst ?sw1" "st_phase st = FramesWaiting" "st_clock st = sd_clock (snd ?sw1)"
      "ses_Requests (fst ?sw1) = Some r" "ses_loadCtx (fst ?sw1) \<noteq> None"
    then have "Some ExceededMaxTime \<in> set (WaitGroup_Wait_select (load_done (st_sess st)) (rr_done r))"
      by (auto simp: WaitGroup_Wait_select_def load_done_def expire_def)
    from st_frames_select [OF st(2) _ this] st
    show "\<exists>st1. settle_step st st1 \<and> st_sess st1 = fst ?sw1 \<and> st_phase st1 = FramesReturned (Some ExceededMaxTime)
        \<and> st_clock st1 = sd_clock (snd ?sw1)"
      by (intro exI [of _ "st\<lparr>st_phase := FramesReturned (Some ExceededMaxTime)\<rparr>"]) simp
  qed
  from runs_trans [OF expire_runs this] Nil show ?case by simp
next
  case (Cons h hs)
  have go: ?case if "frames_loop hs (happens h sw) = (e, sw1)"
    by (rule runs_trans [OF happens_runs Cons.IH [OF that]])
  show ?case
  proof (cases "\<exists>n. h = Wakes n")
    case False
    then show ?thesis using Cons.prems go by (auto split: happening.splits)
  next
    case True
    then obtain n where h: "h = Wakes n" by blast
    show ?thesis
    proof (cases "ready_results (fst sw)")
      case Nil
      then show ?thesis using Cons h by simp
    next
      case ready: (Cons c cs)
      have e: "e = (c # cs) ! (n mod Suc (length cs))" "sw1 = sw" using Cons.prems h ready by simp_all
      have "(c # cs) ! (n mod Suc (length cs)) \<in> set (c # cs)" by (rule nth_mem) simp
      then have "e \<in> set (ready_results (fst sw))" by (simp add: ready e(1))
      then obtain r where r: "ses_Requests (fst sw) = Some r"
        "e \<in> set (WaitGroup_Wait_select (load_done (fst sw)) (rr_done r))"
        by (cases "ses_Requests (fst sw)") (auto simp: ready_results_def)
      show ?thesis
      proof (rule runs_stepI)
        fix st :: settling
        assume st: "st_sess st = fst sw" "st_phase st = FramesWaiting" "st_clock st = sd_clock (snd sw)"
        from st_frames_select [OF st(2), of r e] r st e(2)
        show "\<exists>st1. settle_step st st1 \<and> st_sess st1 = fst sw1 \<and> st_phase st1 = FramesReturned e
            \<and> st_clock st1 = sd_clock (snd sw1)"
          by (intro exI [of _ "st\<lparr>st_phase := FramesReturned e\<rparr>"]) simp
      qed
    qed
  qed
qed

lemma wait_for_frames_runs:
  assumes "wait_for_frames hs sw = (e, sw1)"
  shows "runs sd_clock I T Loading sw (FramesReturned e) sw1"
proof (cases "ses_Requests (fst sw)")
  case None
  then show ?thesis by (intro runs_stepI) simp
next
  case (Some r)
  obtain res wg where wg: "WaitGroup_Wait_enter (rr_done r) = (res, wg)" by (rule prod.exhaust)
  let ?sw1 = "((fst sw)\<lparr>ses_Requests := Some (r\<lparr>rr_done := wg\<rparr>)\<rparr>, snd sw)"
  have enter: "runs sd_clock I T Loading sw (case res of Returned e \<Rightarrow> FramesReturned e | Selecting \<Rightarrow> FramesWaiting) ?sw1"
  proof (rule runs_stepI)
    fix st :: settling
    assume st: "st_sess st = fst sw" "st_phase st = Loading" "st_clock st = sd_clock (snd sw)"
    with st_frames [of st r res wg] Some wg
    show "\<exists>st1. settle_step st st1 \<and> st_sess st1 = fst ?sw1
        \<and> st_phase st1 = (case res of Returned e \<Rightarrow> FramesReturned e | Selecting \<Rightarrow> FramesWaiting)
        \<and> st_clock st1 = sd_clock (snd ?sw1)"
      by fastforce
  qed
  show ?thesis
  proof (cases res)
    case (Returned e1)
    then show ?thesis using enter assms Some wg by (simp add: wait_for_frames_def)
  next
    case Selecting
    then have "frames_loop hs ?sw1 = (e, sw1)" using assms Some wg by (simp add: wait_for_frames_def)
    from runs_trans [OF _ frames_loop_runs [OF this]] enter Selecting show ?thesis by simp
  qed
qed

lemma wait_for_responses_runs:
  assumes "wait_timer ses_timer put_timer all_resolved hs sw = (x, sw1)"
    and "frames_result uri e (fst sw) = Done ()"
  shows "runs sd_clock I T (FramesReturned e) sw (Settled x) sw1"
proof (cases "ses_timer (fst sw)")
  case None
  then show ?thesis by (intro runs_stepI) simp
next
  case (Some t)
  obtain res t1 where enter: "WaitForCompletion_enter (sd_clock (snd sw)) (all_resolved (fst sw)) t = (res, t1)"
    by (rule prod.exhaust)
  let ?sw1 = "(put_timer (Some t1) (fst sw), snd sw)"
  have entered: "runs sd_clock I T (FramesReturned e) sw (case res of Inl u \<Rightarrow> RequestsWaiting | Inr x \<Rightarrow> Settled x) ?sw1"
  proof (rule runs_stepI)
    fix st :: settling
    assume st: "st_sess st = fst sw" "st_phase st = FramesReturned e" "st_clock st = sd_clock (snd sw)"
    with st_requests [of st e uri t res t1] Some enter assms(2)
    show "\<exists>st1. settle_step st st1 \<and> st_sess st1 = fst ?sw1
        \<and> st_phase st1 = (case res of Inl u \<Rightarrow> RequestsWaiting | Inr x \<Rightarrow> Settled x) \<and> st_clock st1 = sd_clock (snd ?sw1)"
      by (fastforce simp: put_timer_def)
  qed
  show ?thesis
  proof (cases res)
    case (Inr e1)
    then show ?thesis using entered assms(1) Some enter by (simp add: wait_timer_def)
  next
    case (Inl u)
    then have "timer_loop ses_timer put_timer all_resolved hs ?sw1 = (x, sw1)"
      using assms(1) Some enter by (simp add: wait_timer_def)
    from runs_trans [OF _ responses_loop_runs [OF this]] entered Inl show ?thesis by simp
  qed
qed

section \<open>Fetch against a schedule\<close>

lemma next_call_fst [simp]: "fst (next_call sw) = fst sw"
  by (simp add: next_call_def)

lemma from_next_call:
  "runs sd_clock I T ph (next_call sw) ph1 sw1 \<Longrightarrow> runs sd_clock I T ph sw ph1 sw1"
  by (rule runs_trans [of _ _ _ _ _ _ "next_call sw"]) (simp_all add: next_call_def)

lemma navigate_runs:
  "runs sd_clock I T ph sw ph (snd (answered sch f (fst sw, (snd sw)\<lparr>sd_start := x\<rparr>)))"
  by (rule runs_trans [OF _ answered_runs]) simp

interpretation scheduled: fetch_waits "scheduled_env sch env" sd_clock I T
  for sch :: "nat \<Rightarrow> happening list" and env :: "'v fetch_env" and I T :: int
proof
  fix sw :: "session \<times> 'v scheduled" and d c u f g a eci p
  let ?env = "scheduled_env sch env"
  show "ses_ctx (fst (snd (fe_GetVersion ?env sw))) = ses_ctx (fst sw)"
    by (simp add: scheduled_env_def asked_def split: prod.splits)
  show "runs sd_clock I T Loading sw Loading (snd (fe_InitBrowser ?env d c sw))"
    using answered_runs [of I T Loading sw sch] by (simp add: scheduled_env_def)
  show "runs sd_clock I T Loading sw Loading (snd (fe_Navigate ?env u sw))"
    using navigate_runs [of I T Loading sw sch] by (simp add: scheduled_env_def)
  show "runs sd_clock I T Loading sw Loading (snd (br_GetFrameTree (fe_browser ?env) sw))"
    using answered_runs [of I T Loading sw sch] by (simp add: scheduled_env_def scheduled_browser_def)
  show "runs sd_clock I T Loading sw Loading (snd (br_CreateIsolatedWorld (fe_browser ?env) f sw))"
    using answered_runs [of I T Loading sw sch] by (simp add: scheduled_env_def scheduled_browser_def)
  show "runs sd_clock I T Loading sw Loading (snd (br_CallFunctionOn (fe_browser ?env) g a eci p sw))"
    using answered_runs [of I T Loading sw sch] by (simp add: scheduled_env_def scheduled_browser_def)
  show "runs sd_clock I T Loading sw Loading (fe_WaitNetwork ?env sw)"
    using from_next_call [OF wait_network_runs] by (simp add: scheduled_env_def)
next
  fix sw sw1 :: "session \<times> 'v scheduled" and e
  assume "fe_WaitFrames (scheduled_env sch env) sw = (e, sw1)"
  then show "runs sd_clock I T Loading sw (FramesReturned e) sw1"
    by (intro from_next_call [OF wait_for_frames_runs]) (simp add: scheduled_env_def)
next
  fix sw sw1 :: "session \<times> 'v scheduled" and x uri e
  assume "fe_WaitRequests (scheduled_env sch env) sw = (x, sw1)" and "frames_result uri e (fst sw) = Done ()"
  then show "runs sd_clock I T (FramesReturned e) sw (Settled x) sw1"
    by (intro from_next_call [OF wait_for_responses_runs]) (simp_all add: scheduled_env_def)
qed


section \<open>An example\<close>

text \<open>
  The page sends one request while it is navigated to; its crawl log is there from the beginning,
  but the first wait lasts until its total time is over.
\<close>

definition ex_schedule :: "nat \<Rightarrow> happening list" where
  "ex_schedule n = (if n = 1 then [Updates [page_request]] else [])"

definition ex_scheduled :: "error option list scheduled fetch_env" where
  "ex_scheduled = scheduled_env ex_schedule ok_env"

definition ex_world :: "error option list scheduled" where
  "ex_world = \<lparr>sd_clock = 7, sd_start = 0, sd_calls = 0, sd_world = []\<rparr>"

lemma ex_config:
  "equipped s \<Longrightarrow> fetch_config prefix_regexps plain_urls ex_scheduled ok_phs (s, w)
     = Some (Done ok_browser_config, ok_session s, w)"
  by (auto simp: equipped_def get_scripts_def ex_scheduled_def scheduled_env_def asked_def fetch_config_def
      fbind_def set_sess_def get_crawl_config_def get_config_def
      get_politeness_def get_browser_config_def load_scripts_def loadScripts_def ok_config_def
      GetBrowserConfig_def GetCrawlConfig_def ok_phs_def ok_session_def ok_browser_config_def)

text \<open>The calls one by one.\<close>

definition ex_opened_page :: session where
  "ex_opened_page = (ok_session (newDefaultSession handle_options))\<lparr>ses_ctx := Some False,
     ses_browserVersion := ''1'', ses_loadCtx := Some False,
     ses_Requests := Some (NewRequestRegistry NewWaitGroup),
     ses_netActivityTimer := Some (NewCompletionTimer 1000000000 60000000000),
     ses_timer := Some (NewCompletionTimer 1000000000 60000000000), ses_UserAgent := ''Chrome/1''\<rparr>"

definition ex_sent :: session where
  "ex_sent = ex_opened_page\<lparr>ses_Requests :=
     Some ((NewRequestRegistry NewWaitGroup)\<lparr>rr_requests := [page_request]\<rparr>)\<rparr>"

lemma ex_start:
  "start_browser ex_scheduled ok_browser_config (ok_session (newDefaultSession handle_options), w)
     = Some (Done (), ex_opened_page, w)"
  by (simp add: start_browser_def fbind_def set_sess_def act_def ex_scheduled_def scheduled_env_def asked_def
      ex_opened_page_def ok_browser_config_def max_idle_def max_total_def)

lemma ex_init:
  "init_browser ex_scheduled ok_browser_config (ex_opened_page, ex_world)
     = Some (Done (), ex_opened_page, ex_world\<lparr>sd_calls := 1\<rparr>)"
  by (simp add: init_browser_def ex_scheduled_def scheduled_env_def answered_def asked_def next_call_def
      ex_world_def ex_schedule_def)

lemma ex_navigate:
  "navigate ex_scheduled (ex_opened_page, ex_world\<lparr>sd_calls := 1\<rparr>)
     = Some (Done (), ex_sent, ex_world\<lparr>sd_start := 7, sd_calls := 2\<rparr>)"
  by (simp add: navigate_def navigation_result_def ex_scheduled_def scheduled_env_def answered_def asked_def
      next_call_def ex_world_def ex_schedule_def ex_opened_page_def ok_session_def on_registry_def ex_sent_def)

lemma ex_network:
  "\<exists>t. fe_WaitNetwork ex_scheduled (ex_sent, ex_world\<lparr>sd_start := 7, sd_calls := 2\<rparr>)
     = (put_net t ex_sent, ex_world\<lparr>sd_start := 7, sd_calls := 3, sd_clock := 60000000007\<rparr>)"
  by (simp add: ex_scheduled_def scheduled_env_def next_call_def ex_world_def ex_schedule_def wait_network_def
      wait_timer_def put_net_def ex_sent_def ex_opened_page_def WaitForCompletion_enter_def NewCompletionTimer_def
      NewTimer_def out_of_time_def round_of_def Let_def, rule exI, rule refl)

lemma ex_scripts:
  "ses_scripts s = Some newSessionScripts \<Longrightarrow> script_phases ex_scheduled
     (s, ex_world\<lparr>sd_start := 7, sd_calls := 3, sd_clock := 60000000007\<rparr>)
       = Some (Done (), s, ex_world\<lparr>sd_start := 7, sd_calls := 5, sd_clock := 60000000007\<rparr>)"
  by (simp add: script_phases_def fbind_def run_scripts_def executeScripts_def scripts_Get_def
      newSessionScripts_def getExecutionContextID_def no_world_def ex_scheduled_def scheduled_env_def
      scheduled_browser_def answered_def asked_def next_call_def ex_world_def ex_schedule_def)

definition ex_waited :: request_registry where
  "ex_waited = (NewRequestRegistry (NewWaitGroup\<lparr>wg_state := 1\<rparr>))\<lparr>rr_requests := [page_request]\<rparr>"

lemma ex_frames:
  "wait_frames ex_scheduled u (put_net t ex_sent, ex_world\<lparr>sd_start := 7, sd_calls := 5, sd_clock := 60000000007\<rparr>)
     = Some (Done (), (put_net t ex_sent)\<lparr>ses_Requests := Some ex_waited\<rparr>,
         ex_world\<lparr>sd_start := 7, sd_calls := 6, sd_clock := 60000000007\<rparr>)"
  by (simp add: wait_frames_def frames_result_def ex_scheduled_def scheduled_env_def next_call_def ex_world_def
      ex_schedule_def wait_for_frames_def put_net_def ex_sent_def ex_waited_def NewRequestRegistry_def
      WaitGroup_Wait_enter_def NewWaitGroup_def CompareAndSwapInt32_def)

lemma ex_responses:
  "\<exists>t1. fe_WaitRequests ex_scheduled ((put_net t ex_sent)\<lparr>ses_Requests := Some ex_waited\<rparr>,
       ex_world\<lparr>sd_start := 7, sd_calls := 6, sd_clock := 60000000007\<rparr>)
     = (None, put_timer t1 ((put_net t ex_sent)\<lparr>ses_Requests := Some ex_waited\<rparr>),
         ex_world\<lparr>sd_start := 7, sd_calls := 7, sd_clock := 60000000007\<rparr>)"
  by (simp add: ex_scheduled_def scheduled_env_def next_call_def ex_world_def wait_timer_def put_net_def
      put_timer_def ex_sent_def ex_opened_page_def ex_waited_def NewRequestRegistry_def all_resolved_def MatchCrawlLogs_def
      page_request_def example_request_def WaitForCompletion_enter_def Let_def, rule exI, rule refl)

lemma ex_finalized:
  "\<exists>r. FinalizeResponses example_uri ex_waited = (Ret (), r) \<and> rr_rootRequest r = Some 0
     \<and> (\<exists>q cl. rr_requests r = [q] \<and> rq_CrawlLog q = Some cl)"
  by (simp add: ex_waited_def FinalizeResponses_def finalize_loop_def finalize_one_def finalize_log_def Let_def
      page_request_def example_request_def log_of_def)

lemma ex_answered: "ex_schedule (sd_calls w) = [] \<Longrightarrow> answered ex_schedule f (s, w)
    = (fst (f (s, sd_world w)), s, w\<lparr>sd_world := snd (snd (f (s, sd_world w))), sd_calls := Suc (sd_calls w)\<rparr>)"
  by (simp add: answered_def asked_def next_call_def split: prod.splits)

lemma ex_report:
  assumes "ses_Requests s = Some r" "rr_rootRequest r = Some 0" "rr_requests r = [q]"
    and "rq_CrawlLog q = Some cl" and "ses_scripts s = Some newSessionScripts"
    and "ses_logWriter s \<noteq> None" and "2 \<le> sd_calls w"
  shows "\<exists>res w1. report_phase ex_scheduled u ms (s, w) = Some (Done res, s, w1)"
  using assms
  by (auto simp: report_phase_def fbind_def lift_go_def act_def extractOutlinks_def write_crawl_logs_def
      scripts_Get_def newSessionScripts_def extractCookies_def quiet_env_def report_page_def initial_request_def
      InitialRequest_def write_page_log_def queued_uris_def Let_def ex_scheduled_def scheduled_env_def
      scheduled_page_def ex_answered ex_schedule_def asked_def)

lemma ex_with_browser:
  "\<exists>res sw1. with_browser ex_scheduled ok_browser_config (ok_session (newDefaultSession handle_options), ex_world)
     = Some (Done res, sw1)"
proof -
  obtain r q cl where r: "FinalizeResponses example_uri ex_waited = (Ret (), r)"
      "rr_rootRequest r = Some 0" "rr_requests r = [q]" "rq_CrawlLog q = Some cl"
    using ex_finalized by blast
  obtain t where net: "fe_WaitNetwork ex_scheduled (ex_sent, ex_world\<lparr>sd_start := 7, sd_calls := 2\<rparr>)
      = (put_net t ex_sent, ex_world\<lparr>sd_start := 7, sd_calls := 3, sd_clock := 60000000007\<rparr>)"
    using ex_network by blast
  let ?s = "(put_net t ex_sent)\<lparr>ses_Requests := Some ex_waited\<rparr>"
  let ?w = "\<lambda>n. ex_world\<lparr>sd_start := 7, sd_calls := n, sd_clock := 60000000007\<rparr>"
  have scr: "script_phases ex_scheduled (put_net t ex_sent, ?w 3) = Some (Done (), put_net t ex_sent, ?w 5)"
    using ex_scripts [of "put_net t ex_sent"] by (simp add: put_net_def ex_sent_def ex_opened_page_def ok_session_def)
  obtain t1 where req: "fe_WaitRequests ex_scheduled (?s, ?w 6) = (None, put_timer t1 ?s, ?w 7)"
    using ex_responses by blast
  let ?s1 = "(put_timer t1 ?s)\<lparr>ses_Requests := Some r\<rparr>"
  have fin: "finalize example_uri (put_timer t1 ?s, ?w 7) = Some (Done (), ?s1, ?w 7)"
    using r by (simp add: finalize_def put_timer_def)
  have s1: "ses_Requests ?s1 = Some r" "ses_scripts ?s1 = Some newSessionScripts" "ses_logWriter ?s1 \<noteq> None"
    "ses_CrawlConfig ?s1 = GetCrawlConfig (phs_CrawlConfig ok_phs)"
    by (simp_all add: put_timer_def put_net_def ex_sent_def ex_opened_page_def ok_session_def)
  have shot: "screenshot_phase ex_scheduled (?s1, ?w 7) = Some (Done (), ?s1, ?w 7)"
    using s1(4) by (simp add: screenshot_phase_def wants_screenshot_def ok_phs_def GetCrawlConfig_def)
  obtain res w1 where rep: "report_phase ex_scheduled example_uri ms (?s1, ?w 7) = Some (Done res, ?s1, w1)"
      if "ms = fe_FetchMs ex_scheduled (put_timer t1 ?s, ?w 7)" for ms
    using ex_report [OF s1(1) r(2-4) s1(2,3), of "?w 7"] by fastforce
  have url: "ses_RequestedUrl (put_net t ex_sent) = Some example_uri"
    by (simp add: put_net_def ex_sent_def ex_opened_page_def ok_session_def)
  show ?thesis
    using ex_start [of ex_world] ex_init ex_navigate net scr ex_frames [of _ t] req fin shot rep url
    by (simp add: with_browser_def fbind_def act_def)
qed


end
