(* ===== verification/Fetch_Returns.thy ===== *)
theory Fetch_Returns
  imports Scheduled
begin

text \<open>
  When \<open>Fetch\<close> returns: the only loop of \<^verbatim>\<open>session/session.go\<close>, \<^verbatim>\<open>session/script.go\<close> and
  \<^verbatim>\<open>script/script.go\<close> that may run for ever is that of chained scripts, and it ends when every
  script asks for one of smaller rank.
\<close>

section \<open>Chains of scripts\<close>

text \<open>
  Whatever the page makes the script return, the next script is one of smaller rank, or none.
\<close>

definition chain_ends :: "(string \<Rightarrow> nat) \<Rightarrow> 'w browser \<Rightarrow> config_object \<Rightarrow> bool" where
  "chain_ends rank br c \<longleftrightarrow>
     (\<forall>a eci p w res w1 rv.
        br_CallFunctionOn br (GetScript (GetBrowserScript c)) a eci p w = (Inr (None, Some res), w1)
        \<longrightarrow> unmarshal_return_value res = Some rv \<longrightarrow> rv_Next rv \<noteq> []
        \<longrightarrow> rv_Next rv \<noteq> ''self'' \<and> rank (rv_Next rv) < rank (co_Id c))"

definition all_end :: "(string \<Rightarrow> nat) \<Rightarrow> 'w browser \<Rightarrow> session_scripts option \<Rightarrow> bool" where
  "all_end rank br ss \<longleftrightarrow>
     (case ss of None \<Rightarrow> True | Some s \<Rightarrow> \<forall>t. \<forall>c \<in> set (scr_scripts s t). chain_ends rank br c)"

text \<open>The scripts by their ids.\<close>

definition by_id :: "(string \<Rightarrow> nat) \<Rightarrow> 'w browser \<Rightarrow> (string \<rightharpoonup> config_object) \<Rightarrow> bool" where
  "by_id rank br m \<longleftrightarrow> (\<forall>k c. m k = Some c \<longrightarrow> co_Id c = k \<and> chain_ends rank br c)"

lemma by_id_update: "by_id rank br m \<Longrightarrow> chain_ends rank br c \<Longrightarrow> by_id rank br (m(co_Id c \<mapsto> c))"
  by (simp add: by_id_def)

lemma by_id_fold:
  "by_id rank br m \<Longrightarrow> \<forall>c \<in> set cs. chain_ends rank br c \<Longrightarrow> by_id rank br (fold (\<lambda>s m. m(co_Id s \<mapsto> s)) cs m)"
  by (induction cs arbitrary: m) (auto intro: by_id_update)

lemma execute_script_result:
  assumes "execute_script br resolve c a w = (Inr (Some res), w1)"
  shows "\<exists>eci p w2. br_CallFunctionOn br (GetScript (GetBrowserScript c)) a eci p w2 = (Inr (None, Some res), w1)"
  using assms
  by (auto simp: execute_script_def callScript_def Let_def split: prod.splits sum.splits option.splits)

lemma round_decreases:
  assumes "by_id rank br scripts"
    and "Run_round scripts annots \<lparr>cb_execute = execute_script br resolve, cb_wait = wait\<rparr> key data e
      = (Inr (nxt, data1), e1)" and "nxt \<noteq> []"
  shows "rank nxt < rank key"
proof -
  let ?cb = "\<lparr>cb_execute = execute_script br resolve, cb_wait = wait\<rparr>"
  obtain c a res e2 rv where c: "scripts key = Some c" "cb_execute ?cb c a e = (Inr (Some res), e2)"
    and rv: "unmarshal_return_value res = Some rv" "nxt = (if rv_Next rv = ''self'' then co_Id c else rv_Next rv)"
    using assms(2)
    by (auto simp: Run_round_def marshal_params_def Let_def split: option.splits sum.splits prod.splits if_splits)
  obtain eci p w2 where call: "br_CallFunctionOn br (GetScript (GetBrowserScript c)) a eci p w2
      = (Inr (None, Some res), e2)"
    using execute_script_result [of br resolve c a e res e2] c(2) by auto
  have "co_Id c = key" "chain_ends rank br c" using assms(1) c(1) by (auto simp: by_id_def)
  moreover have "rv_Next rv \<noteq> []" using rv(2) assms(3) by (auto split: if_splits)
  ultimately have "rv_Next rv \<noteq> ''self''" "rank (rv_Next rv) < rank key"
    using call rv(1) unfolding chain_ends_def by blast+
  then show ?thesis using rv(2) by simp
qed

lemma execute_loop_returns:
  assumes "\<forall>c \<in> set cs. chain_ends rank br c" and "by_id rank br scripts"
  shows "\<exists>r. execute_loop \<lparr>cb_execute = execute_script br resolve, cb_wait = wait\<rparr> annots cs scripts w = Some r"
  using assms
proof (induction cs arbitrary: scripts w)
  case Nil
  then show ?case by simp
next
  case (Cons c cs)
  let ?cb = "\<lparr>cb_execute = execute_script br resolve, cb_wait = wait\<rparr>"
  let ?m = "scripts(co_Id c \<mapsto> c)"
  have m: "by_id rank br ?m" using Cons.prems by (simp add: by_id_update)
  have "\<exists>r. Run_loop ?m annots ?cb (co_Id c) Map.empty w = Some r"
    by (rule Run_loop_returns [where rank = "\<lambda>key data e. rank key"]) (rule round_decreases [OF m])
  then obtain q w1 where q: "script_Run (co_Id c) ?m annots ?cb w = Some (q, w1)"
    by (auto simp: script_Run_def)
  show ?case
  proof (cases q)
    case None
    moreover have "\<exists>r. execute_loop ?cb annots cs ?m w1 = Some r"
      by (rule Cons.IH [OF _ m]) (use Cons.prems(1) in simp)
    ultimately show ?thesis using q by (simp add: Let_def)
  next
    case (Some err)
    then show ?thesis using q by (cases "co_Meta c") (simp_all add: Let_def)
  qed
qed

lemma executeScripts_returns:
  assumes "all_end rank br ss"
  shows "\<exists>r. executeScripts br wait ss annots t w = Some r"
proof -
  have "\<exists>r. execute_loop \<lparr>cb_execute = execute_script br resolve, cb_wait = wait\<rparr> annots (scr_scripts s t)
      (fold (\<lambda>s m. m(co_Id s \<mapsto> s)) (scr_scripts s UNDEFINED) Map.empty) w1 = Some r"
    if "ss = Some s" for s resolve w1
  proof (rule execute_loop_returns [where rank = rank])
    have ends: "\<forall>c \<in> set (scr_scripts s t). chain_ends rank br c" for t
      using assms that by (simp add: all_end_def)
    then show "\<forall>c \<in> set (scr_scripts s t). chain_ends rank br c" .
    show "by_id rank br (fold (\<lambda>s m. m(co_Id s \<mapsto> s)) (scr_scripts s UNDEFINED) Map.empty)"
      by (rule by_id_fold) (use ends in \<open>simp_all add: by_id_def\<close>)
  qed
  then show ?thesis
    by (auto simp: executeScripts_def scripts_Get_def Let_def
        split: script_type.splits option.splits go.splits sum.splits prod.splits)
qed

section \<open>Fetch\<close>

text \<open>
  What is asked of the environment: the scripts that are configured end, and nothing but \<open>Fetch\<close>
  itself replaces the scripts of its session.
\<close>

definition scripts_end :: "(string \<Rightarrow> nat) \<Rightarrow> 'w fetch_env \<Rightarrow> bool" where
  "scripts_end rank env \<longleftrightarrow>
     (\<forall>b sw ss sw1. fe_GetScripts env b sw = (Ret (Inr ss), sw1)
        \<longrightarrow> (\<forall>c \<in> set ss. chain_ends rank (fe_browser env) c))"

definition scripts_kept :: "'w fetch_env \<Rightarrow> bool" where
  "scripts_kept env \<longleftrightarrow> (\<forall>sw. let kept = (\<lambda>sw1. ses_scripts (fst sw1) = ses_scripts (fst sw)) in
     kept (snd (fe_GetVersion env sw))
     \<and> (\<forall>d c. kept (snd (fe_InitBrowser env d c sw)))
     \<and> (\<forall>u. kept (snd (fe_Navigate env u sw)))
     \<and> kept (fe_WaitNetwork env sw)
     \<and> kept (snd (br_GetFrameTree (fe_browser env) sw))
     \<and> (\<forall>f. kept (snd (br_CreateIsolatedWorld (fe_browser env) f sw)))
     \<and> (\<forall>f a eci p. kept (snd (br_CallFunctionOn (fe_browser env) f a eci p sw))))"

definition ending :: "(string \<Rightarrow> nat) \<Rightarrow> 'w fetch_env \<Rightarrow> session \<times> 'w \<Rightarrow> bool" where
  "ending rank env sw \<longleftrightarrow> all_end rank (fe_browser env) (ses_scripts (fst sw))"

text \<open>A phase that returns from every state with a property, and what then holds when it is done.\<close>

definition total :: "('s \<Rightarrow> bool) \<Rightarrow> ('a, 's) fetcher \<Rightarrow> ('s \<Rightarrow> bool) \<Rightarrow> bool" where
  "total P m Q \<longleftrightarrow> (\<forall>s. P s \<longrightarrow> (\<exists>out s1. m s = Some (out, s1) \<and> (\<forall>a. out = Done a \<longrightarrow> Q s1)))"

lemma total_fbind:
  assumes "total P m Q" and "\<And>a. total Q (k a) R"
  shows "total P (fbind m k) R"
  unfolding total_def
proof (intro allI impI)
  fix s assume "P s"
  then obtain out s1 where m: "m s = Some (out, s1)" "\<forall>a. out = Done a \<longrightarrow> Q s1"
    using assms(1) unfolding total_def by blast
  show "\<exists>out s1. fbind m k s = Some (out, s1) \<and> (\<forall>a. out = Done a \<longrightarrow> R s1)"
  proof (cases out)
    case (Done a)
    then show ?thesis using m assms(2) [of a] unfolding total_def by (simp add: fbind_def)
  qed (use m in \<open>simp_all add: fbind_def\<close>)
qed

abbreviation anyhow :: "'s \<Rightarrow> bool" where
  "anyhow \<equiv> \<lambda>s. True"

lemma total_simple:
  "total P (lift_go m) anyhow" "total P (act f) anyhow" "total P (set_sess g) anyhow"
  "total P get_crawl_config anyhow" "total P get_browser_config anyhow" "total P (get_config env x ref) anyhow"
  "total P (get_politeness env ref) anyhow" "total P (wait_frames env uri) anyhow" "total P (finalize u) anyhow"
  "total P (screenshot_phase env) anyhow" "total P (\<lambda>sw. Some (h sw, sw)) anyhow"
  by (auto simp: total_def lift_go_def act_def set_sess_def get_crawl_config_def get_browser_config_def
      get_config_def get_politeness_def wait_frames_def finalize_def screenshot_phase_def Let_def
      split: prod.splits go.splits option.splits sum.splits fetched.splits)

lemma total_report: "total P (report_phase env u ms) anyhow"
proof -
  have last: "total anyhow (\<lambda>sw. case r of Inl e \<Rightarrow> Some (Fail e, sw) | Inr res \<Rightarrow> Some (Done res, sw)) anyhow" for r
    by (auto simp: total_def split: sum.splits)
  show ?thesis
    unfolding report_phase_def by (intro total_fbind [OF total_simple(1)] total_fbind [OF total_simple(2)] last)
qed

lemma total_collect: "total P (collect_results env u) anyhow"
  unfolding collect_results_def
  by (intro total_fbind [OF total_simple(11)] total_fbind [OF total_simple(9)] total_fbind [OF total_simple(10)]
      total_report)

lemma total_weaken: "total P m Q \<Longrightarrow> (\<And>s. P' s \<Longrightarrow> P s) \<Longrightarrow> (\<And>s. Q s \<Longrightarrow> Q' s) \<Longrightarrow> total P' m Q'"
  unfolding total_def by blast

lemma loadScripts_subset:
  "loadScripts gs rx lib u w = (Ret (Inr ss), w1) \<Longrightarrow>
     \<exists>ss0. gs w = (Ret (Inr ss0), w1) \<and> (\<forall>t. set (scr_scripts ss t) \<subseteq> set ss0)"
  by (auto simp: loadScripts_def sort_scripts_eq newSessionScripts_def
      split: prod.splits go.splits sum.splits option.splits if_splits)

lemma load_scripts_total:
  assumes "scripts_end rank env"
  shows "total P (load_scripts rx lib env b) (ending rank env)"
  unfolding total_def
proof (intro allI impI)
  fix sw :: "session \<times> 'a"
  obtain r sw1 where r: "loadScripts (get_scripts env b) rx lib (ses_RequestedUrl (fst sw)) sw = (r, sw1)"
    by (rule prod.exhaust)
  have "all_end rank (fe_browser env) (Some ss)" if res: "r = Ret (Inr ss)" for ss
  proof -
    obtain ss0 where ss0: "get_scripts env b sw = (Ret (Inr ss0), sw1)" "\<forall>t. set (scr_scripts ss t) \<subseteq> set ss0"
      using loadScripts_subset [OF r [unfolded res]] by (elim exE conjE)
    then have "fe_GetScripts env b sw = (Ret (Inr ss0), sw1)"
      by (auto simp: get_scripts_def split: option.splits)
    then have "\<forall>c \<in> set ss0. chain_ends rank (fe_browser env) c" using assms unfolding scripts_end_def by blast
    with ss0(2) show ?thesis by (auto simp: all_end_def)
  qed
  then show "\<exists>out s1. load_scripts rx lib env b sw = Some (out, s1) \<and> (\<forall>a. out = Done a \<longrightarrow> ending rank env s1)"
    using r by (auto simp: load_scripts_def set_sess_def ending_def split: go.splits sum.splits)
qed

lemma fetch_config_total:
  assumes "scripts_end rank env"
  shows "total P (fetch_config rx lib env phs) (ending rank env)"
proof -
  have last: "total (ending rank env) (\<lambda>sw. Some (Done b, sw)) (ending rank env)" for b :: browser_config
    by (simp add: total_def)
  show ?thesis
    unfolding fetch_config_def
    by (intro total_fbind [OF total_simple(3)] total_fbind [OF total_simple(4)] total_fbind [OF total_simple(5)]
        total_fbind [OF total_simple(6)] total_fbind [OF total_simple(7)]
        total_fbind [OF load_scripts_total [OF assms]] last)
qed

lemma scripts_keptD:
  assumes "scripts_kept env" and "ending rank env sw"
  shows "ending rank env (snd (fe_GetVersion env sw))" "ending rank env (snd (fe_InitBrowser env d c sw))"
    "ending rank env (snd (fe_Navigate env u sw))" "ending rank env (fe_WaitNetwork env sw)"
    "ending rank env (snd (br_GetFrameTree (fe_browser env) sw))"
    "ending rank env (snd (br_CreateIsolatedWorld (fe_browser env) f sw))"
    "ending rank env (snd (br_CallFunctionOn (fe_browser env) f a eci p sw))"
proof -
  note k = assms(1) [unfolded scripts_kept_def Let_def, THEN spec, of sw]
  have "ending rank env sw1" if "ses_scripts (fst sw1) = ses_scripts (fst sw)" for sw1
    using assms(2) that by (simp add: ending_def)
  then show "ending rank env (snd (fe_GetVersion env sw))" "ending rank env (snd (fe_InitBrowser env d c sw))"
    "ending rank env (snd (fe_Navigate env u sw))" "ending rank env (fe_WaitNetwork env sw)"
    "ending rank env (snd (br_GetFrameTree (fe_browser env) sw))"
    "ending rank env (snd (br_CreateIsolatedWorld (fe_browser env) f sw))"
    "ending rank env (snd (br_CallFunctionOn (fe_browser env) f a eci p sw))"
    using k by blast+
qed

lemma total_act: "(\<And>sw. P sw \<Longrightarrow> Q (snd (f sw))) \<Longrightarrow> total P (act f) Q"
  by (auto simp: total_def act_def split: prod.splits) (metis snd_conv)

lemma total_set: "(\<And>sw. P sw \<Longrightarrow> Q (g (fst sw), snd sw)) \<Longrightarrow> total P (set_sess g) Q"
  by (auto simp: total_def set_sess_def)

lemma start_browser_total:
  assumes "scripts_kept env"
  shows "total (ending rank env) (start_browser env b) (ending rank env)"
  unfolding start_browser_def
proof (intro total_fbind [of _ _ "ending rank env"])
  show "total (ending rank env) (set_sess (\<lambda>s. s\<lparr>ses_ctx := Some False\<rparr>)) (ending rank env)"
    by (rule total_set) (simp add: ending_def)
  show "total (ending rank env) (act (fe_GetVersion env)) (ending rank env)"
    by (rule total_act) (rule scripts_keptD [OF assms])
  fix v :: "error + string \<times> string"
  show "total (ending rank env) (case v of
        Inl err \<Rightarrow> (\<lambda>sw. Some (Fail (Wrapped ''failed to start browser: '' (Some err)), sw))
      | Inr (version, userAgent) \<Rightarrow>
          set_sess (\<lambda>s. s\<lparr>ses_browserVersion := version, ses_loadCtx := Some False,
             ses_Requests := Some (NewRequestRegistry NewWaitGroup),
             ses_netActivityTimer := Some (NewCompletionTimer 1000000000 (max_total b)),
             ses_timer := Some (NewCompletionTimer (max_idle b) (max_total b)),
             ses_UserAgent := (if bc_UserAgent b = [] then ReplaceAll ''HeadlessChrome'' ''Chrome'' userAgent
                               else bc_UserAgent b)\<rparr>)) (ending rank env)"
    by (auto simp: total_def set_sess_def ending_def split: sum.splits prod.splits)
qed

lemma init_navigate_total:
  assumes "scripts_kept env"
  shows "total (ending rank env) (init_browser env b) (ending rank env)"
    "total (ending rank env) (navigate env) (ending rank env)"
    "total (ending rank env) (act (\<lambda>sw. ((), fe_WaitNetwork env sw))) (ending rank env)"
proof -
  note k = scripts_keptD [OF assms, of rank]
  show "total (ending rank env) (init_browser env b) (ending rank env)"
    by (auto simp: total_def init_browser_def Let_def split: prod.splits option.splits) (metis k(2) snd_conv)
  show "total (ending rank env) (navigate env) (ending rank env)"
    by (auto simp: total_def navigate_def Let_def split: prod.splits option.splits) (metis k(3) snd_conv)
  show "total (ending rank env) (act (\<lambda>sw. ((), fe_WaitNetwork env sw))) (ending rank env)"
    by (rule total_act) (simp add: k(4))
qed

lemma run_scripts_total:
  assumes "scripts_kept env"
  shows "total (ending rank env) (run_scripts env t) (ending rank env)"
  unfolding total_def
proof (intro allI impI)
  fix sw assume sw: "ending rank env sw"
  let ?run = "executeScripts (fe_browser env) (fe_WaitNetwork env) (ses_scripts (fst sw)) (annotations (fst sw)) t sw"
  obtain r sw1 where r: "?run = Some (r, sw1)"
    using executeScripts_returns [of rank "fe_browser env" "ses_scripts (fst sw)"] sw
    unfolding ending_def by (metis surj_pair)
  have "browser_keeps (ending rank env) (fe_browser env)"
    using scripts_keptD [OF assms] by (simp add: browser_keeps_def)
  from executeScripts_keeps [OF this _ sw r] have "ending rank env sw1"
    using scripts_keptD(4) [OF assms] by blast
  then show "\<exists>out s1. run_scripts env t sw = Some (out, s1) \<and> (\<forall>a. out = Done a \<longrightarrow> ending rank env s1)"
    using r by (cases r) (simp_all add: run_scripts_def)
qed

lemma script_phases_total:
  assumes "scripts_kept env"
  shows "total (ending rank env) (script_phases env) anyhow"
  unfolding script_phases_def
proof (rule total_fbind [OF run_scripts_total [OF assms]])
  fix e :: "error option"
  have "total (ending rank env) (fbind (run_scripts env ON_LOAD) (\<lambda>e1 sw. Some (Done (), sw))) anyhow"
    by (rule total_fbind [OF run_scripts_total [OF assms]]) (simp add: total_def)
  then show "total (ending rank env) (case e of
        Some err \<Rightarrow> (\<lambda>sw. Some (Fail (Wrapped ''failed executing scripts in ON_NEW_DOCUMENT phase: ''
                                 (Some err)), sw))
      | None \<Rightarrow> fbind (run_scripts env ON_LOAD) (\<lambda>e1 sw. Some (Done (), sw))) anyhow"
    by (cases e) (simp_all add: total_def)
qed

lemma with_browser_total:
  assumes "scripts_kept env"
  shows "total (ending rank env) (with_browser env b) anyhow"
proof -
  have "total anyhow (fbind (wait_frames env (qu_Uri u)) (\<lambda>_. fbind (act (fe_WaitRequests env))
      (\<lambda>_. collect_results env u))) anyhow" for u
    by (intro total_fbind [OF total_simple(8)] total_fbind [OF total_simple(2)] total_collect)
  then have "total anyhow (\<lambda>sw. case ses_RequestedUrl (fst sw) of
        None \<Rightarrow> Some (Crash NilDereference, sw)
      | Some u \<Rightarrow> fbind (wait_frames env (qu_Uri u)) (\<lambda>_. fbind (act (fe_WaitRequests env))
          (\<lambda>_. collect_results env u)) sw) anyhow"
    by (simp add: total_def split: option.splits)
  then show ?thesis
    unfolding with_browser_def collect_results_def
    by (intro total_fbind [OF start_browser_total [OF assms]] total_fbind [OF init_navigate_total(1) [OF assms]]
        total_fbind [OF init_navigate_total(2) [OF assms]] total_fbind [OF init_navigate_total(3) [OF assms]]
        total_fbind [OF script_phases_total [OF assms]])
qed

lemma Fetch_total:
  assumes "scripts_end rank env" and "scripts_kept env"
  shows "\<exists>out sw1. Fetch rx lib panic_text env phs sw = Some (out, sw1)"
proof -
  obtain out sw1 where config: "fetch_config rx lib env phs sw = Some (out, sw1)"
    "\<forall>b. out = Done b \<longrightarrow> ending rank env sw1"
    using fetch_config_total [OF assms(1), of anyhow] unfolding total_def by blast
  have "\<exists>out2 sw2. with_browser env b sw1 = Some (out2, sw2)" if "out = Done b" for b
    using with_browser_total [OF assms(2), of rank b] config(2) that unfolding total_def by blast
  then have "\<exists>r. fetch_body rx lib env phs sw = Some r"
    using config(1) by (cases out) (fastforce simp: fetch_body_def split: prod.splits)+
  then show ?thesis by (auto simp: Fetch_def)
qed

section \<open>Fetch against a schedule\<close>

text \<open>Nothing that happens meanwhile and no wait replaces the scripts.\<close>

lemma Session_Notify_scripts [simp]: "ses_scripts (snd (Session_Notify now i s)) = ses_scripts s"
  by (auto simp: Session_Notify_def Let_def split: option.splits bool.splits prod.splits go.splits)

lemma AbortFetch_scripts [simp]: "ses_scripts (snd (AbortFetch s)) = ses_scripts s"
  by (auto simp: AbortFetch_def Let_def split: option.splits prod.splits)

lemma happens_scripts [simp]: "ses_scripts (fst (happens h sw)) = ses_scripts (fst sw)"
  by (cases sw; cases h) (auto simp: on_registry_def expire_def split: option.splits)

lemma all_happen_scripts [simp]: "ses_scripts (fst (all_happen hs sw)) = ses_scripts (fst sw)"
  by (induction hs arbitrary: sw) (simp_all del: split_paired_All)

lemma asked_session [simp]: "fst (snd (asked f sw)) = fst sw"
  by (simp add: asked_def split: prod.splits)

lemma answered_scripts [simp]: "ses_scripts (fst (snd (answered sch f sw))) = ses_scripts (fst sw)"
  using asked_session [of f sw] by (cases "asked f sw") (simp add: answered_def)

lemma timer_loop_scripts:
  assumes "\<And>t s. ses_scripts (put t s) = ses_scripts s"
  shows "ses_scripts (fst (snd (timer_loop get put check hs sw))) = ses_scripts (fst sw)"
proof -
  have round: "round_of put check c t sw = (r, sw1) \<Longrightarrow> ses_scripts (fst sw1) = ses_scripts (fst sw)" for c t r sw sw1
    using assms by (auto simp: round_of_def split: prod.splits)
  show ?thesis
  proof (induction hs arbitrary: sw)
    case Nil
    then show ?case by (auto split: option.splits prod.splits sum.splits dest: round)
  next
    case (Cons h hs)
    show ?case
      using Cons happens_scripts [of h sw]
      by (auto split: happening.splits option.splits list.splits prod.splits sum.splits dest!: round
          simp del: happens_scripts)
  qed
qed

lemma frames_loop_scripts: "ses_scripts (fst (snd (frames_loop hs sw))) = ses_scripts (fst sw)"
proof (induction hs arbitrary: sw)
  case (Cons h hs)
  show ?case
    using Cons happens_scripts [of h sw]
    by (auto split: happening.splits list.splits simp del: happens_scripts)
qed (simp add: expire_def)

lemma waits_scripts [simp]:
  "ses_scripts (fst (wait_network hs sw)) = ses_scripts (fst sw)"
  "ses_scripts (fst (snd (wait_for_frames hs sw))) = ses_scripts (fst sw)"
proof -
  have put: "\<And>t s. ses_scripts (put_net t s) = ses_scripts s" by (simp add: put_net_def)
  have "ses_scripts (fst (snd (wait_timer ses_netActivityTimer put_net (\<lambda>s. False) hs sw))) = ses_scripts (fst sw)"
    by (auto simp: wait_timer_def put timer_loop_scripts [OF put] split: option.splits prod.splits sum.splits)
  then show "ses_scripts (fst (wait_network hs sw)) = ses_scripts (fst sw)"
    by (auto simp: wait_network_def put split: prod.splits)
  show "ses_scripts (fst (snd (wait_for_frames hs sw))) = ses_scripts (fst sw)"
    by (auto simp: wait_for_frames_def frames_loop_scripts Let_def split: option.splits prod.splits wait_result.splits)
qed

lemma scheduled_kept: "scripts_kept (scheduled_env sch env)"
  by (simp add: scripts_kept_def scheduled_env_def scheduled_browser_def)

text \<open>The chains of the scripts are those of the answers.\<close>

lemma asked_answer: "asked f sw = (a, sw1) \<Longrightarrow> \<exists>x. f (fst sw, sd_world (snd sw)) = (a, x)"
  by (auto simp: asked_def split: prod.splits)

lemma answered_answer: "answered sch f sw = (a, sw1) \<Longrightarrow> \<exists>x. f (fst sw, sd_world (snd sw)) = (a, x)"
  by (auto simp: answered_def split: prod.splits dest: asked_answer)

lemma scheduled_chain:
  assumes "chain_ends rank (fe_browser env) c"
  shows "chain_ends rank (fe_browser (scheduled_env sch env)) c"
  unfolding chain_ends_def
proof (intro allI impI)
  fix a eci p sw res sw1 rv
  assume "br_CallFunctionOn (fe_browser (scheduled_env sch env)) (GetScript (GetBrowserScript c)) a eci p sw
      = (Inr (None, Some res), sw1)"
    and rv: "unmarshal_return_value res = Some rv" "rv_Next rv \<noteq> []"
  then have "answered sch (br_CallFunctionOn (fe_browser env) (GetScript (GetBrowserScript c)) a eci p) sw
      = (Inr (None, Some res), sw1)"
    by (simp add: scheduled_env_def scheduled_browser_def)
  from answered_answer [OF this] assms rv
  show "rv_Next rv \<noteq> ''self'' \<and> rank (rv_Next rv) < rank (co_Id c)"
    unfolding chain_ends_def by blast
qed

lemma scheduled_ends:
  assumes "scripts_end rank env"
  shows "scripts_end rank (scheduled_env sch env)"
  unfolding scripts_end_def
proof (intro allI impI ballI)
  fix b sw ss sw1 c
  assume "fe_GetScripts (scheduled_env sch env) b sw = (Ret (Inr ss), sw1)" and "c \<in> set ss"
  moreover from this(1) have "\<exists>x. fe_GetScripts env b (fst sw, sd_world (snd sw)) = (Ret (Inr ss), x)"
    by (intro asked_answer) (simp add: scheduled_env_def)
  ultimately show "chain_ends rank (fe_browser (scheduled_env sch env)) c"
    using assms scheduled_chain unfolding scripts_end_def by blast
qed

text \<open>
  C22 (termination). A fetch returns, whatever the browser, the frontier and the proxies do and
  answer while it runs, when the chains of the configured scripts end: each script asks,
  whatever it is called with, for a script of smaller rank or for none.
\<close>

theorem Fetch_returns:
  assumes "scripts_end rank env"
  shows "\<exists>out sw1. Fetch rx lib panic_text (scheduled_env sch env) phs sw = Some (out, sw1)"
  by (rule Fetch_total [OF scheduled_ends [OF assms] scheduled_kept])

section \<open>An example\<close>

text \<open>A script that asks for a second one, which asks for none.\<close>

definition chain_browser :: "(session \<times> error option list) browser" where
  "chain_browser = no_world\<lparr>br_CallFunctionOn := (\<lambda>f a eci p sw.
     (Inr (None, if f = ''start'' then Some (next_value ''2'') else None), sw))\<rparr>"

definition chained_script :: "string \<Rightarrow> script_type \<Rightarrow> string \<Rightarrow> config_object" where
  "chained_script i t body = \<lparr>co_Id = i, co_Meta = None,
     co_Spec = BrowserScriptSpec \<lparr>bs_Type = t, bs_Script = body, bs_UrlRegexp = []\<rparr>\<rparr>"

definition chain_env :: "error option list fetch_env" where
  "chain_env = ok_env\<lparr>fe_browser := chain_browser, fe_GetScripts := (\<lambda>b sw.
     (Ret (Inr [chained_script ''1'' ON_LOAD ''start'', chained_script ''2'' UNDEFINED ''stop'']), sw))\<rparr>"

lemma chain_env_ends: "scripts_end (\<lambda>i. if i = ''1'' then 1 else 0) chain_env"
  by (simp add: scripts_end_def chain_env_def chain_ends_def chain_browser_def chained_script_def
      GetScript_def GetBrowserScript_def json_eval)

theorem Fetch_returns_witness:
  "\<exists>out sw1. Fetch prefix_regexps plain_urls (\<lambda>_. []) (scheduled_env ex_schedule chain_env) ok_phs
     (newDefaultSession handle_options, ex_world) = Some (out, sw1)"
  by (rule Fetch_returns [OF chain_env_ends])

end
