(* ===== verification/Stored_Config.thy ===== *)
theory Stored_Config
  imports Scheduled Database
begin

text \<open>
  \<open>Fetch\<close> with the configuration cache of \<^verbatim>\<open>database/\<close> behind the handle of its session: what it
  loads before it opens the page is what the database has.
\<close>

section \<open>The cache of a session\<close>

text \<open>The world of the fetch holds the cache and the state \<open>'d\<close> of everything else.\<close>

definition through_cache ::
  "(cache \<Rightarrow> 'd \<Rightarrow> 'a \<times> cache \<times> 'd) \<Rightarrow> session \<times> cache \<times> 'd \<Rightarrow> 'a \<times> session \<times> cache \<times> 'd" where
  "through_cache op sw = (case sw of (s, c, d) \<Rightarrow> (let (a, c1, d1) = op c d in (a, s, c1, d1)))"

definition with_cache :: "'d db_adapter \<Rightarrow> (cache \<times> 'd) fetch_env \<Rightarrow> (cache \<times> 'd) fetch_env" where
  "with_cache db env = env
     \<lparr>fe_GetConfigObject := (\<lambda>ref. through_cache (GetConfigObject db ref)),
      fe_GetScripts := (\<lambda>b. through_cache (GetScripts db b))\<rparr>"

lemma with_cache_simps [simp]:
  "fe_GetConfigObject (with_cache db env) ref (s, c, d)
     = (let (a, c1, d1) = GetConfigObject db ref c d in (a, s, c1, d1))"
  "fe_GetScripts (with_cache db env) b (s, c, d)
     = (let (a, c1, d1) = GetScripts db b c d in (a, s, c1, d1))"
  by (simp_all add: with_cache_def through_cache_def)

section \<open>What is loaded\<close>

text \<open>
  A crawl config whose references are ids of the database, and the browser config \<open>b\<close> behind it,
  whose references are ids and whose selectors are of the form key:value.
\<close>

definition well_configured ::
  "(string \<Rightarrow> config_object) \<Rightarrow> page_harvest_spec \<Rightarrow> config_ref \<Rightarrow> config_ref \<Rightarrow> browser_config \<Rightarrow> bool" where
  "well_configured f phs rb rp b \<longleftrightarrow>
     (\<exists>cc. GetCrawlConfig (phs_CrawlConfig phs) = Some cc
        \<and> cc_BrowserConfigRef cc = Some rb \<and> cc_PolitenessRef cc = Some rp)
     \<and> colon_free (ref_Id rb) \<and> colon_free (ref_Id rp)
     \<and> GetBrowserConfig (f (ref_Id rb)) = Some b
     \<and> (\<forall>r \<in> set (bc_ScriptRef b). colon_free (ref_Id r))
     \<and> (\<forall>s \<in> set (bc_ScriptSelector b). \<not> colon_free s)"

text \<open>The scripts of a browser config, the referenced ones before the selected ones.\<close>

definition stored_scripts ::
  "(string \<Rightarrow> config_object) \<Rightarrow> (string \<Rightarrow> string \<Rightarrow> config_object list) \<Rightarrow> browser_config \<Rightarrow>
     config_object list" where
  "stored_scripts f g b =
     map (f \<circ> ref_Id) (bc_ScriptRef b) @ concat (map (selected g) (bc_ScriptSelector b))"

lemma get_config_stored:
  assumes "static_db I f g db" and "I d" and "coherent f g c" and "colon_free (ref_Id r)"
    and "ses_configCache s \<noteq> None"
  shows "\<exists>c1 d1. get_config (with_cache db env) what (Some r) (s, c, d) = Some (Done (f (ref_Id r)), s, c1, d1)
    \<and> coherent f g c1 \<and> I d1"
  using GetConfigObject_coherent [OF assms(1-4)] assms(5) by (auto simp: get_config_def)

lemma load_scripts_stored:
  assumes "static_db I f g db" and "I d" and "coherent f g c"
    and "\<forall>r \<in> set (bc_ScriptRef b). colon_free (ref_Id r)"
    and "\<forall>x \<in> set (bc_ScriptSelector b). \<not> colon_free x"
    and "ses_configCache s \<noteq> None" and "ses_RequestedUrl s = Some u"
  shows "\<exists>c1 d1. load_scripts rx lib (with_cache db env) b (s, c, d)
      = Some (Done (), s\<lparr>ses_scripts := Some (sort_scripts rx lib (qu_Uri u) (stored_scripts f g b)
                newSessionScripts)\<rparr>, c1, d1)
    \<and> coherent f g c1 \<and> I d1"
  using GetScripts_static [OF assms(1-5)] assms(6,7)
  by (auto simp: load_scripts_def loadScripts_def get_scripts_def set_sess_def stored_scripts_def)

lemma fetch_config_static:
  assumes db: "static_db I f g db" and d: "I d" and c: "coherent f g c" and s: "ses_configCache s \<noteq> None"
    and well: "well_configured f phs rb rp b" and u: "phs_QueuedUri phs = Some u"
  shows "\<exists>c1 d1. fetch_config rx lib (with_cache db env) phs (s, c, d) = Some (Done b,
      s\<lparr>ses_RequestedUrl := Some u, ses_CrawlConfig := GetCrawlConfig (phs_CrawlConfig phs),
        ses_browserConfig := Some b, ses_PolitenessConfig := Some (f (ref_Id rp)),
        ses_scripts := Some (sort_scripts rx lib (qu_Uri u) (stored_scripts f g b) newSessionScripts)\<rparr>,
      c1, d1) \<and> coherent f g c1 \<and> I d1"
proof -
  obtain cc where cc: "GetCrawlConfig (phs_CrawlConfig phs) = Some cc"
    "cc_BrowserConfigRef cc = Some rb" "cc_PolitenessRef cc = Some rp"
    and ids: "colon_free (ref_Id rb)" "colon_free (ref_Id rp)" "GetBrowserConfig (f (ref_Id rb)) = Some b"
    and scripts: "\<forall>r \<in> set (bc_ScriptRef b). colon_free (ref_Id r)"
      "\<forall>x \<in> set (bc_ScriptSelector b). \<not> colon_free x"
    using well by (auto simp: well_configured_def)
  let ?s1 = "s\<lparr>ses_RequestedUrl := Some u, ses_CrawlConfig := Some cc\<rparr>"
  let ?s2 = "?s1\<lparr>ses_browserConfig := Some b\<rparr>"
  let ?s3 = "?s2\<lparr>ses_PolitenessConfig := Some (f (ref_Id rp))\<rparr>"
  have handles: "ses_configCache ?s1 \<noteq> None" "ses_configCache ?s2 \<noteq> None" "ses_configCache ?s3 \<noteq> None"
    using s by simp_all
  have url: "ses_RequestedUrl ?s3 = Some u" by simp
  obtain c1 d1 where 1: "get_config (with_cache db env) ''failed to get browser config: '' (Some rb) (?s1, c, d)
      = Some (Done (f (ref_Id rb)), ?s1, c1, d1)" "coherent f g c1" "I d1"
    using get_config_stored [OF db d c ids(1) handles(1)] by blast
  obtain c2 d2 where 2: "get_config (with_cache db env) ''failed to get politeness config: '' (Some rp) (?s2, c1, d1)
      = Some (Done (f (ref_Id rp)), ?s2, c2, d2)" "coherent f g c2" "I d2"
    using get_config_stored [OF db 1(3,2) ids(2) handles(2)] by blast
  obtain c3 d3 where 3: "load_scripts rx lib (with_cache db env) b (?s3, c2, d2)
      = Some (Done (), ?s3\<lparr>ses_scripts := Some (sort_scripts rx lib (qu_Uri u) (stored_scripts f g b)
                newSessionScripts)\<rparr>, c3, d3)" "coherent f g c3" "I d3"
    using load_scripts_stored [OF db 2(3,2) scripts handles(3) url, of rx lib env] by blast
  show ?thesis
    using 1(1) 2(1) 3 cc ids(3) u
    by (simp add: fetch_config_def fbind_def set_sess_def get_crawl_config_def get_browser_config_def
        get_politeness_def)
qed

text \<open>
  C23 (equivalence). Before it opens the page \<open>Fetch\<close> holds exactly what the database has: through
  the cache, whatever it holds of earlier answers, and through the retries of the connection,
  however often a query times out or the connection is lost before it is answered within the
  configured attempts, it loads the browser config and the politeness config the crawl config
  refers to and the scripts of the browser config that apply to the uri, and the cache keeps
  agreeing with the database.
\<close>

theorem fetch_config_stored:
  assumes "patient drv conn f g" and "coherent f g c" and "ses_configCache s \<noteq> None"
    and "well_configured f phs rb rp b" and "phs_QueuedUri phs = Some u"
  shows "\<exists>s1 c1 conn1 w1. fetch_config rx lib (with_cache (rethink_adapter drv readClock emptyErr) env) phs
        (s, c, conn, w) = Some (Done b, s1, c1, conn1, w1)
    \<and> ses_browserConfig s1 = Some b
    \<and> ses_PolitenessConfig s1 = Some (f (ref_Id rp))
    \<and> ses_scripts s1 = Some (sort_scripts rx lib (qu_Uri u) (stored_scripts f g b) newSessionScripts)
    \<and> coherent f g c1 \<and> same_settings conn conn1"
proof -
  have "static_db (\<lambda>cw. same_settings conn (fst cw)) f g (rethink_adapter drv readClock emptyErr)"
    by (rule patient_static [OF assms(1)])
  from fetch_config_static [OF this _ assms(2-5), of "(conn, w)"] show ?thesis by fastforce
qed

section \<open>An example\<close>

text \<open>The database loses its connection before every answer; the connection retries once.\<close>

definition ex_stored :: "string \<Rightarrow> config_object" where
  "ex_stored i = (if i = ''b'' then ok_config \<lparr>ref_Id = ''b''\<rparr> else example_config i)"

definition ex_driver :: "(unit, bool) driver" where
  "ex_driver = flaky_driver\<lparr>drv_Run := (\<lambda>t q ro w. if w then (Inl ErrConnectionClosed, False)
     else (Inr \<lparr>cur_rows = (case t of TableGet tab i \<Rightarrow> [ex_stored i]
             | TableByLabel tab k v kind \<Rightarrow> []), cur_err = None\<rparr>, True))\<rparr>"

lemma ex_driver_patient: "patient ex_driver flaky_connection ex_stored (\<lambda>k v. [])"
  unfolding patient_def
  by (auto simp: ex_driver_def flaky_driver_def flaky_connection_def NewRethinkDbConnection_def rethink_exec_def
      read_query_def retry_ops_def rethink_Connect_def example_config_def ex_stored_def ok_config_def)

definition ex_cached :: "(cache \<times> unit rethink_connection \<times> bool) fetch_env" where
  "ex_cached = with_cache (rethink_adapter ex_driver (\<lambda>w. 0) EOF)
     \<lparr>fe_page = \<lparr>pg_Evaluate = (\<lambda>s p sw. (Inr (None, None), sw)), pg_GetAllCookies = (\<lambda>sw. (Inr [], sw)),
        pg_CaptureScreenshot = (\<lambda>sw. (Inr ''png'', sw)), pg_WriteScreenshot = (\<lambda>d md sw. (Ret None, sw)),
        pg_CloseBrowser = (\<lambda>sw. (None, sw)), pg_WriteCrawlLogs = (\<lambda>cl sw. (None, sw)),
        pg_WritePageLog = (\<lambda>p sw. (None, sw)), pg_NewUuid = (\<lambda>sw. (''uuid'', sw))\<rparr>,
      fe_browser = \<lparr>br_GetFrameTree = (\<lambda>sw. (Inr ''root'', sw)),
        br_CreateIsolatedWorld = (\<lambda>f sw. (Inr 1, sw)), br_CallFunctionOn = (\<lambda>f a eci p sw. (Inr (None, None), sw))\<rparr>,
      fe_GetConfigObject = (\<lambda>r sw. (Inl EOF, sw)), fe_GetScripts = (\<lambda>b sw. (Ret (Inl EOF), sw)),
      fe_GetVersion = (\<lambda>sw. (Inr (''1'', ''HeadlessChrome/1''), sw)),
      fe_InitBrowser = (\<lambda>d c sw. (None, sw)), fe_Navigate = (\<lambda>u sw. (None, sw)), fe_WaitNetwork = id,
      fe_WaitFrames = (\<lambda>sw. (None, sw)), fe_WaitRequests = (\<lambda>sw. (None, sw)), fe_NewRequest = (\<lambda>u. None),
      fe_CleanWorkspace = (\<lambda>u sw. sw), fe_FetchMs = (\<lambda>sw. 7), fe_ErrorText = (\<lambda>e. [])\<rparr>"

theorem fetch_config_stored_witness:
  "\<exists>s1 c1 conn1 w1. fetch_config prefix_regexps plain_urls ex_cached ok_phs
        (newDefaultSession handle_options, newCache 100, flaky_connection, True)
      = Some (Done ok_browser_config, s1, c1, conn1, w1)
    \<and> ses_PolitenessConfig s1 = Some (example_config ''p'')"
proof -
  have well: "well_configured ex_stored ok_phs \<lparr>ref_Id = ''b''\<rparr> \<lparr>ref_Id = ''p''\<rparr> ok_browser_config"
    by (simp add: well_configured_def ok_phs_def GetCrawlConfig_def colon_free_def ex_stored_def ok_config_def
        GetBrowserConfig_def ok_browser_config_def)
  have s: "ses_configCache (newDefaultSession handle_options) \<noteq> None" by simp
  have u: "phs_QueuedUri ok_phs = Some example_uri" by (simp add: ok_phs_def)
  from fetch_config_stored [OF ex_driver_patient coherent_new s well u] show ?thesis
    unfolding ex_cached_def by (fastforce simp: ex_stored_def)
qed

end
