(* ===== verification/System.thy ===== *)
theory System
  imports Controller Message_Effects
begin

text \<open>
  The controller, its sessions and the calls of the API server as one system. The sessions
  live in the heap of the server's world, the registry holds their addresses; the main loop,
  the fetches it has started, the calls of \<open>Do\<close> and the arrival of new calls take steps in any order.
\<close>

section \<open>The system\<close>

record system =
  sy_world :: world
  sy_run :: "nat run_state"
  sy_calls :: "nat \<Rightarrow> do_state option"

text \<open>
  \<open>New\<close> puts the session it makes at the next free address, unless it fails or is not called.
\<close>

definition alloc :: "'u url_lib \<Rightarrow> world \<Rightarrow> nat \<Rightarrow> error + nat" where
  "alloc lib w i = map_sum id (\<lambda>sess. w_next w) (Session_New lib (w_options w) i)"

definition installed ::
  "'u url_lib \<Rightarrow> error + nat \<times> nat \<Rightarrow> nat session_registry \<Rightarrow> world \<Rightarrow> world" where
  "installed lib r sr w =
     (case r of
        Inl e \<Rightarrow> w\<lparr>w_registry := sr\<rparr>
      | Inr (i, a) \<Rightarrow>
          (case Session_New lib (w_options w) i of
             Inl e \<Rightarrow> w\<lparr>w_registry := sr\<rparr>
           | Inr sess \<Rightarrow> (set_session a sess w)\<lparr>w_next := Suc a, w_registry := sr\<rparr>))"

text \<open>
  A step: of the controller, other than acquiring a session; acquiring one; of a fetch, which
  changes the session it was given in any way that keeps its identity; a new call, a
  message of a call, the end of one.
\<close>

inductive sys_step :: "'re regexp_lib \<Rightarrow> 'u url_lib \<Rightarrow> system \<Rightarrow> system \<Rightarrow> bool"
  for rx :: "'re regexp_lib" and lib :: "'u url_lib" where
  sys_controller:
    "run_step New (sy_run s) r \<Longrightarrow> rs_pc (sy_run s) = Acquiring \<longrightarrow> rs_pc r = Acquiring
     \<Longrightarrow> sys_step rx lib s
           (s\<lparr>sy_run := r, sy_world := (sy_world s)\<lparr>w_registry := rs_registry r\<rparr>\<rparr>)"
| sys_acquire:
    "rs_pc (sy_run s) = Acquiring
     \<Longrightarrow> ctxErr = None \<or> (rs_cancelled (sy_run s) \<and> ctxErr = Some ContextCanceled)
     \<Longrightarrow> GetNextAvailable (alloc lib (sy_world s)) ctxErr (rs_registry (sy_run s)) = (Some res, sr)
     \<Longrightarrow> sys_step rx lib s
           (s\<lparr>sy_run := (sy_run s)\<lparr>rs_registry := sr, rs_pc := acquired res\<rparr>,
              sy_world := installed lib res sr (sy_world s)\<rparr>)"
| sys_fetch:
    "i \<in> set (rs_fetching (sy_run s)) \<Longrightarrow> Registry_Get (int i) (w_registry (sy_world s)) = Ret (Some a)
     \<Longrightarrow> identity sess = identity (w_heap (sy_world s) a)
     \<Longrightarrow> sys_step rx lib s (s\<lparr>sy_world := set_session a sess (sy_world s)\<rparr>)"
| sys_call:
    "sy_calls s c = None
     \<Longrightarrow> sys_step rx lib s (s\<lparr>sy_calls := (sy_calls s)(c \<mapsto> \<lparr>do_sess = None, do_req = None\<rparr>)\<rparr>)"
| sys_message:
    "sy_calls s c = Some st \<Longrightarrow> Do_step rx lib inp st (sy_world s) = (out, st1, w1, rs)
     \<Longrightarrow> sys_step rx lib s (s\<lparr>sy_world := w1,
           sy_calls := (sy_calls s)(c := (if out = Again then Some st1 else None))\<rparr>)"
| sys_hang_up:
    "sys_step rx lib s (s\<lparr>sy_calls := (sy_calls s)(c := None)\<rparr>)"

definition sys_start :: "(nat \<Rightarrow> session) \<Rightarrow> (session \<Rightarrow> session) list \<Rightarrow> api_server \<Rightarrow> nat session_registry \<Rightarrow> system" where
  "sys_start heap opts server sr =
     \<lparr>sy_world = \<lparr>w_heap = heap, w_next = 0, w_registry = sr, w_options = opts, w_written = [], w_asked = []\<rparr>,
      sy_run = run_start server sr, sy_calls = (\<lambda>c. None)\<rparr>"

inductive sys_reachable :: "'re regexp_lib \<Rightarrow> 'u url_lib \<Rightarrow> system \<Rightarrow> bool"
  for rx :: "'re regexp_lib" and lib :: "'u url_lib" where
  sys_init: "NewRegistry maxSessions = Ret sr
     \<Longrightarrow> sys_reachable rx lib (sys_start heap opts (NewApiServer listenInterface listenPort) sr)"
| sys_next: "sys_reachable rx lib s \<Longrightarrow> sys_step rx lib s s' \<Longrightarrow> sys_reachable rx lib s'"

section \<open>Invariants\<close>

text \<open>
  The controller's part is a run of the controller; the registry is shared; the session in a
  slot was made for that slot, below the next free address; calls hold only such addresses.
\<close>

definition slot_ok :: "'u url_lib \<Rightarrow> world \<Rightarrow> bool" where
  "slot_ok lib w \<longleftrightarrow>
     (\<forall>i < length (sr_sessions (w_registry w)). \<forall>a. sr_sessions (w_registry w) ! i = Some a \<longrightarrow>
        a < w_next w
        \<and> (\<exists>sess. Session_New lib (w_options w) i = Inr sess \<and> identity (w_heap w a) = identity sess))"

definition calls_ok :: "system \<Rightarrow> bool" where
  "calls_ok s \<longleftrightarrow> (\<forall>c st. sy_calls s c = Some st \<longrightarrow> (\<forall>a \<in> addresses st. a < w_next (sy_world s)))"

definition sys_inv :: "'u url_lib \<Rightarrow> system \<Rightarrow> bool" where
  "sys_inv lib s \<longleftrightarrow> run_reachable (sy_run s) \<and> w_registry (sy_world s) = rs_registry (sy_run s)
     \<and> slot_ok lib (sy_world s) \<and> calls_ok s"

lemma run_step_registered:
  assumes "run_step New s s'" and "rs_pc s = Acquiring \<longrightarrow> rs_pc s' = Acquiring"
    and "i < length (sr_sessions (rs_registry s'))" and "sr_sessions (rs_registry s') ! i = Some a"
  shows "i < length (sr_sessions (rs_registry s)) \<and> sr_sessions (rs_registry s) ! i = Some a"
  using assms(1)
proof cases
  case (acquire ctxErr r sr)
  then show ?thesis using assms(2) by (auto simp: acquired_def split: sum.splits if_splits)
next
  case (got_no_page j sr err)
  then show ?thesis using Release_made [OF got_no_page(3)] assms(3,4) by auto
next
  case (fetched j sr)
  then show ?thesis using Release_made [OF fetched(3)] assms(3,4) by auto
qed (use assms in auto)

lemma slot_ok_frame:
  assumes "slot_ok lib w" and "w_options w1 = w_options w" and "w_next w \<le> w_next w1"
    and "\<forall>b < w_next w. identity (w_heap w1 b) = identity (w_heap w b)"
    and "\<And>i a. i < length (sr_sessions (w_registry w1)) \<Longrightarrow> sr_sessions (w_registry w1) ! i = Some a
       \<Longrightarrow> i < length (sr_sessions (w_registry w)) \<and> sr_sessions (w_registry w) ! i = Some a"
  shows "slot_ok lib w1"
  using assms unfolding slot_ok_def by (metis order_less_le_trans)

lemma GetNextAvailable_registered:
  assumes "GetNextAvailable New ctxErr sr = (Some res, sr1)" and "i < length (sr_sessions sr1)"
    and "sr_sessions sr1 ! i = Some a"
  shows "i < length (sr_sessions sr)
    \<and> (sr_sessions sr ! i = Some a \<or> (res = Inr (i, a) \<and> New i = Inr a))"
  using assms
  by (auto simp: GetNextAvailable_def Let_def split: option.splits list.splits sum.splits)
    (metis nth_list_update_eq nth_list_update_neq option.inject)+

lemma GetNextAvailable_New:
  "GetNextAvailable New ctxErr sr = (Some (Inr (i, a)), sr1) \<Longrightarrow> New i = Inr a"
  by (auto simp: GetNextAvailable_def Let_def split: option.splits list.splits sum.splits)

lemma alloc_Inr:
  "alloc lib w i = Inr a \<longleftrightarrow> a = w_next w \<and> (\<exists>sess. Session_New lib (w_options w) i = Inr sess)"
  by (cases "Session_New lib (w_options w) i") (auto simp: alloc_def)

lemma installed_frame:
  assumes "GetNextAvailable (alloc lib w) ctxErr sr = (Some res, sr1)"
  shows "w_registry (installed lib res sr1 w) = sr1 \<and> w_options (installed lib res sr1 w) = w_options w
    \<and> w_next w \<le> w_next (installed lib res sr1 w)
    \<and> (\<forall>b < w_next w. w_heap (installed lib res sr1 w) b = w_heap w b)"
proof (cases res)
  case (Inr ia)
  obtain i a where ia: "ia = (i, a)" by fastforce
  with assms Inr have "alloc lib w i = Inr a" by (auto intro: GetNextAvailable_New)
  then show ?thesis
    by (auto simp: Inr ia alloc_Inr installed_def set_session_def)
qed (simp add: installed_def)

lemma slot_ok_installed:
  assumes "slot_ok lib w" and "GetNextAvailable (alloc lib w) ctxErr (w_registry w) = (Some res, sr1)"
  shows "slot_ok lib (installed lib res sr1 w)"
  unfolding slot_ok_def
proof (intro allI impI)
  fix i a
  note fr = installed_frame [OF assms(2)]
  assume "i < length (sr_sessions (w_registry (installed lib res sr1 w)))"
    and "sr_sessions (w_registry (installed lib res sr1 w)) ! i = Some a"
  with fr GetNextAvailable_registered [OF assms(2), of i a]
  consider "i < length (sr_sessions (w_registry w))" "sr_sessions (w_registry w) ! i = Some a"
    | "res = Inr (i, a)" "alloc lib w i = Inr a" by auto
  then show "a < w_next (installed lib res sr1 w)
      \<and> (\<exists>sess. Session_New lib (w_options (installed lib res sr1 w)) i = Inr sess
           \<and> identity (w_heap (installed lib res sr1 w) a) = identity sess)"
  proof cases
    case 1
    with assms(1) fr show ?thesis unfolding slot_ok_def by (metis order_less_le_trans)
  next
    case 2
    then show ?thesis by (auto simp: alloc_Inr installed_def set_session_def)
  qed
qed

lemma slot_ok_registered: "slot_ok lib w \<Longrightarrow> a \<in> registered (w_registry w) \<Longrightarrow> a < w_next w"
  by (auto simp: slot_ok_def registered_def)

lemma calls_okI:
  assumes "calls_ok s" and "w_next (sy_world s) \<le> w_next (sy_world s')"
    and "\<And>c st. sy_calls s' c = Some st \<Longrightarrow> sy_calls s c = Some st
           \<or> (\<forall>a \<in> addresses st. a < w_next (sy_world s'))"
  shows "calls_ok s'"
  using assms unfolding calls_ok_def by (metis order_less_le_trans)

lemma sys_inv_step:
  assumes "sys_inv lib s" and "sys_step rx lib s s'"
  shows "sys_inv lib s'"
proof -
  have run: "run_reachable (sy_run s)" and reg: "w_registry (sy_world s) = rs_registry (sy_run s)"
    and slot: "slot_ok lib (sy_world s)" and calls: "calls_ok s"
    using assms(1) by (simp_all add: sys_inv_def)
  from assms(2) show ?thesis
  proof cases
    case (sys_controller New r)
    have "slot_ok lib (sy_world s')"
      by (rule slot_ok_frame [OF slot])
        (use sys_controller reg run_step_registered [OF sys_controller(2,3)] in auto)
    moreover have "calls_ok s'" by (rule calls_okI [OF calls]) (simp_all add: sys_controller(1))
    ultimately show ?thesis using sys_controller run_next [OF run] by (simp add: sys_inv_def)
  next
    case (sys_acquire ctxErr res sr)
    let ?w1 = "installed lib res sr (sy_world s)"
    have get: "GetNextAvailable (alloc lib (sy_world s)) ctxErr (w_registry (sy_world s)) = (Some res, sr)"
      using sys_acquire(4) reg by simp
    have "run_step (alloc lib (sy_world s)) (sy_run s)
        ((sy_run s)\<lparr>rs_registry := sr, rs_pc := acquired res\<rparr>)"
      by (rule run_step.acquire [OF sys_acquire(2,3,4)])
    from run_next [OF run this] have "run_reachable (sy_run s')" by (simp add: sys_acquire(1))
    moreover have "calls_ok s'"
      by (rule calls_okI [OF calls]) (use installed_frame [OF get] in \<open>simp_all add: sys_acquire(1)\<close>)
    ultimately show ?thesis
      using slot_ok_installed [OF slot get] installed_frame [OF get]
      by (simp add: sys_inv_def sys_acquire(1))
  next
    case (sys_fetch i a sess)
    have "slot_ok lib (sy_world s')"
      by (rule slot_ok_frame [OF slot]) (auto simp: sys_fetch(1,4) set_session_def)
    moreover have "calls_ok s'"
      by (rule calls_okI [OF calls]) (simp_all add: sys_fetch(1) set_session_def)
    ultimately show ?thesis
      using run reg by (simp add: sys_inv_def sys_fetch(1) set_session_def)
  next
    case (sys_call c)
    have "sy_calls s d = Some st \<or> (\<forall>a \<in> addresses st. a < w_next (sy_world s'))"
      if "sy_calls s' d = Some st" for d st
      using that by (cases "d = c") (auto simp: sys_call(1) addresses_def)
    then have "calls_ok s'" by (intro calls_okI [OF calls]) (simp add: sys_call(1))
    then show ?thesis using run reg slot by (simp add: sys_inv_def sys_call(1))
  next
    case (sys_message c st inp out st1 w1 rs)
    note fr = Do_step_ids [OF sys_message(3)]
    have slot': "slot_ok lib (sy_world s')"
      by (rule slot_ok_frame [OF slot]) (use fr in \<open>simp_all add: sys_message(1)\<close>)
    have "a < w_next w1" if "a \<in> addresses st1" for a
    proof -
      have grows: "w_next (sy_world s) \<le> w_next w1" using fr by simp
      from ids.Do_step_addresses [OF sys_message(3) that]
      consider "a \<in> addresses st" | "a \<in> registered (w_registry (sy_world s))" | "a < w_next w1"
        by blast
      then show ?thesis
      proof cases
        case 1
        then have "a < w_next (sy_world s)" using calls sys_message(2) by (auto simp: calls_ok_def)
        with grows show ?thesis by simp
      next
        case 2
        with slot_ok_registered [OF slot] grows show ?thesis by (meson order_less_le_trans)
      qed
    qed
    then have "sy_calls s d = Some st' \<or> (\<forall>a \<in> addresses st'. a < w_next (sy_world s'))"
      if "sy_calls s' d = Some st'" for d st'
      using that by (cases "d = c") (auto simp: sys_message(1) split: if_splits)
    moreover have "w_next (sy_world s) \<le> w_next (sy_world s')" using fr by (simp add: sys_message(1))
    ultimately have "calls_ok s'" by (intro calls_okI [OF calls])
    with slot' show ?thesis using run reg fr by (simp add: sys_inv_def sys_message(1))
  next
    case (sys_hang_up c)
    have "sy_calls s d = Some st" if "sy_calls s' d = Some st" for d st
      using that by (cases "d = c") (simp_all add: sys_hang_up)
    then have "calls_ok s'" by (intro calls_okI [OF calls]) (simp_all add: sys_hang_up)
    then show ?thesis using run reg slot by (simp add: sys_inv_def sys_hang_up)
  qed
qed

lemma sys_inv: "sys_reachable rx lib s \<Longrightarrow> sys_inv lib s"
proof (induction rule: sys_reachable.induct)
  case (sys_init maxSessions sr heap opts listenInterface listenPort)
  then show ?case
    using run_init [OF sys_init]
    by (auto simp: sys_inv_def sys_start_def slot_ok_def calls_ok_def run_start_def NewRegistry_def
        split: if_splits)
qed (rule sys_inv_step)

section \<open>Properties\<close>

lemma registered_slot:
  assumes "sys_reachable rx lib s" and "i < length (sr_sessions (w_registry (sy_world s)))"
    and "sr_sessions (w_registry (sy_world s)) ! i = Some a"
  shows "a < w_next (sy_world s) \<and> ses_Id (w_heap (sy_world s) a) = i \<and> i \<in> set (held (sy_run s))
    \<and> (\<exists>sess. Session_New lib (w_options (sy_world s)) i = Inr sess
         \<and> identity (w_heap (sy_world s) a) = identity sess)"
proof -
  have inv: "run_reachable (sy_run s)" "w_registry (sy_world s) = rs_registry (sy_run s)"
    "slot_ok lib (sy_world s)"
    using sys_inv [OF assms(1)] by (simp_all add: sys_inv_def)
  obtain sess where sess: "a < w_next (sy_world s)" "Session_New lib (w_options (sy_world s)) i = Inr sess"
    "identity (w_heap (sy_world s) a) = identity sess"
    using inv(3) assms(2,3) by (auto simp: slot_ok_def)
  moreover have "set (held (sy_run s)) = used (rs_registry (sy_run s))"
    using run_inv [OF inv(1)] by (simp add: owner_inv_def)
  ultimately show ?thesis
    using assms(2,3) inv(2) Session_New_fields [OF sess(2)] by (auto simp: identity_def used_slots_def)
qed

text \<open>
  C5 (refinement). Whatever the calls of the API server do in between, the controller's part
  of the system only takes the steps of the controller, and the addresses the registry hands to
  the calls are, slot by slot, the sessions the controller has made for these slots: the
  session in slot \<open>i\<close> has the id \<open>i\<close> and the proxy \<open>New\<close> gave it, no two slots share a session.
\<close>

theorem system_refines_controller:
  assumes "sys_reachable rx lib s"
  shows "run_reachable (sy_run s) \<and> w_registry (sy_world s) = rs_registry (sy_run s)
    \<and> (\<forall>i a. Registry_Get (int i) (w_registry (sy_world s)) = Ret (Some a) \<longrightarrow>
         i \<in> set (held (sy_run s)) \<and> ses_Id (w_heap (sy_world s) a) = i
         \<and> (\<exists>sess. Session_New lib (w_options (sy_world s)) i = Inr sess
              \<and> proxy_url (w_heap (sy_world s) a) = proxy_url sess)
         \<and> (\<forall>j. Registry_Get (int j) (w_registry (sy_world s)) = Ret (Some a) \<longrightarrow> j = i))"
proof -
  have url: "identity s1 = identity s2 \<Longrightarrow> proxy_url s1 = proxy_url s2" for s1 s2
    by (simp add: identity_def proxy_url_def)
  have slot: "i < length (sr_sessions (w_registry (sy_world s)))"
    "sr_sessions (w_registry (sy_world s)) ! i = Some a"
    if "Registry_Get (int i) (w_registry (sy_world s)) = Ret (Some a)" for i a
    using that by (simp_all add: Registry_Get_Some)
  show ?thesis
  proof (intro conjI allI impI)
    show "run_reachable (sy_run s)" "w_registry (sy_world s) = rs_registry (sy_run s)"
      using sys_inv [OF assms] by (simp_all add: sys_inv_def)
  next
    fix i a assume "Registry_Get (int i) (w_registry (sy_world s)) = Ret (Some a)"
    note at = registered_slot [OF assms slot [OF this]]
    then show "i \<in> set (held (sy_run s))" "ses_Id (w_heap (sy_world s) a) = i" by simp_all
    show "\<exists>sess. Session_New lib (w_options (sy_world s)) i = Inr sess
        \<and> proxy_url (w_heap (sy_world s) a) = proxy_url sess"
      using at url by blast
    fix j assume "Registry_Get (int j) (w_registry (sy_world s)) = Ret (Some a)"
    from registered_slot [OF assms slot [OF this]] at show "j = i" by simp
  qed
qed

text \<open>
  C9 (safety). The calls of the proxies do not disturb each other's sessions: a message changes
  a session that is in use only if its call already holds that session, or it is a new request
  naming that session's id.
\<close>

theorem calls_isolated:
  assumes "sys_reachable rx lib s" and "Do_step rx lib inp st (sy_world s) = (out, st1, w1, rs)"
    and "Registry_Get (int i) (w_registry (sy_world s)) = Ret (Some a)" and "a \<notin> addresses st"
    and "\<forall>v. in_request inp = DoNew v \<longrightarrow> sint (nr_ProxyId v) \<noteq> int i"
  shows "w_heap w1 a = w_heap (sy_world s) a"
proof -
  let ?w = "sy_world s"
  have slot: "i < length (sr_sessions (w_registry ?w))" "sr_sessions (w_registry ?w) ! i = Some a"
    using assms(3) by (simp_all add: Registry_Get_Some)
  note a = registered_slot [OF assms(1) slot]
  have "a \<notin> named inp (w_registry ?w)"
  proof
    assume "a \<in> named inp (w_registry ?w)"
    then obtain v where v: "in_request inp = DoNew v"
      "Registry_Get (sint (nr_ProxyId v)) (w_registry ?w) = Ret (Some a)" by (auto simp: named_def)
    then have "ses_Id (w_heap ?w a) = nat (sint (nr_ProxyId v))" "0 \<le> sint (nr_ProxyId v)"
      using registered_slot [OF assms(1)] by (auto simp: Registry_Get_Some)
    with v(1) a assms(5) show False by auto
  qed
  moreover have "\<forall>b \<in> addresses st1. b \<in> addresses st \<or> b \<in> named inp (w_registry ?w)
      \<or> (w_next ?w \<le> b \<and> b < w_next w1)"
    using Do_step_ids [OF assms(2)] by (elim conjE)
  ultimately have "a \<notin> addresses st1" using a assms(4) by auto
  moreover have "untouched a st ?w" using a assms(4) by (auto simp: untouched_def addresses_def)
  ultimately show ?thesis
    using Do_step_isolation [OF assms(2)] by (simp add: addresses_def)
qed

lemma sys_step_registered:
  assumes "sys_reachable rx lib s" and "sys_step rx lib s s'"
    and "a < w_next (sy_world s)" and "a \<notin> registered (w_registry (sy_world s))"
  shows "a < w_next (sy_world s') \<and> a \<notin> registered (w_registry (sy_world s'))"
proof -
  have reg: "w_registry (sy_world s) = rs_registry (sy_run s)"
    using sys_inv [OF assms(1)] by (simp add: sys_inv_def)
  from assms(2) show ?thesis
  proof cases
    case (sys_controller New r)
    then show ?thesis
      using assms(3,4) reg run_step_registered [OF sys_controller(2,3), of _ a]
      by (auto simp: registered_def)
  next
    case (sys_acquire ctxErr res sr)
    have get: "GetNextAvailable (alloc lib (sy_world s)) ctxErr (w_registry (sy_world s)) = (Some res, sr)"
      using sys_acquire(4) reg by simp
    have "a \<notin> registered sr"
    proof
      assume "a \<in> registered sr"
      then obtain i where "i < length (sr_sessions sr)" "sr_sessions sr ! i = Some a"
        by (auto simp: registered_def)
      with GetNextAvailable_registered [OF get] assms(3,4) show False
        by (auto simp: registered_def alloc_Inr)
    qed
    then show ?thesis using installed_frame [OF get] assms(3) by (simp add: sys_acquire(1))
  next
    case (sys_fetch i b sess)
    then show ?thesis using assms(3,4) by (simp add: set_session_def)
  next
    case (sys_message c st inp out st1 w1 rs)
    then show ?thesis using Do_step_ids [OF sys_message(3)] assms(3,4) by simp
  qed (use assms(3,4) in simp_all)
qed

lemma sys_steps_registered:
  assumes "(sys_step rx lib)\<^sup>*\<^sup>* s s'" and "sys_reachable rx lib s"
    and "a < w_next (sy_world s)" and "a \<notin> registered (w_registry (sy_world s))"
  shows "sys_reachable rx lib s' \<and> a < w_next (sy_world s') \<and> a \<notin> registered (w_registry (sy_world s'))"
  using assms
proof (induction rule: rtranclp_induct)
  case (step s1 s2)
  then show ?case using sys_step_registered [of rx lib s1 s2 a] sys_next [of rx lib s1 s2] by blast
qed simp

text \<open>
  C10 (safety). A session that has been released stays released: the address a call still holds
  from the time its session was in use is never again that of a session in use, so no late
  message of an old proxy connection reaches a later fetch.
\<close>

theorem released_stays_released:
  assumes "sys_reachable rx lib s" and "sy_calls s c = Some st" and "a \<in> addresses st"
    and "\<forall>i. Registry_Get i (w_registry (sy_world s)) \<noteq> Ret (Some a)"
    and "(sys_step rx lib)\<^sup>*\<^sup>* s s'"
  shows "Registry_Get i (w_registry (sy_world s')) \<noteq> Ret (Some a)"
proof -
  have "a < w_next (sy_world s)"
    using sys_inv [OF assms(1)] assms(2,3) by (auto simp: sys_inv_def calls_ok_def)
  moreover have "a \<notin> registered (w_registry (sy_world s))"
  proof
    assume "a \<in> registered (w_registry (sy_world s))"
    then obtain k where "Registry_Get (int k) (w_registry (sy_world s)) = Ret (Some a)"
      by (auto simp: registered_def Registry_Get_Some)
    with assms(4) show False by blast
  qed
  ultimately have "a \<notin> registered (w_registry (sy_world s'))"
    using sys_steps_registered [OF assms(5,1)] by blast
  then show ?thesis by (auto simp: registered_def Registry_Get_Some)
qed

text \<open>
  C4 (safety). A request is let through, other than for a direct session, only while a fetch
  owns the session it names: robots.txt allows it under that session's politeness, asked for the
  very uri, the session's fetch has started, and the reply carries the ids and the collection
  of the page this session fetches.
\<close>

theorem let_through:
  assumes "sys_reachable rx lib s"
    and "Do_step rx lib inp st (sy_world s) = (out, st1, w1, [ReplyNew np])"
    and "in_request inp = DoNew v" and "nr_ProxyId v \<noteq> 0"
  shows "\<exists>i a u cc req. sint (nr_ProxyId v) = int i \<and> i \<in> set (held (sy_run s))
    \<and> Registry_Get (int i) (rs_registry (sy_run s)) = Ret (Some a)
    \<and> ses_Id (w_heap (sy_world s) a) = i \<and> ses_ctx (w_heap (sy_world s) a) \<noteq> None
    \<and> robots_request (w_heap (sy_world s) a) v = Ret req \<and> ia_Uri req = nr_Uri v
    \<and> fst (IsAllowed (\<lambda>q asked. (in_robots inp, asked @ [q])) req (w_asked (sy_world s))) = Ret True
    \<and> ses_RequestedUrl (w_heap (sy_world s) a) = Some u \<and> ses_CrawlConfig (w_heap (sy_world s) a) = Some cc
    \<and> np_CrawlExecutionId np = qu_ExecutionId u \<and> np_JobExecutionId np = qu_JobExecutionId u
    \<and> np_CollectionRef np = cc_CollectionRef cc"
proof -
  from Do_new_let_through [OF assms(2-4)] obtain a u cc req where
    get: "Registry_Get (sint (nr_ProxyId v)) (w_registry (sy_world s)) = Ret (Some a)"
    and rest: "ses_ctx (w_heap (sy_world s) a) \<noteq> None"
      "robots_request (w_heap (sy_world s) a) v = Ret req" "ia_Uri req = nr_Uri v"
      "fst (IsAllowed (\<lambda>q asked. (in_robots inp, asked @ [q])) req (w_asked (sy_world s))) = Ret True"
      "ses_RequestedUrl (w_heap (sy_world s) a) = Some u" "ses_CrawlConfig (w_heap (sy_world s) a) = Some cc"
      "np_CrawlExecutionId np = qu_ExecutionId u" "np_JobExecutionId np = qu_JobExecutionId u"
      "np_CollectionRef np = cc_CollectionRef cc"
    by blast
  obtain i where i: "sint (nr_ProxyId v) = int i"
    using get by (metis Registry_Get_Some nat_0_le)
  moreover from get i have "i \<in> set (held (sy_run s))" "ses_Id (w_heap (sy_world s) a) = i"
    using registered_slot [OF assms(1), of i a] by (simp_all add: Registry_Get_Some)
  moreover have "w_registry (sy_world s) = rs_registry (sy_run s)"
    using sys_inv [OF assms(1)] by (simp add: sys_inv_def)
  ultimately show ?thesis using get rest by (intro exI conjI) auto
qed

section \<open>An example\<close>

text \<open>
  A registry for two ids: session 1 is made at address 0, given a page and used by a call.
\<close>

definition ex_sys0 :: system where
  "ex_sys0 = sys_start (\<lambda>_. ex_session) [] (NewApiServer [] 8080)
     \<lparr>sr_sessions = [None, None], sr_pool = [1], sr_wg = 0\<rparr>"

definition ex_made :: session where
  "ex_made = (case Session_New plain_urls [] 1 of Inr sess \<Rightarrow> sess)"

definition ex_fetching :: session where
  "ex_fetching = ex_session\<lparr>ses_Id := 1\<rparr>"

lemma ex_made: "Session_New plain_urls [] (Suc 0) = Inr ex_made"
  by (simp add: ex_made_def Session_New_def plain_urls_def Let_def)

definition ex_used :: "nat session_registry" where
  "ex_used = \<lparr>sr_sessions = [None, Some 0], sr_pool = [], sr_wg = 1\<rparr>"

definition ex_sys1 :: system where
  "ex_sys1 = ex_sys0\<lparr>sy_world := (sy_world ex_sys0)\<lparr>w_heap := (\<lambda>_. ex_session)(0 := ex_fetching),
       w_next := 1, w_registry := ex_used\<rparr>,
     sy_run := (sy_run ex_sys0)\<lparr>rs_registry := ex_used, rs_pc := AtSelect, rs_fetching := [1]\<rparr>,
     sy_calls := [0 \<mapsto> ex_start]\<rparr>"

lemma ex_identity: "identity ex_fetching = identity ex_made"
  by (simp add: identity_def ex_fetching_def ex_made_def Session_New_def plain_urls_def Let_def
      ex_session_def newDirectSession_def newDefaultSession_def)

lemma ex_sys1: "sys_reachable prefix_regexps plain_urls ex_sys1"
proof -
  let ?s1 = "ex_sys0\<lparr>sy_run := (sy_run ex_sys0)\<lparr>rs_pc := Acquiring\<rparr>\<rparr>"
  let ?s2 = "?s1\<lparr>sy_run := (sy_run ?s1)\<lparr>rs_registry := ex_used, rs_pc := acquired (Inr (1, 0 :: nat))\<rparr>,
      sy_world := installed plain_urls (Inr (1, 0)) ex_used (sy_world ?s1)\<rparr> :: system"
  let ?r3 = "(sy_run ?s2)\<lparr>rs_pc := AtSelect, rs_fetching := 1 # rs_fetching (sy_run ?s2),
      rs_late := rs_late (sy_run ?s2)\<rparr>"
  let ?s3 = "?s2\<lparr>sy_run := ?r3, sy_world := (sy_world ?s2)\<lparr>w_registry := rs_registry ?r3\<rparr>\<rparr>"
  let ?s4 = "?s3\<lparr>sy_world := set_session 0 ex_fetching (sy_world ?s3)\<rparr>"
  have "sys_reachable prefix_regexps plain_urls ex_sys0"
    unfolding ex_sys0_def by (rule sys_init [of 2]) (simp add: NewRegistry_def numeral_2_eq_2)
  moreover have "sys_step prefix_regexps plain_urls ex_sys0 ?s1"
    using sys_controller [OF select_default [of "sy_run ex_sys0"]]
    by (simp add: ex_sys0_def sys_start_def run_start_def)
  ultimately have "sys_reachable prefix_regexps plain_urls ?s1" by (rule sys_next)
  moreover have "sys_step prefix_regexps plain_urls ?s1 ?s2"
    by (rule sys_acquire [of _ None])
      (simp_all add: ex_sys0_def sys_start_def run_start_def GetNextAvailable_def alloc_def ex_made
        Let_def ex_used_def)
  ultimately have "sys_reachable prefix_regexps plain_urls ?s2" by (rule sys_next)
  moreover have "run_step (\<lambda>_. Inl EOF) (sy_run ?s2) ?r3"
    using got_page [of "sy_run ?s2" 1] by (simp add: acquired_def ex_sys0_def sys_start_def run_start_def)
  then have "sys_step prefix_regexps plain_urls ?s2 ?s3"
    by (rule sys_controller) (simp add: acquired_def)
  ultimately have "sys_reachable prefix_regexps plain_urls ?s3" by (rule sys_next)
  moreover have "sys_step prefix_regexps plain_urls ?s3 ?s4"
    by (rule sys_fetch [of 1])
      (simp_all add: ex_used_def Registry_Get_def installed_def ex_sys0_def sys_start_def ex_made
        set_session_def ex_identity)
  ultimately have "sys_reachable prefix_regexps plain_urls ?s4" by (rule sys_next)
  moreover have "sys_step prefix_regexps plain_urls ?s4
      (?s4\<lparr>sy_calls := (sy_calls ?s4)(0 \<mapsto> \<lparr>do_sess = None, do_req = None\<rparr>)\<rparr>)"
    by (rule sys_call) (simp add: ex_sys0_def sys_start_def)
  ultimately have "sys_reachable prefix_regexps plain_urls
      (?s4\<lparr>sy_calls := (sy_calls ?s4)(0 \<mapsto> \<lparr>do_sess = None, do_req = None\<rparr>)\<rparr>)" by (rule sys_next)
  moreover have "?s4\<lparr>sy_calls := (sy_calls ?s4)(0 \<mapsto> \<lparr>do_sess = None, do_req = None\<rparr>)\<rparr> = ex_sys1"
    by (simp add: ex_sys1_def ex_sys0_def sys_start_def run_start_def installed_def ex_made
        set_session_def ex_start_def acquired_def)
  ultimately show ?thesis by simp
qed

lemma ex_sys1_simps:
  "w_registry (sy_world ex_sys1) = ex_used" "w_heap (sy_world ex_sys1) 0 = ex_fetching"
  "Registry_Get 1 ex_used = Ret (Some 0)" "rs_registry (sy_run ex_sys1) = ex_used"
  "sy_calls ex_sys1 0 = Some ex_start" "w_asked (sy_world ex_sys1) = []"
  by (simp_all add: ex_sys1_def ex_sys0_def sys_start_def ex_used_def Registry_Get_def)

theorem system_refines_controller_witness:
  "ses_Id (w_heap (sy_world ex_sys1) 0) = 1 \<and> 1 \<in> set (held (sy_run ex_sys1))"
proof -
  have "Registry_Get (int 1) (w_registry (sy_world ex_sys1)) = Ret (Some 0)" by (simp add: ex_sys1_simps)
  with system_refines_controller [OF ex_sys1] show ?thesis by blast
qed

lemma ex_sys1_connect:
  "\<exists>w1. Do_step prefix_regexps plain_urls (ex_new 1) ex_start (sy_world ex_sys1)
    = (Again, \<lparr>do_sess = Some 0, do_req = None\<rparr>, w1,
       [ReplyNew \<lparr>np_CrawlExecutionId = ''e'', np_JobExecutionId = ''j'', np_CollectionRef = None,
          np_ReplacementScript = None\<rparr>])"
  by (simp add: ex_defs ex_sys1_simps ex_used_def ex_start_def ex_fetching_def session_request_def
      robots_request_def allowed_request_def new_reply_for_def IsAllowed_def resolvePolicy_def
      set_policy_def GetPolitenessConfig_def GetRobotsPolicy_def)

theorem let_through_witness:
  "\<exists>u. ses_RequestedUrl (w_heap (sy_world ex_sys1) 0) = Some u \<and> qu_ExecutionId u = ''e''
     \<and> 1 \<in> set (held (sy_run ex_sys1))"
proof -
  obtain w1 where "Do_step prefix_regexps plain_urls (ex_new 1) ex_start (sy_world ex_sys1)
    = (Again, \<lparr>do_sess = Some 0, do_req = None\<rparr>, w1,
       [ReplyNew \<lparr>np_CrawlExecutionId = ''e'', np_JobExecutionId = ''j'', np_CollectionRef = None,
          np_ReplacementScript = None\<rparr>])"
    using ex_sys1_connect by blast
  from let_through [OF ex_sys1 this] show ?thesis
    by (auto simp: ex_new_def ex_sys1_simps)
qed

theorem calls_isolated_witness:
  "\<exists>w1 st1. Do_step prefix_regexps plain_urls (ex_new 0) ex_start (sy_world ex_sys1)
       = (Again, st1, w1, [ReplyNew \<lparr>np_CrawlExecutionId = [], np_JobExecutionId = [],
            np_CollectionRef = None, np_ReplacementScript = None\<rparr>])
     \<and> do_sess st1 = Some 1 \<and> w_heap w1 0 = ex_fetching"
proof -
  let ?st1 = "ex_start\<lparr>do_sess := Some 1\<rparr>"
  obtain w1 where w1: "Do_step prefix_regexps plain_urls (ex_new 0) ex_start (sy_world ex_sys1)
       = (Again, ?st1, w1, [ReplyNew \<lparr>np_CrawlExecutionId = [], np_JobExecutionId = [],
            np_CollectionRef = None, np_ReplacementScript = None\<rparr>])"
    by (simp add: ex_new_def Do_step_def handle_new_def send_reply_def Let_def ex_sys1_def ex_sys0_def)
  have "w_heap w1 0 = ex_fetching"
    using calls_isolated [OF ex_sys1 w1, of 1 0]
    by (simp add: ex_sys1_simps ex_start_def addresses_def ex_new_def)
  with w1 show ?thesis by auto
qed

text \<open>The fetch ends while the call still holds the session.\<close>

lemma ex_released:
  "\<exists>s st. sys_reachable prefix_regexps plain_urls s \<and> sy_calls s 0 = Some st \<and> 0 \<in> addresses st
     \<and> sr_sessions (w_registry (sy_world s)) = [None, None]"
proof -
  obtain w1 rs where w1: "Do_step prefix_regexps plain_urls (ex_new 1) ex_start (sy_world ex_sys1)
      = (Again, \<lparr>do_sess = Some 0, do_req = None\<rparr>, w1, rs)"
    using ex_sys1_connect by blast
  let ?st = "\<lparr>do_sess = Some 0, do_req = None\<rparr> :: do_state"
  let ?s2 = "ex_sys1\<lparr>sy_world := w1, sy_calls := (sy_calls ex_sys1)(0 \<mapsto> ?st)\<rparr>"
  let ?sr = "\<lparr>sr_sessions = [None, None], sr_pool = [1], sr_wg = 0\<rparr> :: nat session_registry"
  let ?r = "(sy_run ?s2)\<lparr>rs_registry := ?sr, rs_fetching := remove1 1 (rs_fetching (sy_run ?s2))\<rparr>"
  let ?s3 = "?s2\<lparr>sy_run := ?r, sy_world := (sy_world ?s2)\<lparr>w_registry := rs_registry ?r\<rparr>\<rparr>"
  have "sys_reachable prefix_regexps plain_urls ?s2"
    using sys_next [OF ex_sys1 sys_message [OF ex_sys1_simps(5) w1]] by simp
  moreover have "run_step (\<lambda>_. Inl EOF) (sy_run ?s2) ?r"
    by (rule fetched) (simp_all add: ex_sys1_simps ex_used_def Registry_Release_def Let_def, simp add: ex_sys1_def)
  then have "sys_step prefix_regexps plain_urls ?s2 ?s3"
    by (rule sys_controller) (simp add: ex_sys1_def)
  ultimately have "sys_reachable prefix_regexps plain_urls ?s3" by (rule sys_next)
  then show ?thesis by (intro exI [of _ ?s3] exI [of _ ?st]) (simp add: addresses_def)
qed

theorem released_stays_released_witness:
  "\<exists>s. sys_reachable prefix_regexps plain_urls s \<and> (\<exists>st. sy_calls s 0 = Some st \<and> 0 \<in> addresses st)
     \<and> Registry_Get 1 (w_registry (sy_world s)) \<noteq> Ret (Some 0)"
proof -
  obtain s st where s: "sys_reachable prefix_regexps plain_urls s" "sy_calls s 0 = Some st"
    "0 \<in> addresses st" "sr_sessions (w_registry (sy_world s)) = [None, None]"
    using ex_released by blast
  have "\<forall>i. Registry_Get i (w_registry (sy_world s)) \<noteq> Ret (Some 0)"
    using s(4) by (auto simp: Registry_Get_def nth_Cons' split: if_splits)
  from released_stays_released [OF s(1-3) this, of s 1] s show ?thesis by blast
qed

end
