(* ===== verification/Live.thy ===== *)
theory Live
  imports System Settling_Events Settling_Fetch
begin

text \<open>
  The system with its settling pages: the controller, the calls of the proxies and the waits of
  the fetches over one heap and one clock. A fetch opens its page, waits for it on the session's
  wait group and timers while the messages of the proxies arrive, and closes it.
\<close>

section \<open>Open pages\<close>

text \<open>What the theory \<open>Settling\<close> keeps of a page besides its session and the clock.\<close>

record open_page =
  op_Idle :: int
  op_Total :: int
  op_phase :: settle_phase
  op_since :: int
  op_heard :: int
  op_matched :: bool

definition page_at :: "int \<Rightarrow> session \<Rightarrow> open_page \<Rightarrow> settling" where
  "page_at now s p = \<lparr>st_sess = s, st_clock = now, st_phase = op_phase p, st_since = op_since p,
     st_heard = op_heard p, st_matched = op_matched p\<rparr>"

definition page_of :: "int \<Rightarrow> int \<Rightarrow> settling \<Rightarrow> open_page" where
  "page_of maxIdle maxTotal st = \<lparr>op_Idle = maxIdle, op_Total = maxTotal, op_phase = st_phase st,
     op_since = st_since st, op_heard = st_heard st, op_matched = st_matched st\<rparr>"

lemma page_of [simp]:
  "page_at (st_clock st) (st_sess st) (page_of I T st) = st"
  "op_Idle (page_of I T st) = I" "op_Total (page_of I T st) = T" "op_phase (page_of I T st) = st_phase st"
  by (simp_all add: page_at_def page_of_def)

lemma page_at_fields [simp]:
  "st_sess (page_at now s p) = s" "st_clock (page_at now s p) = now" "st_phase (page_at now s p) = op_phase p"
  by (simp_all add: page_at_def)

text \<open>A page after steps of its own that do not end its wait, made while others act.\<close>

definition follows :: "int \<Rightarrow> session \<Rightarrow> open_page \<Rightarrow> session \<Rightarrow> open_page \<Rightarrow> bool" where
  "follows now s p s1 p1 \<longleftrightarrow> op_Idle p1 = op_Idle p \<and> op_Total p1 = op_Total p \<and> op_phase p1 = op_phase p
     \<and> settle_step\<^sup>*\<^sup>* (page_at now s p) (page_at now s1 p1)"

record live =
  lv_sys :: system
  lv_clock :: int
  lv_pages :: "nat \<Rightarrow> open_page option"

text \<open>The pages after a step of the system that changes their sessions.\<close>

definition pages_follow :: "live \<Rightarrow> world \<Rightarrow> (nat \<Rightarrow> open_page option) \<Rightarrow> bool" where
  "pages_follow s w pages \<longleftrightarrow>
     (\<forall>a. case lv_pages s a of
        None \<Rightarrow> pages a = None
      | Some p \<Rightarrow> (\<exists>p1. pages a = Some p1
          \<and> follows (lv_clock s) (w_heap (sy_world (lv_sys s)) a) p (w_heap w a) p1))"

text \<open>
  The steps: the clock; the system without touching a session that is in use; a message, which
  the open pages follow; a fetch that opens its page, takes a step of its wait, closes the page,
  or works on its session while the page is not open.
\<close>

inductive live_step :: "'re regexp_lib \<Rightarrow> 'u url_lib \<Rightarrow> live \<Rightarrow> live \<Rightarrow> bool"
  for rx :: "'re regexp_lib" and lib :: "'u url_lib" where
  lv_tick: "lv_clock s \<le> now \<Longrightarrow> live_step rx lib s (s\<lparr>lv_clock := now\<rparr>)"
| lv_system:
    "sys_step rx lib (lv_sys s) y
     \<Longrightarrow> \<forall>a < w_next (sy_world (lv_sys s)). w_heap (sy_world y) a = w_heap (sy_world (lv_sys s)) a
     \<Longrightarrow> live_step rx lib s (s\<lparr>lv_sys := y\<rparr>)"
| lv_message:
    "sy_calls (lv_sys s) c = Some st \<Longrightarrow> in_now inp = lv_clock s
     \<Longrightarrow> Do_step rx lib inp st (sy_world (lv_sys s)) = (out, st1, w1, rs) \<Longrightarrow> pages_follow s w1 pages
     \<Longrightarrow> live_step rx lib s (s\<lparr>lv_pages := pages, lv_sys := (lv_sys s)\<lparr>sy_world := w1,
           sy_calls := (sy_calls (lv_sys s))(c := (if out = Again then Some st1 else None))\<rparr>\<rparr>)"
| lv_open:
    "i \<in> set (rs_fetching (sy_run (lv_sys s)))
     \<Longrightarrow> Registry_Get (int i) (w_registry (sy_world (lv_sys s))) = Ret (Some a)
     \<Longrightarrow> identity sess = identity (w_heap (sy_world (lv_sys s)) a)
     \<Longrightarrow> set_up maxIdle maxTotal sess \<Longrightarrow> 0 \<le> maxIdle
     \<Longrightarrow> live_step rx lib s (s\<lparr>lv_sys := (lv_sys s)\<lparr>sy_world := set_session a sess (sy_world (lv_sys s))\<rparr>,
           lv_pages := (lv_pages s)(a \<mapsto> \<lparr>op_Idle = maxIdle, op_Total = maxTotal, op_phase = Loading,
              op_since = lv_clock s, op_heard = lv_clock s, op_matched = False\<rparr>)\<rparr>)"
| lv_page:
    "i \<in> set (rs_fetching (sy_run (lv_sys s)))
     \<Longrightarrow> Registry_Get (int i) (w_registry (sy_world (lv_sys s))) = Ret (Some a)
     \<Longrightarrow> lv_pages s a = Some p
     \<Longrightarrow> settle_step (page_at (lv_clock s) (w_heap (sy_world (lv_sys s)) a) p) (page_at (lv_clock s) sess p1)
     \<Longrightarrow> op_Idle p1 = op_Idle p \<Longrightarrow> op_Total p1 = op_Total p
     \<Longrightarrow> live_step rx lib s (s\<lparr>lv_sys := (lv_sys s)\<lparr>sy_world := set_session a sess (sy_world (lv_sys s))\<rparr>,
           lv_pages := (lv_pages s)(a \<mapsto> p1)\<rparr>)"
| lv_close: "live_step rx lib s (s\<lparr>lv_pages := (lv_pages s)(a := None)\<rparr>)"
| lv_fetch:
    "i \<in> set (rs_fetching (sy_run (lv_sys s)))
     \<Longrightarrow> Registry_Get (int i) (w_registry (sy_world (lv_sys s))) = Ret (Some a)
     \<Longrightarrow> lv_pages s a = None \<Longrightarrow> identity sess = identity (w_heap (sy_world (lv_sys s)) a)
     \<Longrightarrow> live_step rx lib s (s\<lparr>lv_sys := (lv_sys s)\<lparr>sy_world := set_session a sess (sy_world (lv_sys s))\<rparr>\<rparr>)"

definition live_start :: "system \<Rightarrow> int \<Rightarrow> live" where
  "live_start y now = \<lparr>lv_sys = y, lv_clock = now, lv_pages = (\<lambda>a. None)\<rparr>"

inductive live_reachable :: "'re regexp_lib \<Rightarrow> 'u url_lib \<Rightarrow> live \<Rightarrow> bool"
  for rx :: "'re regexp_lib" and lib :: "'u url_lib" where
  lv_init: "sys_reachable rx lib y \<Longrightarrow> live_reachable rx lib (live_start y now)"
| lv_next: "live_reachable rx lib s \<Longrightarrow> live_step rx lib s s' \<Longrightarrow> live_reachable rx lib s'"

section \<open>The invariant\<close>

definition live_inv :: "'re regexp_lib \<Rightarrow> 'u url_lib \<Rightarrow> live \<Rightarrow> bool" where
  "live_inv rx lib s \<longleftrightarrow> sys_reachable rx lib (lv_sys s)
     \<and> (\<forall>a p. lv_pages s a = Some p \<longrightarrow> a < w_next (sy_world (lv_sys s))
          \<and> settle_reachable (op_Idle p) (op_Total p)
              (page_at (lv_clock s) (w_heap (sy_world (lv_sys s)) a) p))"

lemma page_event_identity: "page_event s s1 \<Longrightarrow> identity s1 = identity s"
  by (cases rule: page_event.cases, assumption)
    (auto simp: identity_def AbortFetch_def Let_def split: option.splits prod.splits)

lemma settle_step_identity: "settle_step s s' \<Longrightarrow> identity (st_sess s') = identity (st_sess s)"
  by (cases rule: settle_step.cases, assumption)
    (auto simp: page_event_identity dest: same_identity_Notify [unfolded same_identity_def], auto simp: identity_def)

lemma open_address:
  "sys_reachable rx lib y \<Longrightarrow> Registry_Get (int i) (w_registry (sy_world y)) = Ret (Some a)
     \<Longrightarrow> a < w_next (sy_world y)"
  using registered_slot [of rx lib y i a] by (simp add: Registry_Get_Some)

lemma sys_step_next:
  assumes "sys_reachable rx lib y" and "sys_step rx lib y y'"
  shows "w_next (sy_world y) \<le> w_next (sy_world y')"
  using assms(2)
proof cases
  case (sys_acquire ctxErr res sr)
  then show ?thesis
    using installed_frame [of lib "sy_world y" ctxErr "rs_registry (sy_run y)" res sr] by simp
next
  case (sys_message c st inp out st1 w1 rs)
  then show ?thesis using Do_step_ids [OF sys_message(3)] by simp
qed (simp_all add: set_session_def)

lemma live_invI:
  assumes "sys_reachable rx lib (lv_sys s')"
    and "\<And>a p. lv_pages s' a = Some p \<Longrightarrow> a < w_next (sy_world (lv_sys s'))
      \<and> settle_reachable (op_Idle p) (op_Total p) (page_at (lv_clock s') (w_heap (sy_world (lv_sys s')) a) p)"
  shows "live_inv rx lib s'"
  using assms by (simp add: live_inv_def)

lemma tick_page: "settle_reachable I T (page_at now s p) \<Longrightarrow> now \<le> now1 \<Longrightarrow> settle_reachable I T (page_at now1 s p)"
  using settle_next [of I T "page_at now s p" "page_at now1 s p"] st_tick [of "page_at now s p" now1]
  by (simp add: page_at_def)

lemma sys_message_step:
  "sy_calls y c = Some st \<Longrightarrow> Do_step rx lib inp st (sy_world y) = (out, st1, w1, rs) \<Longrightarrow>
   sys_reachable rx lib y \<Longrightarrow> sys_reachable rx lib (y\<lparr>sy_world := w1,
     sy_calls := (sy_calls y)(c := (if out = Again then Some st1 else None))\<rparr>)"
  by (erule sys_next, rule sys_message)

lemma live_inv_step:
  assumes "live_inv rx lib s" and "live_step rx lib s s'"
  shows "live_inv rx lib s'"
proof -
  let ?w = "sy_world (lv_sys s)"
  have sys: "sys_reachable rx lib (lv_sys s)"
    and pages: "\<And>a p. lv_pages s a = Some p \<Longrightarrow> a < w_next ?w
      \<and> settle_reachable (op_Idle p) (op_Total p) (page_at (lv_clock s) (w_heap ?w a) p)"
    using assms(1) by (auto simp: live_inv_def)
  from assms(2) show ?thesis
  proof cases
    case (lv_tick now)
    show ?thesis by (rule live_invI) (use lv_tick sys pages in \<open>auto intro: tick_page\<close>)
  next
    case (lv_system y)
    show ?thesis
      by (rule live_invI)
        (use lv_system sys_next [OF sys lv_system(2)] sys_step_next [OF sys lv_system(2)] pages in fastforce)+
  next
    case (lv_message c st inp out st1 w1 rs pages')
    show ?thesis
    proof (rule live_invI)
      show "sys_reachable rx lib (lv_sys s')"
        using sys_message_step [OF lv_message(2,4) sys] by (simp add: lv_message(1))
      fix a p1 assume "lv_pages s' a = Some p1"
      then obtain p where p: "lv_pages s a = Some p" "follows (lv_clock s) (w_heap ?w a) p (w_heap w1 a) p1"
        using lv_message(1,5) by (auto simp: pages_follow_def split: option.splits dest!: spec [of _ a])
      moreover have "w_next ?w \<le> w_next w1" using Do_step_ids [OF lv_message(4)] by (elim conjE)
      ultimately show "a < w_next (sy_world (lv_sys s'))
          \<and> settle_reachable (op_Idle p1) (op_Total p1) (page_at (lv_clock s') (w_heap (sy_world (lv_sys s')) a) p1)"
        using pages [OF p(1)] settle_reachable_steps [of _ _ "op_Idle p" "op_Total p"]
        by (auto simp: lv_message(1) follows_def)
    qed
  next
    case (lv_open i a sess maxIdle maxTotal)
    have "sys_reachable rx lib (lv_sys s')"
      using sys_next [OF sys sys_fetch [OF lv_open(2,3,4)]] by (simp add: lv_open(1))
    moreover note settle_init [OF lv_open(5,6), of "lv_clock s"]
    ultimately show ?thesis
      using pages open_address [OF sys lv_open(3)]
      by (intro live_invI) (auto simp: lv_open(1) set_session_def page_at_def split: if_splits)
  next
    case (lv_page i a p sess p1)
    have "identity sess = identity (w_heap ?w a)" using settle_step_identity [OF lv_page(5)] by simp
    then have "sys_reachable rx lib (lv_sys s')"
      using sys_next [OF sys sys_fetch [OF lv_page(2,3)]] by (simp add: lv_page(1))
    moreover have "settle_reachable (op_Idle p1) (op_Total p1) (page_at (lv_clock s) sess p1)"
      using pages [OF lv_page(4)] settle_next [OF _ lv_page(5)] lv_page(6,7) by simp
    ultimately show ?thesis
      using pages open_address [OF sys lv_page(3)]
      by (intro live_invI) (auto simp: lv_page(1) set_session_def split: if_splits)
  next
    case (lv_close a)
    then show ?thesis using sys pages by (intro live_invI) (auto split: if_splits)
  next
    case (lv_fetch i a sess)
    have "sys_reachable rx lib (lv_sys s')"
      using sys_next [OF sys sys_fetch [OF lv_fetch(2,3,5)]] by (simp add: lv_fetch(1))
    then show ?thesis
      using pages lv_fetch(4) by (intro live_invI) (auto simp: lv_fetch(1) set_session_def split: if_splits)
  qed
qed

lemma live_inv: "live_reachable rx lib s \<Longrightarrow> live_inv rx lib s"
proof (induction rule: live_reachable.induct)
  case (lv_init y now)
  then show ?case by (simp add: live_inv_def live_start_def)
qed (rule live_inv_step)

section \<open>Properties\<close>

lemma update_request_page:
  assumes "settle_reachable I T (page_at now (w_heap w a) p)"
  shows "settle_reachable I T (page_at now (w_heap (update_request q f w) a) p)"
proof (cases "fst q = a \<and> ses_Requests (w_heap w a) \<noteq> None")
  case True
  then obtain r reqs where "ses_Requests (w_heap w a) = Some r"
    "w_heap (update_request q f w) a = (w_heap w a)\<lparr>ses_Requests := Some (r\<lparr>rr_requests := reqs\<rparr>)\<rparr>"
    by (auto simp: update_request_def set_session_def Let_def)
  then have "settle_step (page_at now (w_heap w a) p) (page_at now (w_heap (update_request q f w) a) p)"
    using requests_step [of "page_at now (w_heap w a) p" r reqs] by (simp add: page_at_def)
  with assms show ?thesis by (rule settle_next)
next
  case False
  then have "w_heap (update_request q f w) a = w_heap w a"
    by (auto simp: update_request_def set_session_def Let_def split: option.splits)
  with assms show ?thesis by simp
qed

lemma pages_follow_exist:
  assumes "live_inv rx lib s" and "Do_step rx lib inp st (sy_world (lv_sys s)) = (out, st1, w1, rs)"
    and "in_now inp = lv_clock s"
  shows "\<exists>pages. pages_follow s w1 pages"
proof -
  let ?w = "sy_world (lv_sys s)"
  have one: "\<exists>p1. follows (lv_clock s) (w_heap ?w a) p (w_heap w1 a) p1" if "lv_pages s a = Some p" for a p
  proof -
    have "a < w_next ?w" using assms(1) that by (simp add: live_inv_def)
    from messages_are_settle_steps [OF assms(2) this, of "page_at (lv_clock s) (w_heap ?w a) p"] assms(3)
    obtain q where "settle_step\<^sup>*\<^sup>* (page_at (lv_clock s) (w_heap ?w a) p) q" "st_sess q = w_heap w1 a"
      "st_phase q = op_phase p" "st_clock q = lv_clock s"
      by auto
    then have "follows (lv_clock s) (w_heap ?w a) p (w_heap w1 a) (page_of (op_Idle p) (op_Total p) q)"
      unfolding follows_def using page_of(1) [of q "op_Idle p" "op_Total p"] by simp
    then show ?thesis ..
  qed
  define pages where "pages a = (case lv_pages s a of None \<Rightarrow> None
    | Some p \<Rightarrow> Some (SOME p1. follows (lv_clock s) (w_heap ?w a) p (w_heap w1 a) p1))" for a
  have "pages_follow s w1 pages"
    unfolding pages_follow_def
  proof (intro allI)
    fix a
    show "case lv_pages s a of None \<Rightarrow> pages a = None
      | Some p \<Rightarrow> (\<exists>p1. pages a = Some p1 \<and> follows (lv_clock s) (w_heap ?w a) p (w_heap w1 a) p1)"
      using one [of a] by (auto simp: pages_def split: option.splits intro: someI_ex)
  qed
  then show ?thesis by (intro exI [of _ pages])
qed

text \<open>
  C18 (refinement). Along every run of the whole system each open page runs as the waits of \<open>Fetch\<close>
  do: its session, where the controller, the calls and the other fetches have left it, is that
  of a state a settling page can reach with the clock of the system. And the open pages never
  hold the proxies up: any message a call may get is a step of the system, after which every
  page is in the phase it was in.
\<close>

theorem live_pages_settle:
  assumes "live_reachable rx lib s"
  shows "sys_reachable rx lib (lv_sys s)
    \<and> (\<forall>a p. lv_pages s a = Some p \<longrightarrow> settle_reachable (op_Idle p) (op_Total p)
          (page_at (lv_clock s) (w_heap (sy_world (lv_sys s)) a) p))
    \<and> (\<forall>c st inp out st1 w1 rs. sy_calls (lv_sys s) c = Some st \<and> in_now inp = lv_clock s
         \<and> Do_step rx lib inp st (sy_world (lv_sys s)) = (out, st1, w1, rs)
         \<longrightarrow> (\<exists>s'. live_step rx lib s s' \<and> sy_world (lv_sys s') = w1 \<and> lv_clock s' = lv_clock s
               \<and> (\<forall>a. map_option op_phase (lv_pages s' a) = map_option op_phase (lv_pages s a))))"
proof -
  have inv: "live_inv rx lib s" by (rule live_inv [OF assms])
  have "\<exists>s'. live_step rx lib s s' \<and> sy_world (lv_sys s') = w1 \<and> lv_clock s' = lv_clock s
      \<and> (\<forall>a. map_option op_phase (lv_pages s' a) = map_option op_phase (lv_pages s a))"
    if c: "sy_calls (lv_sys s) c = Some st" "in_now inp = lv_clock s"
      and run: "Do_step rx lib inp st (sy_world (lv_sys s)) = (out, st1, w1, rs)" for c st inp out st1 w1 rs
  proof -
    obtain pages where pages: "pages_follow s w1 pages" using pages_follow_exist [OF inv run c(2)] ..
    have "map_option op_phase (pages a) = map_option op_phase (lv_pages s a)" for a
      using pages by (auto simp: pages_follow_def follows_def split: option.splits dest!: spec [of _ a])
    then show ?thesis
      using lv_message [OF c run pages] by (intro exI conjI allI) (assumption, simp_all)
  qed
  then show ?thesis using inv by (auto simp: live_inv_def)
qed

text \<open>
  C19 (safety). A proxy is not told off about an open page: when its call holds a request of a
  session whose page is open, a notification, or a completion with a crawl log that does not come
  from the cache, is accepted and the call goes on, whatever the page is waiting for.
\<close>

theorem open_page_accepts:
  assumes "live_reachable rx lib s" and "lv_pages s a = Some p"
    and "do_sess st = Some a" and "do_req st = Some q"
    and "in_request inp = DoNotify activity \<or> in_request inp = DoCompleted False (Some cl)"
  shows "fst (Do_step rx lib inp st (sy_world (lv_sys s))) = Again"
proof -
  let ?w = "sy_world (lv_sys s)"
  have page: "settle_reachable (op_Idle p) (op_Total p) (page_at (lv_clock s) (w_heap ?w a) p)"
    using live_inv [OF assms(1)] assms(2) by (simp add: live_inv_def)
  have notify: "fst (then_notify inp a i st w (\<lambda>st1 w1. (Again, st1, w1, []))) = Again"
    if "settle_reachable (op_Idle p) (op_Total p) (page_at (lv_clock s) (w_heap w a) p)" for i w
    using reachable_notify [OF that, of "in_now inp" i]
    by (cases "Session_Notify (in_now inp) i (w_heap w a)") (simp add: then_notify_def)
  have "fst (completed_finish inp False q st (update_request q f ?w)) = Again" for f
    using notify [OF update_request_page [OF update_request_page [OF page]]] assms(3)
    by (simp add: completed_finish_def Let_def)
  then show ?thesis
    using assms(3-5) notify [OF page] by (auto simp: Do_step_def handle_notify_def handle_completed_def Let_def)
qed

section \<open>An example\<close>

text \<open>The fetch of session 1 opens its page, idle for 100 and at most 500 in all, at time 7.\<close>

definition ex_page :: session where
  "ex_page = ex_fetching\<lparr>ses_ctx := Some False, ses_loadCtx := Some False,
     ses_Requests := Some (NewRequestRegistry NewWaitGroup),
     ses_netActivityTimer := Some (NewCompletionTimer 1000000000 500),
     ses_timer := Some (NewCompletionTimer 100 500)\<rparr>"

definition ex_opened :: open_page where
  "ex_opened = \<lparr>op_Idle = 100, op_Total = 500, op_phase = Loading, op_since = 7, op_heard = 7,
     op_matched = False\<rparr>"

definition ex_live :: live where
  "ex_live = \<lparr>lv_sys = ex_sys1\<lparr>sy_world := set_session 0 ex_page (sy_world ex_sys1)\<rparr>, lv_clock = 7,
     lv_pages = [0 \<mapsto> ex_opened]\<rparr>"

lemma ex_live: "live_reachable prefix_regexps plain_urls ex_live"
proof -
  have "live_step prefix_regexps plain_urls (live_start ex_sys1 7) ex_live"
    using lv_open [of 1 "live_start ex_sys1 7" 0 ex_page 100 500]
    by (simp add: live_start_def ex_live_def ex_opened_def ex_sys1_simps, simp add: ex_sys1_def ex_page_def
        identity_def set_up_def)
  with lv_init [OF ex_sys1] show ?thesis by (rule lv_next)
qed

theorem live_pages_settle_witness:
  "settle_reachable 100 500 (page_at 7 ex_page ex_opened)"
  using live_pages_settle [OF ex_live, THEN conjunct2, THEN conjunct1, THEN spec [of _ 0], THEN spec [of _ ex_opened]]
  by (simp add: ex_live_def ex_opened_def set_session_def)

theorem open_page_accepts_witness:
  "fst (Do_step prefix_regexps plain_urls (ex_completed False) \<lparr>do_sess = Some 0, do_req = Some (0, 0)\<rparr>
     (sy_world (lv_sys ex_live))) = Again"
  by (rule open_page_accepts [OF ex_live, of 0 ex_opened]) (simp_all add: ex_live_def ex_completed_def)

end
