(* ===== verification/Metering.thy ===== *)
theory Metering
  imports Controller
begin

text \<open>
  \<^verbatim>\<open>metrics/metrics.go\<close>: the metrics of the browser controller and the updates the other
  packages make to them: the main loop and its fetches in \<^verbatim>\<open>controller/browsercontroller.go\<close>, the
  registry in \<^verbatim>\<open>session/registry.go\<close>, the reports in \<^verbatim>\<open>frontier/frontier.go\<close>.
\<close>

section \<open>Declarations\<close>

text \<open>The bounds of the buckets of a histogram are in thousandths.\<close>

datatype metric_kind = Gauge | Counter | CounterVec "string list" | Histogram "int list"

record metric_opts =
  mo_Namespace :: string
  mo_Subsystem :: string
  mo_Name :: string
  mo_Help :: string
  mo_Kind :: metric_kind

definition metricsNs :: string where "metricsNs = ''veidemann''"

definition metricsSubsystem :: string where "metricsSubsystem = ''harvester''"

definition ActiveBrowserSessions :: metric_opts where
  "ActiveBrowserSessions = \<lparr>mo_Namespace = metricsNs, mo_Subsystem = metricsSubsystem,
     mo_Name = ''active_browser_sessions'', mo_Help = ''Active browser sessions'', mo_Kind = Gauge\<rparr>"

definition BrowserSessions :: metric_opts where
  "BrowserSessions = \<lparr>mo_Namespace = metricsNs, mo_Subsystem = metricsSubsystem,
     mo_Name = ''browser_sessions'', mo_Help = ''Available browser sessions'', mo_Kind = Gauge\<rparr>"

definition PagesTotal :: metric_opts where
  "PagesTotal = \<lparr>mo_Namespace = metricsNs, mo_Subsystem = metricsSubsystem,
     mo_Name = ''pages_total'', mo_Help = ''Total pages processed'', mo_Kind = Counter\<rparr>"

definition PagesFailedTotal :: metric_opts where
  "PagesFailedTotal = \<lparr>mo_Namespace = metricsNs, mo_Subsystem = metricsSubsystem,
     mo_Name = ''pages_failed_total'', mo_Help = ''Total pages failed processing'',
     mo_Kind = CounterVec [''code'']\<rparr>"

definition Buckets :: "int list" where
  "Buckets = [5, 10, 25, 50, 75, 100, 250, 500, 750, 1000, 2500, 5000, 7500, 10000, 20000, 30000,
     40000, 50000, 60000, 120000, 180000, 240000]"

definition PageFetchSeconds :: metric_opts where
  "PageFetchSeconds = \<lparr>mo_Namespace = metricsNs, mo_Subsystem = metricsSubsystem,
     mo_Name = ''pages_fetch_seconds'', mo_Help = ''Time for fetching a complete page in seconds'',
     mo_Kind = Histogram Buckets\<rparr>"

definition all_metrics :: "metric_opts list" where
  "all_metrics = [ActiveBrowserSessions, BrowserSessions, PagesTotal, PagesFailedTotal, PageFetchSeconds]"

lemmas metric_defs [step_defs] =
  ActiveBrowserSessions_def BrowserSessions_def PagesTotal_def PagesFailedTotal_def
  PageFetchSeconds_def all_metrics_def

text \<open>
  \<open>promauto\<close> panics when it is given a metric twice, or a histogram whose buckets are not
  increasing; neither happens.
\<close>

lemma metrics_register:
  "distinct (map mo_Name all_metrics)
   \<and> (\<forall>m \<in> set all_metrics. \<forall>bs. mo_Kind m = Histogram bs \<longrightarrow> sorted_wrt (<) bs)"
  by (simp add: metric_defs Buckets_def)

section \<open>Reports\<close>

text \<open>The counters and the observations, in seconds, of the histogram.\<close>

record page_metrics =
  pm_PagesTotal :: nat
  pm_PagesFailed :: "string \<Rightarrow> nat"
  pm_FetchSeconds :: "int list"

definition no_pages :: page_metrics where
  "no_pages = \<lparr>pm_PagesTotal = 0, pm_PagesFailed = (\<lambda>_. 0), pm_FetchSeconds = []\<rparr>"

definition failure_code :: "(error \<Rightarrow> string) \<Rightarrow> error \<Rightarrow> string" where
  "failure_code err_text e = Itoa (sint (err_Code (CommonsError err_text e)))"

text \<open>
  What \<open>PageCompleted\<close> does to the metrics, given the error of opening its stream. The page is
  counted by a deferred call, whatever happens. The fetch time is divided as an integer.
\<close>

definition PageCompleted_metrics ::
  "error option \<Rightarrow> (error \<Rightarrow> string) \<Rightarrow> render_result option \<Rightarrow> error option \<Rightarrow> page_metrics \<Rightarrow> page_metrics" where
  "PageCompleted_metrics openErr err_text renderResult fetchErr m =
     (let m1 =
        (if openErr \<noteq> None then m
         else case fetchErr of
           Some e \<Rightarrow>
             (let code = failure_code err_text e
              in m\<lparr>pm_PagesFailed := (pm_PagesFailed m)(code := Suc (pm_PagesFailed m code))\<rparr>)
         | None \<Rightarrow>
             (case renderResult of
                None \<Rightarrow> m
              | Some res \<Rightarrow>
                  if 0 < sint (res_PageFetchTimeMs res)
                  then m\<lparr>pm_FetchSeconds := pm_FetchSeconds m @ [sint (res_PageFetchTimeMs res) div 1000]\<rparr>
                  else m))
      in m1\<lparr>pm_PagesTotal := Suc (pm_PagesTotal m1)\<rparr>)"

definition metered_PageCompleted ::
  "('s, page_harvest, 'r) client_stream \<Rightarrow> (error \<Rightarrow> string) \<Rightarrow> page_harvest_spec \<Rightarrow>
     render_result option \<Rightarrow> error option \<Rightarrow> 's \<times> page_metrics \<Rightarrow> error option go \<times> 's \<times> page_metrics" where
  "metered_PageCompleted st err_text phs renderResult fetchErr sm =
     (let (r, s1) = PageCompleted st err_text phs renderResult fetchErr (fst sm)
      in (r, s1, PageCompleted_metrics (fst (stream_Open st (fst sm))) err_text renderResult fetchErr (snd sm)))"

text \<open>A report: the error of opening its stream, the result and the error of the fetch.\<close>

type_synonym report = "error option \<times> render_result option \<times> error option"

definition count_reports :: "(error \<Rightarrow> string) \<Rightarrow> report list \<Rightarrow> page_metrics" where
  "count_reports err_text reports =
     fold (\<lambda>(openErr, r, e). PageCompleted_metrics openErr err_text r e) reports no_pages"

definition reported_error :: "report \<Rightarrow> error option" where
  "reported_error rep = (case rep of (openErr, r, e) \<Rightarrow> if openErr = None then e else None)"

definition reported_time :: "report \<Rightarrow> int list" where
  "reported_time rep =
     (case rep of (None, Some res, None) \<Rightarrow>
        if 0 < sint (res_PageFetchTimeMs res) then [sint (res_PageFetchTimeMs res)] else []
      | _ \<Rightarrow> [])"

definition fetch_times :: "report list \<Rightarrow> int list" where
  "fetch_times reports = concat (map reported_time reports)"

lemma reported_simps:
  "pm_PagesTotal (PageCompleted_metrics openErr err_text r e m) = Suc (pm_PagesTotal m)"
  "pm_PagesFailed (PageCompleted_metrics openErr err_text r e m) c
     = pm_PagesFailed m c + (if map_option (failure_code err_text) (reported_error (openErr, r, e)) = Some c then 1 else 0)"
  "pm_FetchSeconds (PageCompleted_metrics openErr err_text r e m)
     = pm_FetchSeconds m @ map (\<lambda>ms. ms div 1000) (reported_time (openErr, r, e))"
  by (auto simp: PageCompleted_metrics_def reported_error_def reported_time_def Let_def split: option.splits)

lemma fold_reports:
  fixes err_text :: "error \<Rightarrow> string"
  defines "f \<equiv> \<lambda>(openErr, r, e). PageCompleted_metrics openErr err_text r e"
  shows "pm_PagesTotal (fold f reports m) = pm_PagesTotal m + length reports"
    "pm_PagesFailed (fold f reports m) c = pm_PagesFailed m c
       + length (filter (\<lambda>rep. map_option (failure_code err_text) (reported_error rep) = Some c) reports)"
    "pm_FetchSeconds (fold f reports m)
       = pm_FetchSeconds m @ map (\<lambda>ms. ms div 1000) (concat (map reported_time reports))"
  unfolding f_def
  by (induction reports arbitrary: m) (auto simp: reported_simps split: prod.splits)

section \<open>What the page metrics say\<close>

text \<open>The value of a bucket: how many observations are at most its bound.\<close>

definition bucket :: "int list \<Rightarrow> int \<Rightarrow> nat" where
  "bucket observations le = length (filter (\<lambda>sec. 1000 * sec \<le> le) observations)"

lemma whole_seconds:
  assumes "0 < ms" and "0 \<le> le" and "le < 1000"
  shows "ms - ms mod 1000 \<le> le \<longleftrightarrow> ms < (1000 :: int)"
proof (cases "ms < 1000")
  case False
  then have "0 < ms div 1000" by (simp add: pos_imp_zdiv_pos_iff)
  with False assms(3) show ?thesis unfolding minus_mod_eq_mult_div by simp
qed (use assms in simp)

text \<open>
  C21 (functional). After any reports the pages are all counted, the failures by their codes. A
  bucket of the fetch times counts the pages by their whole seconds only: the buckets below one
  second, of which there are nine, all hold the number of pages that took less than a second.
\<close>

theorem page_metrics_count:
  "pm_PagesTotal (count_reports err_text reports) = length reports
   \<and> pm_PagesFailed (count_reports err_text reports) code
     = length (filter (\<lambda>rep. map_option (failure_code err_text) (reported_error rep) = Some code) reports)
   \<and> bucket (pm_FetchSeconds (count_reports err_text reports)) le
     = length (filter (\<lambda>ms. ms - ms mod 1000 \<le> le) (fetch_times reports))
   \<and> (le \<in> set (take 9 Buckets) \<longrightarrow> bucket (pm_FetchSeconds (count_reports err_text reports)) le
        = length (filter (\<lambda>ms. ms < 1000) (fetch_times reports)))"
proof -
  have b: "bucket (pm_FetchSeconds (count_reports err_text reports)) le
      = length (filter (\<lambda>ms. ms - ms mod 1000 \<le> le) (fetch_times reports))"
    unfolding count_reports_def fold_reports(3)
    by (simp add: bucket_def no_pages_def filter_map comp_def minus_mod_eq_mult_div fetch_times_def)
  have "0 < ms" if "ms \<in> set (fetch_times reports)" for ms
    using that by (auto simp: fetch_times_def reported_time_def split: option.splits if_splits)
  moreover have "0 \<le> le \<and> le < 1000" if "le \<in> set (take 9 Buckets)"
    using that by (auto simp: Buckets_def)
  ultimately have "filter (\<lambda>ms. ms - ms mod 1000 \<le> le) (fetch_times reports)
      = filter (\<lambda>ms. ms < 1000) (fetch_times reports)" if "le \<in> set (take 9 Buckets)"
    using that whole_seconds by (intro filter_cong) blast+
  then show ?thesis
    using b by (simp add: count_reports_def fold_reports(1,2) no_pages_def)
qed

text \<open>A page that took 900 milliseconds is counted as one of at most 5.\<close>

definition timed :: "int64 \<Rightarrow> report" where
  "timed ms = (None, Some \<lparr>res_BytesDownloaded = 0, res_UriCount = 1, res_Outlinks = [], res_Error = None,
     res_PageFetchTimeMs = ms\<rparr>, None)"

theorem page_metrics_count_witness:
  "bucket (pm_FetchSeconds (count_reports (\<lambda>_. []) [timed 900, timed 1999])) 5 = 1"
  using page_metrics_count [of "\<lambda>_. []" "[timed 900, timed 1999]" "''0''" 5]
  by (simp add: Buckets_def timed_def reported_time_def fetch_times_def)

section \<open>Gauges\<close>

text \<open>
  The main loop with the two gauges. The goroutine of a page adds one when it starts, and its
  deferred calls take one away and then release the session; \<open>ms_counted\<close> holds those between
  the two, \<open>ms_ending\<close> those about to release. The first deferred call of \<open>Run\<close> sets both
  gauges to zero after its wait.
\<close>

record 's metered =
  ms_run :: "'s run_state"
  ms_Active :: int
  ms_Sessions :: int
  ms_counted :: "nat list"
  ms_ending :: "nat list"

definition reset_gauges :: "'s metered \<Rightarrow> 's metered" where
  "reset_gauges m = m\<lparr>ms_Active := 0, ms_Sessions := 0\<rparr>"

text \<open>The steps of \<open>Run\<close> that touch neither the gauges nor a fetch that ends.\<close>

definition plain :: "'s run_state \<Rightarrow> 's run_state \<Rightarrow> bool" where
  "plain s s' \<longleftrightarrow> set (rs_fetching s) \<subseteq> set (rs_fetching s')
     \<and> (\<forall>e. rs_pc s = LoopReturned e \<longrightarrow> rs_pc s' = LoopReturned e)"

inductive metered_step :: "(nat \<Rightarrow> error + 's) \<Rightarrow> 's metered \<Rightarrow> 's metered \<Rightarrow> bool"
  for New :: "nat \<Rightarrow> error + 's" where
  mt_run: "run_step New (ms_run m) s \<Longrightarrow> plain (ms_run m) s \<Longrightarrow> metered_step New m (m\<lparr>ms_run := s\<rparr>)"
| mt_inc: "i \<in> set (rs_fetching (ms_run m)) \<Longrightarrow> i \<notin> set (ms_counted m) \<Longrightarrow> i \<notin> set (ms_ending m)
     \<Longrightarrow> metered_step New m (m\<lparr>ms_Active := ms_Active m + 1, ms_counted := i # ms_counted m\<rparr>)"
| mt_dec: "i \<in> set (ms_counted m)
     \<Longrightarrow> metered_step New m (m\<lparr>ms_Active := ms_Active m - 1, ms_counted := remove1 i (ms_counted m),
           ms_ending := i # ms_ending m\<rparr>)"
| mt_release: "i \<in> set (ms_ending m) \<Longrightarrow> Registry_Release i (rs_registry (ms_run m)) = (Ret True, sr)
     \<Longrightarrow> metered_step New m (m\<lparr>ms_ending := remove1 i (ms_ending m),
           ms_run := (ms_run m)\<lparr>rs_registry := sr, rs_fetching := remove1 i (rs_fetching (ms_run m))\<rparr>\<rparr>)"
| mt_close_wait: "rs_pc (ms_run m) = LoopReturned e \<Longrightarrow> CloseWait timeoutPassed (rs_registry (ms_run m)) \<noteq> []
     \<Longrightarrow> metered_step New m (reset_gauges (m\<lparr>ms_run := (ms_run m)\<lparr>rs_pc := ClosingServer e\<rparr>\<rparr>))"

inductive metered_reachable :: "int \<Rightarrow> 's metered \<Rightarrow> bool" for maxSessions :: int where
  mt_init: "NewRegistry maxSessions = Ret sr
     \<Longrightarrow> metered_reachable maxSessions \<lparr>ms_run = run_start (NewApiServer listenInterface listenPort) sr,
           ms_Active = 0, ms_Sessions = maxSessions, ms_counted = [], ms_ending = []\<rparr>"
| mt_next: "metered_reachable maxSessions m \<Longrightarrow> metered_step New m m' \<Longrightarrow> metered_reachable maxSessions m'"

text \<open>Until \<open>Run\<close> has done its first deferred call.\<close>

definition before_close :: "run_pc \<Rightarrow> bool" where
  "before_close pc \<longleftrightarrow> looping pc \<or> (\<exists>e. pc = LoopReturned e)"

definition gauge_inv :: "int \<Rightarrow> 's metered \<Rightarrow> bool" where
  "gauge_inv maxSessions m \<longleftrightarrow>
     run_reachable (ms_run m)
     \<and> int (length (sr_sessions (rs_registry (ms_run m)))) = maxSessions
     \<and> distinct (ms_counted m @ ms_ending m)
     \<and> set (ms_counted m @ ms_ending m) \<subseteq> set (rs_fetching (ms_run m))
     \<and> (before_close (rs_pc (ms_run m)) \<longrightarrow>
          ms_Active m = int (length (ms_counted m)) \<and> ms_Sessions m = maxSessions)"

lemma run_step_table:
  "run_step New s s' \<Longrightarrow> length (sr_sessions (rs_registry s')) = length (sr_sessions (rs_registry s))"
  by (cases rule: run_step.cases, assumption)
    (auto simp: GetNextAvailable_def Registry_Release_def Let_def split: option.splits list.splits sum.splits if_splits)

lemma pc_before_close [simp]:
  "before_close AtSelect" "before_close Acquiring" "before_close (GotSession i)" "before_close SendBackoff"
  "before_close BackingOff" "before_close (LoopReturned e)" "\<not> before_close (ClosingServer e)"
  "\<not> before_close (Exited x)"
  by (simp_all add: before_close_def looping_def)

lemma plain_before_close:
  "run_step New s s' \<Longrightarrow> plain s s' \<Longrightarrow> before_close (rs_pc s') \<Longrightarrow> before_close (rs_pc s)"
  by (cases rule: run_step.cases, assumption) (auto simp: plain_def)

lemma gauge_inv_step [inv_intros]:
  assumes "gauge_inv n m" and "metered_step New m m'"
  shows "gauge_inv n m'"
  using assms(2)
proof cases
  case (mt_run s)
  then show ?thesis
    using assms(1) run_next [OF _ mt_run(2)] run_step_table [OF mt_run(2)] plain_before_close [OF mt_run(2,3)]
    by (auto simp: gauge_inv_def plain_def)
next
  case (mt_inc i)
  then show ?thesis using assms(1) by (auto simp: gauge_inv_def)
next
  case (mt_dec i)
  have "length (remove1 i (ms_counted m)) = length (ms_counted m) - 1"
    using mt_dec(2) by (simp add: length_remove1)
  then have "int (length (remove1 i (ms_counted m))) = int (length (ms_counted m)) - 1"
    using length_pos_if_in_set [OF mt_dec(2)] by linarith
  moreover have "set (remove1 i (ms_counted m)) = set (ms_counted m) - {i}" "i \<notin> set (ms_ending m)"
    using assms(1) mt_dec(2) by (auto simp: gauge_inv_def)
  ultimately show ?thesis using assms(1) mt_dec by (auto simp: gauge_inv_def)
next
  case (mt_release i sr)
  have run: "run_reachable (ms_run m)" and i: "i \<in> set (rs_fetching (ms_run m))"
    and d: "distinct (ms_counted m @ ms_ending m)" and sub: "set (ms_counted m @ ms_ending m) \<subseteq> set (rs_fetching (ms_run m))"
    using assms(1) mt_release(2) by (auto simp: gauge_inv_def)
  have "distinct (rs_fetching (ms_run m))"
    using run_inv [OF run] by (auto simp: owner_inv_def held_def split: run_pc.splits)
  note step = fetched [OF i mt_release(3), of New]
  show ?thesis
    using assms(1) mt_release(1,2) run_next [OF run step] run_step_table [OF step] d sub
      \<open>distinct (rs_fetching (ms_run m))\<close>
    by (auto simp: gauge_inv_def)
next
  case (mt_close_wait e timeoutPassed)
  then show ?thesis
    using assms(1) run_next [OF _ close_wait [OF mt_close_wait(2,3), of New]]
    by (auto simp: gauge_inv_def reset_gauges_def)
qed

lemma gauge_reachable: "metered_reachable n m \<Longrightarrow> gauge_inv n m"
proof (induction rule: metered_reachable.induct)
  case (mt_init sr listenInterface listenPort)
  then show ?case
    using run_init [OF mt_init] by (auto simp: gauge_inv_def run_start_def NewRegistry_def split: if_splits)
qed (rule inv_intros)

text \<open>
  C20 (invariant). Until \<open>Run\<close> ends, the gauge of active sessions counts exactly the fetches that
  are between their two updates, all of them under way; it is never negative, and always below
  the gauge of available sessions, which one more session is never available of.
\<close>

theorem active_sessions_gauge:
  assumes "metered_reachable maxSessions m" and "before_close (rs_pc (ms_run m))"
  shows "ms_Active m = int (length (ms_counted m)) \<and> distinct (ms_counted m)
    \<and> set (ms_counted m) \<subseteq> set (rs_fetching (ms_run m)) \<and> 0 \<le> ms_Active m \<and> ms_Active m < ms_Sessions m"
proof -
  have inv: "gauge_inv maxSessions m" using gauge_reachable [OF assms(1)] .
  then have own: "owner_inv (ms_run m)" using run_inv by (auto simp: gauge_inv_def)
  let ?sr = "rs_registry (ms_run m)"
  have "set (rs_fetching (ms_run m)) \<subseteq> used ?sr"
    using own by (auto simp: owner_inv_def held_def split: run_pc.splits)
  then have sub: "set (ms_counted m) \<subseteq> {1..<length (sr_sessions ?sr)}"
    using inv own used_below [of ?sr] by (auto simp: gauge_inv_def owner_inv_def)
  moreover have "0 < length (sr_sessions ?sr)" using own by (auto simp: owner_inv_def pool_inv_def)
  moreover have "card (set (ms_counted m)) = length (ms_counted m)"
    using inv by (simp add: gauge_inv_def distinct_card)
  ultimately have "length (ms_counted m) < length (sr_sessions ?sr)"
    using card_mono [OF finite_atLeastLessThan sub]
    unfolding card_atLeastLessThan by linarith
  then show ?thesis using inv assms(2) by (auto simp: gauge_inv_def)
qed

section \<open>A page under way\<close>

text \<open>One session is taken, a page is fetched and counted; then \<open>Shutdown\<close> is called.\<close>

definition ex_counting :: "run_pc \<Rightarrow> error option list \<Rightarrow> unit metered" where
  "ex_counting pc msgs = \<lparr>ms_run = (run_start (NewApiServer [] 8080) ex_taken)
       \<lparr>rs_pc := pc, rs_fetching := [1], rs_done := msgs\<rparr>,
     ms_Active = 1, ms_Sessions = 2, ms_counted = [1], ms_ending = []\<rparr>"

lemma ex_metered: "metered_reachable 2 (ex_counting AtSelect [])"
proof -
  let ?New = "\<lambda>i :: nat. Inr () :: error + unit"
  let ?m = "\<lambda>sr pc fs. \<lparr>ms_run = (run_start (NewApiServer [] 8080) sr)\<lparr>rs_pc := pc, rs_fetching := fs\<rparr>,
     ms_Active = 0, ms_Sessions = 2, ms_counted = [], ms_ending = []\<rparr>"
  have step: "metered_reachable 2 (m\<lparr>ms_run := s\<rparr>)"
    if "metered_reachable 2 m" "run_step ?New (ms_run m) s" "plain (ms_run m) s" for m s
    using that by (intro mt_next [OF _ mt_run])
  have "metered_reachable 2 (?m ex_registry AtSelect [])"
    using mt_init [of 2 ex_registry "[]" 8080]
    by (simp add: NewRegistry_def ex_registry_def numeral_2_eq_2 run_start_def)
  then have "metered_reachable 2 (?m ex_registry Acquiring [])"
    using step [of "?m ex_registry AtSelect []" "ms_run (?m ex_registry Acquiring [])"]
      select_default [of "ms_run (?m ex_registry AtSelect [])" ?New]
    by (simp add: plain_def run_start_def)
  moreover have "GetNextAvailable ?New None (rs_registry (ms_run (?m ex_registry Acquiring [])))
      = (Some (Inr (1, ())), ex_taken)"
    by (simp add: GetNextAvailable_def run_start_def ex_registry_def ex_taken_def)
  ultimately have "metered_reachable 2 (?m ex_taken (GotSession 1) [])"
    using step [of "?m ex_registry Acquiring []" "ms_run (?m ex_taken (GotSession 1) [])"]
      run_step.acquire [of "ms_run (?m ex_registry Acquiring [])" None ?New]
    by (simp add: plain_def run_start_def acquired_def)
  then have "metered_reachable 2 (?m ex_taken AtSelect [1])"
    using step [of "?m ex_taken (GotSession 1) []" "ms_run (?m ex_taken AtSelect [1])"]
      got_page [of "ms_run (?m ex_taken (GotSession 1) [])" 1 ?New]
    by (simp add: plain_def run_start_def)
  from mt_next [OF this mt_inc [of 1]] show ?thesis by (simp add: ex_counting_def run_start_def)
qed

theorem active_sessions_gauge_witness:
  "ms_Active (ex_counting AtSelect []) < ms_Sessions (ex_counting AtSelect [])"
  using active_sessions_gauge [OF ex_metered] by (simp add: ex_counting_def)

text \<open>
  When the wait of \<open>Run\<close> times out with a page under way, the gauge is set to zero and then
  decreased once more.
\<close>

lemma active_gauge_negative:
  "\<exists>m :: unit metered. metered_reachable 2 m \<and> ms_Active m = - 1"
proof -
  let ?New = "\<lambda>i :: nat. Inr () :: error + unit"
  have step: "metered_reachable 2 (m\<lparr>ms_run := s\<rparr>)"
    if "metered_reachable 2 m" "run_step ?New (ms_run m) s" "plain (ms_run m) s" for m s
    using that by (intro mt_next [OF _ mt_run])
  have "metered_reachable 2 (ex_counting AtSelect [None])"
    using step [OF ex_metered, of "ms_run (ex_counting AtSelect [None])"]
      shutdown [of "ms_run (ex_counting AtSelect [])" ?New]
    by (simp add: ex_counting_def plain_def run_start_def)
  then have "metered_reachable 2 (ex_counting (LoopReturned None) [])"
    using step [of "ex_counting AtSelect [None]" "ms_run (ex_counting (LoopReturned None) [])"]
      select_done [of "ms_run (ex_counting AtSelect [None])" None "[]" ?New]
    by (simp add: ex_counting_def plain_def run_start_def)
  from mt_next [OF this mt_close_wait [of _ None True]]
  have "metered_reachable 2 (reset_gauges (ex_counting (ClosingServer None) []))"
    by (simp add: ex_counting_def CloseWait_def run_start_def)
  from mt_next [OF this mt_dec [of 1]]
  have "metered_reachable 2 ((ex_counting (ClosingServer None) [])
      \<lparr>ms_Active := - 1, ms_Sessions := 0, ms_counted := [], ms_ending := [1]\<rparr>)" (is "metered_reachable 2 ?m")
    by (simp add: ex_counting_def reset_gauges_def)
  moreover have "ms_Active ?m = - 1" by simp
  ultimately show ?thesis by blast
qed

end
