(* ===== verification/Test_Utilities.thy ===== *)
theory Test_Utilities
  imports Robots Screenshot
begin

text \<open>
  The mocks the tests use in place of services: \<^verbatim>\<open>testutil/robotsevaluator_mock.go\<close> and
  \<^verbatim>\<open>testutil/screenshotwriter_mock.go\<close>, with the interfaces they implement. A function that is
  not set is nil; those that are set act on a state \<open>'w\<close> of the world.
\<close>

section \<open>Interfaces\<close>

record 'w robots_evaluator =
  re_Connect :: "'w \<Rightarrow> error option go \<times> 'w"
  re_Close :: "'w \<Rightarrow> error option go \<times> 'w"
  re_IsAllowed :: "is_allowed_request \<Rightarrow> 'w \<Rightarrow> bool go \<times> 'w"

record 'w screenshot_writer =
  sw_Connect :: "'w \<Rightarrow> error option go \<times> 'w"
  sw_Close :: "'w \<Rightarrow> error option go \<times> 'w"
  sw_Write :: "string \<Rightarrow> metadata \<Rightarrow> 'w \<Rightarrow> error option go \<times> 'w"

section \<open>The mocks\<close>

record 'w robots_evaluator_mock =
  rem_ConnectFunc :: "('w \<Rightarrow> error option go \<times> 'w) option"
  rem_CloseFunc :: "('w \<Rightarrow> error option go \<times> 'w) option"
  rem_IsAllowedFunc :: "(is_allowed_request \<Rightarrow> 'w \<Rightarrow> bool go \<times> 'w) option"

definition RobotsMock_Connect :: "'w robots_evaluator_mock \<Rightarrow> 'w \<Rightarrow> error option go \<times> 'w" where
  "RobotsMock_Connect r w = (case rem_ConnectFunc r of Some f \<Rightarrow> f w | None \<Rightarrow> (Ret None, w))"

definition RobotsMock_Close :: "'w robots_evaluator_mock \<Rightarrow> 'w \<Rightarrow> error option go \<times> 'w" where
  "RobotsMock_Close r w = (case rem_CloseFunc r of Some f \<Rightarrow> f w | None \<Rightarrow> (Ret None, w))"

definition RobotsMock_IsAllowed ::
  "'w robots_evaluator_mock \<Rightarrow> is_allowed_request \<Rightarrow> 'w \<Rightarrow> bool go \<times> 'w" where
  "RobotsMock_IsAllowed r request w =
     (case rem_IsAllowedFunc r of Some f \<Rightarrow> f request w | None \<Rightarrow> (Ret True, w))"

record 'w screenshot_writer_mock =
  swm_ConnectFunc :: "('w \<Rightarrow> error option go \<times> 'w) option"
  swm_CloseFunc :: "('w \<Rightarrow> error option go \<times> 'w) option"
  swm_WriteFunc :: "(string \<Rightarrow> metadata \<Rightarrow> 'w \<Rightarrow> error option go \<times> 'w) option"

definition ScreenshotMock_Connect :: "'w screenshot_writer_mock \<Rightarrow> 'w \<Rightarrow> error option go \<times> 'w" where
  "ScreenshotMock_Connect s w = (case swm_ConnectFunc s of Some f \<Rightarrow> f w | None \<Rightarrow> (Ret None, w))"

definition ScreenshotMock_Close :: "'w screenshot_writer_mock \<Rightarrow> 'w \<Rightarrow> error option go \<times> 'w" where
  "ScreenshotMock_Close s w = (case swm_CloseFunc s of Some f \<Rightarrow> f w | None \<Rightarrow> (Ret None, w))"

definition ScreenshotMock_Write ::
  "'w screenshot_writer_mock \<Rightarrow> string \<Rightarrow> metadata \<Rightarrow> 'w \<Rightarrow> error option go \<times> 'w" where
  "ScreenshotMock_Write s d md w =
     (case swm_WriteFunc s of Some f \<Rightarrow> f d md w | None \<Rightarrow> (Ret None, w))"

definition robots_mock :: "'w robots_evaluator_mock \<Rightarrow> 'w robots_evaluator" where
  "robots_mock r = \<lparr>re_Connect = RobotsMock_Connect r, re_Close = RobotsMock_Close r,
     re_IsAllowed = RobotsMock_IsAllowed r\<rparr>"

definition screenshot_mock :: "'w screenshot_writer_mock \<Rightarrow> 'w screenshot_writer" where
  "screenshot_mock s = \<lparr>sw_Connect = ScreenshotMock_Connect s, sw_Close = ScreenshotMock_Close s,
     sw_Write = ScreenshotMock_Write s\<rparr>"

lemmas mock_defs [step_defs] =
  RobotsMock_Connect_def RobotsMock_Close_def RobotsMock_IsAllowed_def robots_mock_def
  ScreenshotMock_Connect_def ScreenshotMock_Close_def ScreenshotMock_Write_def screenshot_mock_def

section \<open>Mocks and the real clients\<close>

text \<open>
  A mock made of the operations of another implementation is that implementation, so a test
  can replace any part of a client and keep the rest.
\<close>

lemma robots_mock_of:
  "robots_mock \<lparr>rem_ConnectFunc = Some c, rem_CloseFunc = Some d, rem_IsAllowedFunc = Some f\<rparr>
     = \<lparr>re_Connect = c, re_Close = d, re_IsAllowed = f\<rparr>"
  by (simp add: mock_defs fun_eq_iff)

lemma screenshot_mock_of:
  "screenshot_mock \<lparr>swm_ConnectFunc = Some c, swm_CloseFunc = Some d, swm_WriteFunc = Some f\<rparr>
     = \<lparr>sw_Connect = c, sw_Close = d, sw_Write = f\<rparr>"
  by (simp add: mock_defs fun_eq_iff)

text \<open>
  A robots mock without functions answers as the client does when the evaluator always fails,
  for every request whose politeness config is one: both let the request through.
\<close>

lemma default_robots_mock:
  assumes "co_Spec co = PolitenessSpec pc" and "ia_Politeness request = Some co"
  shows "fst (re_IsAllowed (robots_mock \<lparr>rem_ConnectFunc = None, rem_CloseFunc = None, rem_IsAllowedFunc = None\<rparr>) request w)
    = fst (IsAllowed (\<lambda>q w. (Inl e, w)) request w)"
  using IsAllowed_fails_open [OF assms, of "\<lambda>q w. (Inl e, w)" w] by (simp add: mock_defs)

end
