(* ===== verification/Spec2Isabelle.thy ===== *)
theory Spec2Isabelle
  imports
    Prelude
    WaitGroup
    CompletionTimer
    Messages
    Requests
    Script_Run
    Session_Registry
    Config_Cache
    Rethink
    Connections
    Robots
    Streams
    Frontier
    Screenshot
    Session
    Session_Scripts
    Listeners
    Server
    Server_Props
    Page
    Fetch
    Controller
    Go_Time
    Codec
    Database
    Api_Server
    Service_Clients
    Main_Program
    Message_Effects
    Settling
    Settling_Events
    Settling_Fetch
    Scheduled
    Fetch_Returns
    Stored_Config
    System
    Live
    Metering
    Test_Utilities
begin

text \<open>
  A verification library for the Veidemann browser controller, a Go service that fetches web
  pages with a headless browser. It asks a frontier for pages, opens each in a browser
  whose traffic goes through a recorder proxy, runs configured scripts in it, waits until it
  has settled, and reports crawl logs, a page log, a screenshot and the outlinks. The
  proxies call back over gRPC for every request of the browser.

  \<^bold>\<open>How the program is put together.\<close> The main loop (\<^verbatim>\<open>controller/\<close>) takes a session from a
  registry (\<^verbatim>\<open>session/registry.go\<close>), a page from the frontier (\<^verbatim>\<open>frontier/\<close>) and starts a
  goroutine that runs \<open>Fetch\<close> (\<^verbatim>\<open>session/session.go\<close>) and reports the outcome. \<open>Fetch\<close> loads
  its configuration through a cache (\<^verbatim>\<open>database/\<close>), reacts to browser events
  (\<^verbatim>\<open>session/eventlisteners.go\<close>), runs scripts (\<^verbatim>\<open>session/script.go\<close>, \<^verbatim>\<open>script/\<close>), waits with a
  wait group and completion timers (\<^verbatim>\<open>syncx/\<close>) and keeps the page's requests in a registry
  (\<^verbatim>\<open>requests/\<close>). Meanwhile the API server (\<^verbatim>\<open>server/\<close>) answers the proxies, asks the robots
  evaluator (\<^verbatim>\<open>robotsevaluator/\<close>), and completes the requests with their crawl logs.

  \<^bold>\<open>The theories.\<close>
  \<^item> \<open>Prelude\<close>: a Go computation is a value or a panic (\<open>go\<close>), \<open>int32\<close> and \<open>int64\<close> are words,
    channels that only signal are flags, and first-match search, splitting, decimal printing
    and functional options are shared here, with the collections \<open>go_simps\<close>, \<open>step_defs\<close> and
    \<open>inv_intros\<close>.
  \<^item> \<open>WaitGroup\<close>, \<open>CompletionTimer\<close>: \<^verbatim>\<open>syncx/\<close>. Each method is a function on the record of its
    struct; an inductive step relation interleaves the atomic steps of any number of
    goroutines (wait group) or the rounds of the waiting loop, notifications and the clock
    (timer). Shown: wake-ups are not lost, results are justified, waits are bounded, and where
    the channels are closed twice.
  \<^item> \<open>Messages\<close>: \<^verbatim>\<open>errors/error.go\<close> and the protocol messages with the fields the code uses.
  \<^item> \<open>Requests\<close>: \<^verbatim>\<open>requests/\<close>. A request pointer is its index. \<open>FinalizeResponses\<close> is compared
    with a declarative description of redirect chains, referrers and discovery paths; the
    three lookups are interpretations of the locale \<open>first_match_store\<close>.
  \<^item> \<open>Script_Run\<close>: \<^verbatim>\<open>script/script.go\<close>. JSON texts are modelled by their values; the loop is a
    partial function, so that not returning is a value. Shown: where arguments come from,
    termination under a rank on scripts, and divergence without one.
  \<^item> \<open>Session_Registry\<close>: \<^verbatim>\<open>session/registry.go\<close> with the locale \<open>slot_pool\<close>, interpreted on it.
  \<^item> \<open>Config_Cache\<close>, \<open>Rethink\<close>: \<^verbatim>\<open>database/\<close>. The cache against its history of stores (locale
    \<open>ttl_cache\<close>), its transparency over an unchanging database, and the retry loop.
  \<^item> \<open>Connections\<close>, \<open>Robots\<close>, \<open>Streams\<close>, \<open>Frontier\<close>, \<open>Screenshot\<close>: the clients of other services
    over abstract calls; what is sent is observed by a recording stream.
  \<^item> \<open>Session\<close>, \<open>Session_Scripts\<close>, \<open>Listeners\<close>: the session record, its construction, \<open>Notify\<close> and
    \<open>AbortFetch\<close>; the handles of the cache and of the two writers that its options set (an
    operation through a nil handle is a panic); which scripts are loaded, which replaces a resource, and how they are run;
    the reaction to browser events.
  \<^item> \<open>Server\<close>, \<open>Server_Props\<close>: \<^verbatim>\<open>server/\<close>. Sessions live in a heap of addresses, shared with the
    registry; \<open>Do_step\<close> handles one message, \<open>Do_loop\<close> runs it against arbitrary changes by
    other goroutines between messages. Shown: one reply per new request, what is let through,
    isolation of sessions, the effect of completions, and two failures.
  \<^item> \<open>Page\<close>, \<open>Fetch\<close>: \<open>Fetch\<close> as a sequence of phases that may fail, panic or not return, with
    the deferred calls and the recovery. The browser, the events that arrive during a wait
    and the writers are an environment that may change the session. Shown: which errors a
    fetch can end with, that the counts reported are those written, that outlinks are clean,
    that the screenshot writer is guarded, and that the session is closed afterwards.
  \<^item> \<open>Settling\<close>, \<open>Settling_Events\<close>: the waits of \<open>Fetch\<close> as steps on the session's own
    wait group and timers, interleaved with the clock, the browser and the proxies. Shown: how
    a page settles, that notifications do not panic, that no wait hangs, and that the messages
    of the proxies and the events of the browser are such steps.
  \<^item> \<open>Settling_Fetch\<close>, \<open>Scheduled\<close>: what \<open>Fetch\<close> relies on from its waits is the locale
    \<open>fetch_waits\<close>; under it a result has been collected from a settled page. \<open>Scheduled\<close> gives
    the waits as the code has them, loops over the methods of \<^verbatim>\<open>syncx/\<close> with a schedule of what
    happens in every round and during every call of the browser, and interprets the locale.
  \<^item> \<open>Fetch_Returns\<close>: a fetch returns, whatever the schedule, when the chains of its scripts end.
  \<^item> \<open>Stored_Config\<close>: \<open>Fetch\<close> with the cache and the connection of \<^verbatim>\<open>database/\<close> behind the handle of
    its session. Shown: it loads what the database has.
  \<^item> \<open>Api_Server\<close>, \<open>Controller\<close>: starting and closing the API server; the main loop as a step
    relation with its channels, its goroutines and its deferred calls. Shown: every session in
    use has one owner who can release it, the loop blocks only on an empty pool, at most one
    fetch starts after a shutdown, the reporting goroutine does not panic, and what \<open>Run\<close> returns.
  \<^item> \<open>System\<close>: the controller, its sessions and the calls of the server as one system over one
    heap. A step is one of the controller, a change a fetch makes to its session, or a message
    of a call. Shown: the controller's part is a run of the controller, each slot holds the
    session made for it, what is let through belongs to the page being fetched, calls do not
    touch each other's sessions, and a session that has been released never comes back.
  \<^item> \<open>Live\<close>: \<open>System\<close> and \<open>Settling\<close> in one: fetches open pages, wait for them step by step on one
    clock while the proxies' messages arrive, and close them. Shown: every open page is in a
    state its waits can reach, messages are steps of it, and a proxy that reports on an open
    page is never refused.
  \<^item> \<open>Message_Effects\<close>: whatever relation the single effects of a message keep (an update, a
    notification, an abort), the whole message keeps, as the locale \<open>message_effect\<close>; interpreted
    for \<open>System\<close> with the ids of a session and for \<open>Settling_Events\<close> with the steps of a page.
  \<^item> \<open>Metering\<close>: \<^verbatim>\<open>metrics/metrics.go\<close> and its updates. Shown: what the gauges of the sessions count
    along the main loop, and what the counters and the buckets of the fetch times say.
  \<^item> \<open>Test_Utilities\<close>: the mocks of \<^verbatim>\<open>testutil/\<close> and the interfaces they implement.
  \<^item> \<open>Go_Time\<close>, \<open>Codec\<close>: \<^verbatim>\<open>database/codec.go\<close>, over the RFC 3339 times of Go. The driver's encoder
    is the locale \<open>type_encoding\<close>. Shown: which objects survive being stored, and which do not.
  \<^item> \<open>Database\<close>: the rest of \<^verbatim>\<open>database/database.go\<close> and \<^verbatim>\<open>database/mock.go\<close> over an abstract driver,
    as the adapter of the cache. Shown: cache and retries together are transparent over a
    driver that answers within the attempts of the connection.
  \<^item> \<open>Service_Clients\<close>: the clients of the four services as connections; each is an
    interpretation of the locale \<open>connection\<close>.
  \<^item> \<open>Main_Program\<close>: \<^verbatim>\<open>main.go\<close> with \<^verbatim>\<open>logger/\<close>, \<^verbatim>\<open>tracing/\<close> and \<^verbatim>\<open>metrics/server.go\<close>: flags, wiring,
    the deferred calls and the exit status. Shown: what is opened is closed in reverse order,
    and the proxies of the sessions \<open>main\<close> lets run.

  \<^bold>\<open>Conventions.\<close> A Go error is an \<open>error option\<close> or the left of a sum; a panic is \<open>Panic\<close>, and
  nil dereferences, indices out of range and closes of closed channels are branches of the
  definitions. A select over ready cases is the list of results it can give, or a step per
  case. Arguments that stand for code outside the repository (gRPC, the browser protocol, the
  database driver, URL and regular-expression libraries, hashing) are records of functions.
  The recursion of \<open>execWithRetry\<close>, \<open>ReplaceAll\<close> and \<open>path_spec\<close> has a measure; only the script
  loop can run for ever, and there a result is stated as one.

  \<^bold>\<open>Not modelled.\<close> Logging and spans; the network under the gRPC and metrics servers.
  Cookie expiry times (floating point) and time stamps
  of outlinks are left out of the records, white space beyond ASCII in \<open>TrimSpace\<close>, and years
  outside 0 to 9999, which no RFC 3339 text has. In \<open>Fetch\<close> itself a wait is an arbitrary change of
  the session with an arbitrary result; the loops it stands for are in \<open>Scheduled\<close>. In \<open>System\<close> and
  \<open>Live\<close> the phases of a fetch outside its waits are arbitrary changes of its own session.
\<close>

end
